theory Spec2Isabelle
  imports Complex_Main "HOL-Library.Signed_Division"
begin

section \<open>The simulation core of the beat-em-up: data model\<close>

text \<open>
  The development follows \<^verbatim>\<open>src/main.cpp\<close>: the update half of the game loop in
  \<^verbatim>\<open>main\<close>, the lambda \<^verbatim>\<open>ResetGame\<close> and the free functions before them.  The drawing
  half of the loop reads the state and never writes it, so it is left out, and so are
  the sound calls, which have no effect on the state.

  Conventions of the embedding.
  \<^item> A C++ \<^verbatim>\<open>float\<close> is a \<^typ>\<open>real\<close>.  Positions, speeds and timers are computed
    exactly, and their decimal constants stand for the rationals they spell.  The
    damage of a swing is different: there a \<^verbatim>\<open>float\<close> product is rounded to an
    \<^verbatim>\<open>int\<close>, so the rounding of single precision shows in the hit points, and the
    multiplier, the converted base damage and their product are rounded to IEEE 754
    binary32 (\<open>f32\<close> below), as the x86-64 and ARM64 builds of the program do.
  \<^item> A C++ \<^verbatim>\<open>int\<close> is an \<^typ>\<open>int\<close>: the counters, hit points and coin balances
    of a game stay far below \<open>2 ^ 31\<close>, and signed overflow is undefined in C++.
    Division and remainder truncate (\<open>sdiv\<close>, \<open>smod\<close>) as in C++.
  \<^item> The fields of a struct keep their names behind a prefix for the struct
    (\<open>e_\<close> for \<^verbatim>\<open>Enemy\<close>, \<open>p_\<close> for \<^verbatim>\<open>Player\<close>, \<open>pj_\<close> for \<^verbatim>\<open>Projectile\<close>,
    \<open>c_\<close> for \<^verbatim>\<open>Coin\<close>, \<open>cc_\<close> for \<^verbatim>\<open>CharacterClass\<close>), since several structs
    share field names.
  \<^item> What the program takes from raylib is a parameter: the two collision tests, the
    random numbers and the widths of the loaded textures form the record \<open>Env\<close>, the
    frame time and the keyboard of one frame form the record \<open>Input\<close>.
  \<^item> Reading a vector or an array outside its bounds is undefined in C++; the lookups
    return \<open>None\<close> there and a frame that would do so is \<open>None\<close>.
\<close>

datatype GameState = MENU | PLAYING | SHOP | VICTORY | GAMEOVER
datatype EnemyType = GRUNT | FAST | TANK | BOSS
datatype PlayerClass = KNIGHT | ROGUE | MAGE

datatype Texture = texKnight | texRogue | texMage
  | texEnemyGrunt | texEnemyFast | texEnemyTank | texEnemyBoss

datatype Key = KEY_RIGHT | KEY_LEFT | KEY_UP | KEY_DOWN | KEY_ENTER | KEY_TAB | KEY_ESCAPE
  | KEY_A | KEY_D | KEY_W | KEY_S | KEY_J | KEY_K

record Vector2 =
  v_x :: real
  v_y :: real

record Rectangle =
  rec_x :: real
  rec_y :: real
  rec_width :: real
  rec_height :: real

record Coin =
  c_pos :: Vector2
  c_collected :: bool

record Enemy =
  e_pos :: Vector2
  e_size :: Vector2
  e_maxHP :: int
  e_hp :: int
  e_speed :: real
  e_type :: EnemyType
  e_alive :: bool
  e_attackCooldown :: real
  e_windingUp :: bool
  e_windupTimer :: real
  e_attackingAnim :: bool
  e_attackAnimTimer :: real
  e_lastHitAttackId :: int
  e_lastProjectileHitId :: int
  e_sprite :: "Texture option"
  e_animFrame :: int
  e_animRow :: int
  e_animMaxFrames :: int
  e_animTimer :: real
  e_animFrameTime :: real

record Projectile =
  pj_pos :: Vector2
  pj_vel :: Vector2
  pj_radius :: real
  pj_life :: real
  pj_active :: bool
  pj_damage :: int
  pj_id :: int

record Player =
  p_name :: string
  p_pos :: Vector2
  p_size :: Vector2
  p_maxHP :: int
  p_hp :: int
  p_speed :: real
  p_baseDamage :: int
  p_facingRight :: bool
  p_attacking :: bool
  p_attackTimer :: real
  p_attackDuration :: real
  p_comboTimer :: real
  p_comboStep :: int
  p_attackHitbox :: Rectangle
  p_coins :: int
  p_damageLevel :: int
  p_healthLevel :: int
  p_speedLevel :: int
  p_blocking :: bool
  p_blockTimer :: real
  p_blockCooldown :: real
  p_blockCooldownTimer :: real
  p_dodging :: bool
  p_dodgeTimer :: real
  p_dodgeDuration :: real
  p_dodgeCooldown :: real
  p_dodgeCooldownTimer :: real
  p_dodgeDir :: real
  p_blinkCooldown :: real
  p_blinkCooldownTimer :: real
  p_invincible :: bool
  p_invincibleTimer :: real
  p_currentAttackId :: int
  p_sprite :: "Texture option"
  p_animFrame :: int
  p_animRow :: int
  p_animMaxFrames :: int
  p_animTimer :: real
  p_animFrameTime :: real

record CharacterClass =
  cc_name :: string
  cc_maxHP :: int
  cc_speed :: real
  cc_baseDamage :: int
  cc_type :: PlayerClass

text \<open>
  The variables of \<^verbatim>\<open>main\<close> that the update reads and writes, with the three
  file-level globals \<^verbatim>\<open>gHitStopTimer\<close>, \<^verbatim>\<open>gAttackCounter\<close> and
  \<^verbatim>\<open>gProjectileCounter\<close>.  \<open>randCalls\<close> is the position in raylib's random stream:
  the number of calls of \<^verbatim>\<open>GetRandomValue\<close> made so far.
\<close>

record Game =
  selectedClassIndex :: int
  player :: Player
  playerClass :: PlayerClass
  state :: GameState
  cameraTarget :: Vector2
  enemies :: "Enemy list"
  coins :: "Coin list"
  projectiles :: "Projectile list"
  bossSpawned :: bool
  bossDefeated :: bool
  enemySpawnTimer :: real
  shopSelection :: int
  gHitStopTimer :: real
  gAttackCounter :: int
  gProjectileCounter :: int
  randCalls :: nat

record Env =
  CheckCollisionRecs :: "Rectangle \<Rightarrow> Rectangle \<Rightarrow> bool"
  CheckCollisionCircleRec :: "Vector2 \<Rightarrow> real \<Rightarrow> Rectangle \<Rightarrow> bool"
  GetRandomValue :: "nat \<Rightarrow> int \<Rightarrow> int \<Rightarrow> int"
  texWidth :: "Texture \<Rightarrow> int"

record Input =
  GetFrameTime :: real
  IsKeyPressed :: "Key \<Rightarrow> bool"
  IsKeyDown :: "Key \<Rightarrow> bool"

section \<open>Constants and utilities\<close>

abbreviation (input) PLAYER_SPRITE_COLS :: int where "PLAYER_SPRITE_COLS \<equiv> 4"
abbreviation (input) ENEMY_SPRITE_COLS :: int where "ENEMY_SPRITE_COLS \<equiv> 4"
abbreviation (input) GROUND_TOP :: real where "GROUND_TOP \<equiv> 350"
abbreviation (input) GROUND_BOTTOM :: real where "GROUND_BOTTOM \<equiv> 430"
abbreviation (input) LEVEL_LENGTH :: real where "LEVEL_LENGTH \<equiv> 3000"
abbreviation (input) ENEMY_SPAWN_INTERVAL :: real where "ENEMY_SPAWN_INTERVAL \<equiv> 3"
abbreviation (input) COMBO_RESET_TIME :: real where "COMBO_RESET_TIME \<equiv> 1"

definition MakeRect :: "Vector2 \<Rightarrow> Vector2 \<Rightarrow> Rectangle" where
  "MakeRect pos sz =
     \<lparr>rec_x = v_x pos - v_x sz * 0.5, rec_y = v_y pos - v_y sz,
      rec_width = v_x sz, rec_height = v_y sz\<rparr>"

definition RectOverlap :: "Env \<Rightarrow> Rectangle \<Rightarrow> Rectangle \<Rightarrow> bool" where
  "RectOverlap env a b = CheckCollisionRecs env a b"

text \<open>\<^verbatim>\<open>std::round\<close>: to the nearest integer, halves away from zero.\<close>

definition std_round :: "real \<Rightarrow> int" where
  "std_round r = (if 0 \<le> r then \<lfloor>r + 1 / 2\<rfloor> else \<lceil>r - 1 / 2\<rceil>)"

text \<open>
  Single precision.  A binary32 number has a significand of 24 bits; \<open>f32 x\<close> is the
  binary32 number nearest to \<open>x\<close>, a tie going to the even significand, which is what
  a \<^verbatim>\<open>float\<close> constant, the conversion of an \<^verbatim>\<open>int\<close> to \<^verbatim>\<open>float\<close> and a \<^verbatim>\<open>float\<close>
  product give.  \<open>ilog2 n\<close> is the position of the leading bit of \<open>n\<close>, \<open>exponent x\<close> the
  binary exponent of a positive \<open>x\<close>, \<open>ulp x\<close> the spacing of the binary32 numbers at
  \<open>x\<close>, and \<open>rne\<close> rounds to the nearest integer, a tie going to the even one.
  Overflow and subnormal numbers are left out: the damage stays far inside the normal
  range.
\<close>

fun ilog2 :: "nat \<Rightarrow> nat" where
  "ilog2 n = (if n < 2 then 0 else Suc (ilog2 (n div 2)))"

declare ilog2.simps [simp del]

definition exponent :: "real \<Rightarrow> int" where
  "exponent x =
     (if 1 \<le> x then int (ilog2 (nat \<lfloor>x\<rfloor>))
      else - int (Suc (ilog2 (nat (\<lceil>1 / x\<rceil> - 1)))))"

definition rne :: "real \<Rightarrow> int" where
  "rne x =
     (let f = \<lfloor>x\<rfloor>; d = x - real_of_int f
      in if d < 1 / 2 then f else if 1 / 2 < d then f + 1 else if even f then f else f + 1)"

definition ulp :: "real \<Rightarrow> real" where
  "ulp x = (let e = exponent \<bar>x\<bar> - 23 in if 0 \<le> e then 2 ^ nat e else 1 / 2 ^ nat (- e))"

definition f32 :: "real \<Rightarrow> real" where
  "f32 x = (if x = 0 then 0 else sgn x * real_of_int (rne (\<bar>x\<bar> / ulp x)) * ulp x)"

text \<open>The constants are the \<^verbatim>\<open>float\<close> literals of the source: \<^verbatim>\<open>1.3f\<close> is \<open>f32 1.3\<close>.\<close>

definition GetComboMultiplier :: "PlayerClass \<Rightarrow> int \<Rightarrow> real" where
  "GetComboMultiplier pc step0 =
     (let step1 = (if step0 < 1 then 1 else step0);
          step = (if step1 > 3 then 3 else step1)
      in case pc of
           KNIGHT \<Rightarrow> (if step = 1 then f32 1.0 else if step = 2 then f32 1.3 else f32 2.0)
         | ROGUE \<Rightarrow> (if step = 1 then f32 0.7 else if step = 2 then f32 0.9 else f32 1.1)
         | MAGE \<Rightarrow> (if step = 1 then f32 0.8 else if step = 2 then f32 1.0 else f32 1.2))"

text \<open>
  The damage of a swing or of a projectile: \<^verbatim>\<open>(int)std::round(baseDamage * comboMul)\<close>.
  The \<^verbatim>\<open>int\<close> is converted to \<^verbatim>\<open>float\<close>, the product is a \<^verbatim>\<open>float\<close>,
  \<^verbatim>\<open>std::round\<close> gives a whole \<^verbatim>\<open>float\<close> and the cast takes it as it is.
\<close>

definition comboDamage :: "PlayerClass \<Rightarrow> Player \<Rightarrow> int" where
  "comboDamage pc p =
     std_round (f32 (f32 (real_of_int (p_baseDamage p)) * GetComboMultiplier pc (p_comboStep p)))"

definition MakeEnemy :: "EnemyType \<Rightarrow> real \<Rightarrow> real \<Rightarrow> Enemy" where
  "MakeEnemy ty x laneY =
     (let sz = (case ty of GRUNT \<Rightarrow> \<lparr>v_x = 40, v_y = 70\<rparr> | FAST \<Rightarrow> \<lparr>v_x = 32, v_y = 60\<rparr>
                 | TANK \<Rightarrow> \<lparr>v_x = 60, v_y = 90\<rparr> | BOSS \<Rightarrow> \<lparr>v_x = 100, v_y = 140\<rparr>);
          h = (case ty of GRUNT \<Rightarrow> 90 | FAST \<Rightarrow> 80 | TANK \<Rightarrow> 150 | BOSS \<Rightarrow> 450);
          sp = (case ty of GRUNT \<Rightarrow> 80 | FAST \<Rightarrow> 135 | TANK \<Rightarrow> 55 | BOSS \<Rightarrow> 70);
          tex = (case ty of GRUNT \<Rightarrow> texEnemyGrunt | FAST \<Rightarrow> texEnemyFast
                 | TANK \<Rightarrow> texEnemyTank | BOSS \<Rightarrow> texEnemyBoss)
      in \<lparr>e_pos = \<lparr>v_x = x, v_y = laneY\<rparr>, e_size = sz, e_maxHP = h, e_hp = h, e_speed = sp,
          e_type = ty, e_alive = True, e_attackCooldown = 0, e_windingUp = False,
          e_windupTimer = 0, e_attackingAnim = False, e_attackAnimTimer = 0,
          e_lastHitAttackId = - 1, e_lastProjectileHitId = - 1, e_sprite = Some tex,
          e_animFrame = 0, e_animRow = 0, e_animMaxFrames = ENEMY_SPRITE_COLS,
          e_animTimer = 0, e_animFrameTime = 0.15\<rparr>)"

section \<open>Shop\<close>

definition shopOptions :: "(string \<times> int) list" where
  "shopOptions = [(''Increase Damage'', 5), (''Increase Max HP'', 5), (''Increase Speed'', 5)]"

definition baseCost :: "int \<Rightarrow> int option" where
  "baseCost index =
     (if 0 \<le> index \<and> index < int (length shopOptions)
      then Some (snd (shopOptions ! nat index)) else None)"

definition upgradeLevel :: "Player \<Rightarrow> int \<Rightarrow> int" where
  "upgradeLevel p index =
     (if index = 0 then p_damageLevel p
      else if index = 1 then p_healthLevel p
      else if index = 2 then p_speedLevel p
      else 0)"

definition GetUpgradeCost :: "Player \<Rightarrow> int \<Rightarrow> int option" where
  "GetUpgradeCost p index =
     (case baseCost index of
        None \<Rightarrow> None
      | Some c \<Rightarrow> Some (c * (1 + upgradeLevel p index)))"

definition ApplyUpgrade :: "Player \<Rightarrow> int \<Rightarrow> Player" where
  "ApplyUpgrade p index =
     (if index = 0 then p\<lparr>p_damageLevel := p_damageLevel p + 1, p_baseDamage := p_baseDamage p + 3\<rparr>
      else if index = 1 then
        p\<lparr>p_healthLevel := p_healthLevel p + 1, p_maxHP := p_maxHP p + 15, p_hp := p_maxHP p + 15\<rparr>
      else if index = 2 then p\<lparr>p_speedLevel := p_speedLevel p + 1, p_speed := p_speed p + 20\<rparr>
      else p)"

section \<open>Session reset\<close>

definition classes :: "CharacterClass list" where
  "classes =
     [\<lparr>cc_name = ''Knight'', cc_maxHP = 170, cc_speed = 180, cc_baseDamage = 20, cc_type = KNIGHT\<rparr>,
      \<lparr>cc_name = ''Rogue'', cc_maxHP = 110, cc_speed = 270, cc_baseDamage = 14, cc_type = ROGUE\<rparr>,
      \<lparr>cc_name = ''Mage'', cc_maxHP = 90, cc_speed = 190, cc_baseDamage = 10, cc_type = MAGE\<rparr>]"

definition classAt :: "int \<Rightarrow> CharacterClass option" where
  "classAt i = (if 0 \<le> i \<and> i < int (length classes) then Some (classes ! nat i) else None)"

text \<open>
  The lambda \<^verbatim>\<open>ResetGame\<close>.  It leaves \<^verbatim>\<open>player.attackHitbox\<close>, the menu's
  \<^verbatim>\<open>selectedClassIndex\<close>, \<^verbatim>\<open>shopSelection\<close> and the phase as they are.
\<close>

definition ResetGame :: "Game \<Rightarrow> Game option" where
  "ResetGame g =
     (case classAt (selectedClassIndex g) of
        None \<Rightarrow> None
      | Some cc \<Rightarrow>
         (let pc = cc_type cc;
              start = \<lparr>v_x = 100, v_y = (GROUND_TOP + GROUND_BOTTOM) * 0.5\<rparr>;
              p1 = (player g)
                \<lparr>p_name := cc_name cc, p_size := \<lparr>v_x = 40, v_y = 75\<rparr>, p_pos := start,
                 p_maxHP := cc_maxHP cc, p_hp := cc_maxHP cc, p_speed := cc_speed cc,
                 p_baseDamage := cc_baseDamage cc, p_facingRight := True,
                 p_attacking := False, p_attackTimer := 0, p_attackDuration := 0.15,
                 p_comboTimer := 0, p_comboStep := 0, p_coins := 0,
                 p_damageLevel := 0, p_healthLevel := 0, p_speedLevel := 0,
                 p_currentAttackId := - 1,
                 p_blocking := False, p_blockTimer := 0, p_blockCooldown := 0,
                 p_blockCooldownTimer := 0,
                 p_dodging := False, p_dodgeTimer := 0, p_dodgeDuration := 0,
                 p_dodgeCooldown := 0, p_dodgeCooldownTimer := 0, p_dodgeDir := 0,
                 p_blinkCooldown := 0, p_blinkCooldownTimer := 0,
                 p_invincible := False, p_invincibleTimer := 0\<rparr>;
              p2 = (case pc of
                      KNIGHT \<Rightarrow> p1\<lparr>p_blockCooldown := 1.0, p_sprite := Some texKnight\<rparr>
                    | ROGUE \<Rightarrow> p1\<lparr>p_dodgeDuration := 0.25, p_dodgeCooldown := 0.9,
                                  p_sprite := Some texRogue\<rparr>
                    | MAGE \<Rightarrow> p1\<lparr>p_blinkCooldown := 1.2, p_sprite := Some texMage\<rparr>);
              p3 = p2\<lparr>p_animFrame := 0, p_animRow := 0, p_animMaxFrames := PLAYER_SPRITE_COLS,
                      p_animTimer := 0, p_animFrameTime := 0.12\<rparr>
          in Some (g\<lparr>playerClass := pc, player := p3, enemies := [], coins := [],
                     projectiles := [], bossSpawned := False, bossDefeated := False,
                     enemySpawnTimer := 0, cameraTarget := start, gHitStopTimer := 0,
                     gAttackCounter := 0, gProjectileCounter := 0\<rparr>)))"

section \<open>The PLAYING update: the player\<close>

text \<open>The normalised direction of the held movement keys (lines 453 to 463).\<close>

definition inputMove :: "Input \<Rightarrow> Vector2" where
  "inputMove inp =
     (let mx1 = (if IsKeyDown inp KEY_A \<or> IsKeyDown inp KEY_LEFT then 0 - 1 else 0);
          mx2 = (if IsKeyDown inp KEY_D \<or> IsKeyDown inp KEY_RIGHT then mx1 + 1 else mx1);
          my1 = (if IsKeyDown inp KEY_W \<or> IsKeyDown inp KEY_UP then 0 - 1 else 0);
          my2 = (if IsKeyDown inp KEY_S \<or> IsKeyDown inp KEY_DOWN then my1 + 1 else my1);
          mag = sqrt (mx2 * mx2 + my2 * my2)
      in if mag > 0 then \<lparr>v_x = mx2 / mag, v_y = my2 / mag\<rparr> else \<lparr>v_x = mx2, v_y = my2\<rparr>)"

text \<open>The local \<^verbatim>\<open>move\<close> once the dodge has overridden it (line 469).\<close>

definition moveVector :: "Input \<Rightarrow> Player \<Rightarrow> Vector2" where
  "moveVector inp p = (if p_dodging p then \<lparr>v_x = p_dodgeDir p, v_y = 0\<rparr> else inputMove inp)"

definition playerMovement :: "Input \<Rightarrow> real \<Rightarrow> Player \<Rightarrow> Player" where
  "playerMovement inp gameDt p =
     (let move = moveVector inp p;
          moveSpeed = (if p_dodging p then p_speed p * 3.5 else p_speed p);
          x1 = v_x (p_pos p) + v_x move * moveSpeed * gameDt;
          y1 = v_y (p_pos p) + v_y move * p_speed p * gameDt;
          x2 = (if x1 < 0 then 0 else x1);
          x3 = (if x2 > LEVEL_LENGTH then LEVEL_LENGTH else x2);
          y2 = (if y1 < GROUND_TOP then GROUND_TOP else y1);
          y3 = (if y2 > GROUND_BOTTOM then GROUND_BOTTOM else y2);
          facing = (if \<not> p_dodging p
                    then (if v_x move > 0 then True
                          else if v_x move < 0 then False else p_facingRight p)
                    else p_facingRight p)
      in p\<lparr>p_pos := \<lparr>v_x = x3, v_y = y3\<rparr>, p_facingRight := facing\<rparr>)"

text \<open>
  One cooldown timer: \<^verbatim>\<open>if (t > 0) t -= gameDt; if (t < 0) t = 0;\<close>
\<close>

definition cooldownTick :: "real \<Rightarrow> real \<Rightarrow> real" where
  "cooldownTick gameDt t =
     (let t1 = (if t > 0 then t - gameDt else t) in if t1 < 0 then 0 else t1)"

definition abilityTimers :: "real \<Rightarrow> Player \<Rightarrow> Player" where
  "abilityTimers gameDt p =
     (let p1 = p\<lparr>p_blockCooldownTimer := cooldownTick gameDt (p_blockCooldownTimer p),
                  p_dodgeCooldownTimer := cooldownTick gameDt (p_dodgeCooldownTimer p),
                  p_blinkCooldownTimer := cooldownTick gameDt (p_blinkCooldownTimer p)\<rparr>
      in if p_invincibleTimer p1 > 0
         then (let p2 = p1\<lparr>p_invincibleTimer := p_invincibleTimer p1 - gameDt\<rparr>
               in if p_invincibleTimer p2 \<le> 0 then p2\<lparr>p_invincible := False\<rparr> else p2)
         else p1)"

definition knightBlock :: "Input \<Rightarrow> real \<Rightarrow> Player \<Rightarrow> Player" where
  "knightBlock inp gameDt p =
     (let p1 = (if \<not> p_blocking p \<and> p_blockCooldownTimer p \<le> 0 \<and> IsKeyPressed inp KEY_K
                then p\<lparr>p_blocking := True, p_blockTimer := 0.7,
                       p_blockCooldownTimer := p_blockCooldown p\<rparr>
                else p)
      in if p_blocking p1
         then (let p2 = p1\<lparr>p_blockTimer := p_blockTimer p1 - gameDt\<rparr>
               in if p_blockTimer p2 \<le> 0 then p2\<lparr>p_blocking := False\<rparr> else p2)
         else p1)"

definition rogueDodge :: "Input \<Rightarrow> real \<Rightarrow> Player \<Rightarrow> Player" where
  "rogueDodge inp gameDt p =
     (let p1 = (if \<not> p_dodging p \<and> p_dodgeCooldownTimer p \<le> 0 \<and> IsKeyPressed inp KEY_K
                then p\<lparr>p_dodging := True, p_dodgeTimer := p_dodgeDuration p,
                       p_dodgeCooldownTimer := p_dodgeCooldown p,
                       p_dodgeDir := (if p_facingRight p then 1.0 else - 1.0),
                       p_invincible := True, p_invincibleTimer := p_dodgeDuration p\<rparr>
                else p)
      in if p_dodging p1
         then (let p2 = p1\<lparr>p_dodgeTimer := p_dodgeTimer p1 - gameDt\<rparr>
               in if p_dodgeTimer p2 \<le> 0 then p2\<lparr>p_dodging := False\<rparr> else p2)
         else p1)"

definition mageBlink :: "Input \<Rightarrow> Player \<Rightarrow> Player" where
  "mageBlink inp p =
     (if p_blinkCooldownTimer p \<le> 0 \<and> IsKeyPressed inp KEY_K
      then (let dir = (if p_facingRight p then 1.0 else - 1.0);
                blinkDist = 150;
                x1 = v_x (p_pos p) + dir * blinkDist;
                x2 = (if x1 < 0 then 0 else x1);
                x3 = (if x2 > LEVEL_LENGTH then LEVEL_LENGTH else x2)
            in p\<lparr>p_pos := (p_pos p)\<lparr>v_x := x3\<rparr>, p_blinkCooldownTimer := p_blinkCooldown p,
                 p_invincible := True, p_invincibleTimer := 0.15\<rparr>)
      else p)"

text \<open>The three class abilities (lines 514 to 562); exactly one applies.\<close>

definition abilities :: "Input \<Rightarrow> real \<Rightarrow> PlayerClass \<Rightarrow> Player \<Rightarrow> Player" where
  "abilities inp gameDt pc p =
     (case pc of
        KNIGHT \<Rightarrow> knightBlock inp gameDt p
      | ROGUE \<Rightarrow> rogueDodge inp gameDt p
      | MAGE \<Rightarrow> mageBlink inp p)"

definition comboTick :: "real \<Rightarrow> Player \<Rightarrow> Player" where
  "comboTick gameDt p =
     (let p1 = p\<lparr>p_comboTimer := p_comboTimer p + gameDt\<rparr>
      in if p_comboTimer p1 > COMBO_RESET_TIME then p1\<lparr>p_comboTimer := 0, p_comboStep := 0\<rparr>
         else p1)"

text \<open>
  Duration, range, width and height of a melee swing by class and combo step
  (lines 592 to 628); the class is KNIGHT or, in the else branch, ROGUE.
\<close>

definition meleeParams :: "PlayerClass \<Rightarrow> int \<Rightarrow> real \<times> real \<times> real \<times> real" where
  "meleeParams pc step =
     (if pc = KNIGHT
      then (if step = 1 then (0.28, 55, 60, 70)
            else if step = 2 then (0.32, 65, 70, 75)
            else (0.40, 80, 85, 80))
      else (if step = 1 then (0.12, 45, 35, 55)
            else if step = 2 then (0.14, 55, 40, 55)
            else (0.16, 60, 45, 55)))"

text \<open>The attack-input edge (lines 573 to 656).\<close>

definition attackStart :: "Input \<Rightarrow> Game \<Rightarrow> Game" where
  "attackStart inp g =
     (let p = player g; pc = playerClass g;
          meleeClass = (pc = KNIGHT \<or> pc = ROGUE)
      in if \<not> p_attacking p \<and> IsKeyPressed inp KEY_J
         then (let step1 = p_comboStep p + 1;
                   step = (if step1 > 3 then 1 else step1);
                   p1 = p\<lparr>p_attacking := True, p_attackTimer := 0, p_attackDuration := 0.15,
                          p_comboTimer := 0, p_comboStep := step\<rparr>;
                   dir = (if p_facingRight p1 then 1.0 else - 1.0)
               in if meleeClass
                  then (let counter = gAttackCounter g + 1;
                            (duration, attackRange, attackWidth0, attackHeight) =
                               meleeParams pc step;
                            attackWidth = attackWidth0 + 20;
                            center = \<lparr>v_x = v_x (p_pos p1) + dir * (attackRange * 0.6),
                                      v_y = v_y (p_pos p1)\<rparr>;
                            p2 = p1\<lparr>p_currentAttackId := counter, p_attackDuration := duration,
                                    p_attackHitbox :=
                                      MakeRect center \<lparr>v_x = attackWidth, v_y = attackHeight\<rparr>\<rparr>
                        in g\<lparr>gAttackCounter := counter, player := p2\<rparr>)
                  else (let p2 = p1\<lparr>p_attackDuration := 0.22\<rparr>;
                            dmg = comboDamage pc p2;
                            counter = gProjectileCounter g + 1;
                            pj = \<lparr>pj_pos = \<lparr>v_x = v_x (p_pos p2) + dir * 30,
                                            v_y = v_y (p_pos p2) - 25\<rparr>,
                                  pj_vel = \<lparr>v_x = dir * (if step = 1 then 420
                                                          else if step = 2 then 460 else 520),
                                            v_y = 0\<rparr>,
                                  pj_radius = (if step = 1 then 18
                                               else if step = 2 then 22 else 26),
                                  pj_life = 1.2, pj_active = True, pj_damage = dmg,
                                  pj_id = counter\<rparr>
                        in g\<lparr>gProjectileCounter := counter, player := p2,
                             projectiles := projectiles g @ [pj]\<rparr>))
         else g)"

definition attackTick :: "real \<Rightarrow> Player \<Rightarrow> Player" where
  "attackTick gameDt p =
     (if p_attacking p
      then (let p1 = p\<lparr>p_attackTimer := p_attackTimer p + gameDt\<rparr>
            in if p_attackTimer p1 > p_attackDuration p1 then p1\<lparr>p_attacking := False\<rparr> else p1)
      else p)"

text \<open>\<^verbatim>\<open>sprite && sprite->width > 0\<close>: the sprite pointer is set and its texture loaded.\<close>

definition spriteReady :: "Env \<Rightarrow> Texture option \<Rightarrow> bool" where
  "spriteReady env sp = (case sp of None \<Rightarrow> False | Some t \<Rightarrow> texWidth env t > 0)"

definition playerAnimation :: "Env \<Rightarrow> Vector2 \<Rightarrow> real \<Rightarrow> Player \<Rightarrow> Player" where
  "playerAnimation env move gameDt p =
     (if spriteReady env (p_sprite p)
      then (let isMoving = (\<bar>v_x move\<bar> > 0.01 \<or> \<bar>v_y move\<bar> > 0.01);
                p1 = p\<lparr>p_animRow := (if p_attacking p then 2 else if isMoving then 1 else 0)\<rparr>;
                p2 = p1\<lparr>p_animTimer := p_animTimer p1 + gameDt\<rparr>
            in if p_animTimer p2 \<ge> p_animFrameTime p2
               then p2\<lparr>p_animTimer := 0,
                       p_animFrame := (p_animFrame p2 + 1) smod p_animMaxFrames p2\<rparr>
               else p2)
      else p)"

section \<open>The PLAYING update: spawning and projectiles\<close>

definition enemySpawning :: "Env \<Rightarrow> real \<Rightarrow> Game \<Rightarrow> Game" where
  "enemySpawning env gameDt g =
     (let g1 = g\<lparr>enemySpawnTimer := enemySpawnTimer g + gameDt\<rparr>
      in if enemySpawnTimer g1 > ENEMY_SPAWN_INTERVAL \<and> \<not> bossSpawned g1
         then (let n = randCalls g1;
                   laneY1 = GROUND_TOP + real_of_int (GetRandomValue env n 0 100);
                   laneY = (if laneY1 > GROUND_BOTTOM then GROUND_BOTTOM else laneY1);
                   spawnX1 = v_x (p_pos (player g1))
                             + real_of_int (GetRandomValue env (n + 1) 250 450);
                   spawnX2 = (if spawnX1 < 400 then 400 else spawnX1);
                   spawnX = (if spawnX2 > LEVEL_LENGTH - 300 then LEVEL_LENGTH - 300
                             else spawnX2);
                   r = GetRandomValue env (n + 2) 0 2;
                   ty = (if r = 1 then FAST else if r = 2 then TANK else GRUNT)
               in g1\<lparr>enemySpawnTimer := 0, randCalls := n + 3,
                      enemies := enemies g1 @ [MakeEnemy ty spawnX laneY]\<rparr>)
         else g1)"

definition bossSpawn :: "Game \<Rightarrow> Game" where
  "bossSpawn g =
     (if \<not> bossSpawned g \<and> v_x (p_pos (player g)) > LEVEL_LENGTH - 600
      then g\<lparr>bossSpawned := True,
             enemies := enemies g
               @ [MakeEnemy BOSS (LEVEL_LENGTH - 200) ((GROUND_TOP + GROUND_BOTTOM) * 0.5)]\<rparr>
      else g)"

definition projectileMove :: "real \<Rightarrow> Projectile \<Rightarrow> Projectile" where
  "projectileMove gameDt pj =
     (if \<not> pj_active pj then pj
      else (let pj1 = pj\<lparr>pj_pos := \<lparr>v_x = v_x (pj_pos pj) + v_x (pj_vel pj) * gameDt,
                                      v_y = v_y (pj_pos pj) + v_y (pj_vel pj) * gameDt\<rparr>,
                         pj_life := pj_life pj - gameDt\<rparr>
            in if pj_life pj1 \<le> 0 \<or> v_x (pj_pos pj1) < - 200
                  \<or> v_x (pj_pos pj1) > LEVEL_LENGTH + 200
               then pj1\<lparr>pj_active := False\<rparr> else pj1))"

definition projectilesUpdate :: "real \<Rightarrow> Game \<Rightarrow> Game" where
  "projectilesUpdate gameDt g = g\<lparr>projectiles := map (projectileMove gameDt) (projectiles g)\<rparr>"

section \<open>The PLAYING update: enemies\<close>

text \<open>
  The enemy loop mutates the enemy at hand and, besides, the player's hit points, the
  hit-stop timer, the coins, the phase and \<^verbatim>\<open>bossDefeated\<close>.  Each part of the loop
  body therefore takes the enemy and the game and returns both.  The locals \<^verbatim>\<open>er\<close>
  and \<^verbatim>\<open>pr\<close> always hold the rectangles of the enemy's and the player's current
  position, so the model recomputes them where they are read.
\<close>

definition enemyMove :: "real \<Rightarrow> Player \<Rightarrow> Enemy \<Rightarrow> Enemy" where
  "enemyMove gameDt p e =
     (if \<not> e_windingUp e \<and> \<not> e_attackingAnim e
      then (let dx = v_x (p_pos p) - v_x (e_pos e);
                dy = v_y (p_pos p) - v_y (e_pos e);
                dist = sqrt (dx * dx + dy * dy);
                dir = (if dist > 5 then \<lparr>v_x = dx / dist, v_y = dy / dist\<rparr>
                       else \<lparr>v_x = 0, v_y = 0\<rparr>);
                x1 = v_x (e_pos e) + v_x dir * e_speed e * gameDt;
                y1 = v_y (e_pos e) + v_y dir * e_speed e * 0.6 * gameDt;
                y2 = (if y1 < GROUND_TOP then GROUND_TOP else y1);
                y3 = (if y2 > GROUND_BOTTOM then GROUND_BOTTOM else y2)
            in e\<lparr>e_pos := \<lparr>v_x = x1, v_y = y3\<rparr>\<rparr>)
      else e)"

definition enemyCooldown :: "real \<Rightarrow> Enemy \<Rightarrow> Enemy" where
  "enemyCooldown gameDt e =
     (let c = e_attackCooldown e - gameDt
      in e\<lparr>e_attackCooldown := (if c < 0 then 0 else c)\<rparr>)"

definition baseWindup :: "EnemyType \<Rightarrow> real" where
  "baseWindup ty =
     (if ty = FAST then 0.25 else if ty = TANK then 0.45 else if ty = BOSS then 0.6 else 0.35)"

definition enemyWindupStart :: "Env \<Rightarrow> Player \<Rightarrow> Enemy \<Rightarrow> Enemy" where
  "enemyWindupStart env p e =
     (if \<not> e_windingUp e \<and> \<not> e_attackingAnim e \<and> e_attackCooldown e \<le> 0
         \<and> RectOverlap env (MakeRect (e_pos e) (e_size e)) (MakeRect (p_pos p) (p_size p))
      then e\<lparr>e_windingUp := True, e_windupTimer := baseWindup (e_type e)\<rparr>
      else e)"

text \<open>The damage of an enemy's attack by type (lines 766 to 769).\<close>

definition enemyDamage :: "EnemyType \<Rightarrow> int" where
  "enemyDamage ty =
     (let d0 = 6;
          d1 = (if ty = FAST then 8 else d0);
          d2 = (if ty = TANK then 13 else d1)
      in if ty = BOSS then 20 else d2)"

text \<open>The mitigated damage \<^verbatim>\<open>finalDmg\<close> (lines 771 to 778).\<close>

definition finalDamage :: "PlayerClass \<Rightarrow> Player \<Rightarrow> int \<Rightarrow> int" where
  "finalDamage pc p dmg =
     (if p_invincible p then 0
      else if p_blocking p \<and> pc = KNIGHT then dmg sdiv 3
      else dmg)"

text \<open>Applying it to the player (lines 780 to 785).\<close>

definition damagePlayer :: "int \<Rightarrow> Game \<Rightarrow> Game" where
  "damagePlayer finalDmg g =
     (if finalDmg > 0
      then (let h = p_hp (player g) - finalDmg
            in g\<lparr>player := (player g)\<lparr>p_hp := (if h < 0 then 0 else h)\<rparr>,
                 gHitStopTimer := max (gHitStopTimer g) 0.05\<rparr>)
      else g)"

definition enemyWindupResolve :: "Env \<Rightarrow> real \<Rightarrow> Enemy \<Rightarrow> Game \<Rightarrow> Enemy \<times> Game" where
  "enemyWindupResolve env gameDt e g =
     (if e_windingUp e
      then (let e1 = e\<lparr>e_windupTimer := e_windupTimer e - gameDt\<rparr>
            in if e_windupTimer e1 \<le> 0
               then (let g1 = (if RectOverlap env (MakeRect (e_pos e1) (e_size e1))
                                     (MakeRect (p_pos (player g)) (p_size (player g)))
                               then damagePlayer
                                      (finalDamage (playerClass g) (player g)
                                         (enemyDamage (e_type e1))) g
                               else g)
                     in (e1\<lparr>e_windingUp := False, e_attackingAnim := True,
                            e_attackAnimTimer := 0.22, e_attackCooldown := 1.1\<rparr>, g1))
               else (e1, g))
      else (e, g))"

definition enemyAttackAnim :: "real \<Rightarrow> Enemy \<Rightarrow> Enemy" where
  "enemyAttackAnim gameDt e =
     (if e_attackingAnim e
      then (let e1 = e\<lparr>e_attackAnimTimer := e_attackAnimTimer e - gameDt\<rparr>
            in if e_attackAnimTimer e1 \<le> 0 then e1\<lparr>e_attackingAnim := False\<rparr> else e1)
      else e)"

definition enemyAnimation :: "Env \<Rightarrow> real \<Rightarrow> Enemy \<Rightarrow> Enemy" where
  "enemyAnimation env gameDt e =
     (if spriteReady env (e_sprite e)
      then (let e1 = e\<lparr>e_animRow := (if e_windingUp e \<or> e_attackingAnim e then 1 else 0)\<rparr>;
                e2 = e1\<lparr>e_animTimer := e_animTimer e1 + gameDt\<rparr>
            in if e_animTimer e2 \<ge> e_animFrameTime e2
               then e2\<lparr>e_animTimer := 0,
                       e_animFrame := (e_animFrame e2 + 1) smod e_animMaxFrames e2\<rparr>
               else e2)
      else e)"

text \<open>The number of coins an enemy drops (lines 848 to 850 and 885 to 887).\<close>

definition coinCount :: "EnemyType \<Rightarrow> nat" where
  "coinCount ty =
     (let c0 = 1; c1 = (if ty = TANK then 3 else c0) in if ty = BOSS then 10 else c1)"

text \<open>The loop that drops them: \<open>n\<close> is the number of coins still to drop.\<close>

fun spawnCoins :: "Env \<Rightarrow> Vector2 \<Rightarrow> nat \<Rightarrow> Game \<Rightarrow> Game" where
  "spawnCoins env pos 0 g = g"
| "spawnCoins env pos (Suc n) g =
     spawnCoins env pos n
       (g\<lparr>coins := coins g
             @ [\<lparr>c_pos = \<lparr>v_x = v_x pos + real_of_int (GetRandomValue env (randCalls g) (- 10) 10),
                          v_y = v_y pos
                                - real_of_int (GetRandomValue env (randCalls g + 1) 0 20)\<rparr>,
                 c_collected = False\<rparr>],
          randCalls := randCalls g + 2\<rparr>)"

text \<open>
  What both damage paths do once \<^verbatim>\<open>e.hp <= 0\<close> (lines 845 to 862 for a melee hit,
  lines 882 to 899 for a projectile hit; the two blocks are the same text).
\<close>

definition enemyDeath :: "Env \<Rightarrow> Enemy \<Rightarrow> Game \<Rightarrow> Enemy \<times> Game" where
  "enemyDeath env e g =
     (let e1 = e\<lparr>e_alive := False\<rparr>;
          g1 = spawnCoins env (e_pos e1) (coinCount (e_type e1)) g
      in (e1, if e_type e1 = BOSS then g1\<lparr>bossDefeated := True, state := VICTORY\<rparr> else g1))"

definition knockDist :: "PlayerClass \<Rightarrow> int \<Rightarrow> real" where
  "knockDist pc step = (if pc = KNIGHT then (if step = 3 then 90 else 35) else 22)"

text \<open>The player's melee swing against one enemy (lines 814 to 864).\<close>

definition meleeHit :: "Env \<Rightarrow> Enemy \<Rightarrow> Game \<Rightarrow> Enemy \<times> Game" where
  "meleeHit env e g =
     (let p = player g; pc = playerClass g;
          meleeClassLocal = (pc = KNIGHT \<or> pc = ROGUE)
      in if meleeClassLocal \<and> p_attacking p \<and> p_currentAttackId p \<ge> 0
         then (if e_lastHitAttackId e \<noteq> p_currentAttackId p
                  \<and> RectOverlap env (p_attackHitbox p) (MakeRect (e_pos e) (e_size e))
               then (let e1 = e\<lparr>e_lastHitAttackId := p_currentAttackId p,
                                e_hp := e_hp e - comboDamage pc p\<rparr>;
                         g1 = g\<lparr>gHitStopTimer :=
                                  max (gHitStopTimer g)
                                    (if pc = KNIGHT \<and> p_comboStep p = 3 then 0.06 else 0.03)\<rparr>;
                         kdDir = (if v_x (e_pos e1) < v_x (p_pos p) then - 1.0 else 1.0);
                         e2 = e1\<lparr>e_pos := (e_pos e1)
                                   \<lparr>v_x := v_x (e_pos e1)
                                           + kdDir * knockDist pc (p_comboStep p)\<rparr>\<rparr>
                     in if e_hp e2 \<le> 0 then enemyDeath env e2 g1 else (e2, g1))
               else (e, g))
         else (e, g))"

text \<open>The body of the enemy loop (lines 721 to 865) and the loop.\<close>

definition enemyBody :: "Env \<Rightarrow> real \<Rightarrow> Enemy \<Rightarrow> Game \<Rightarrow> Enemy \<times> Game" where
  "enemyBody env gameDt e g =
     (if \<not> e_alive e then (e, g)
      else (let e1 = enemyMove gameDt (player g) e;
                e2 = enemyCooldown gameDt e1;
                e3 = enemyWindupStart env (player g) e2;
                (e4, g1) = enemyWindupResolve env gameDt e3 g;
                e5 = enemyAttackAnim gameDt e4;
                e6 = enemyAnimation env gameDt e5
            in meleeHit env e6 g1))"

fun enemyLoop :: "Env \<Rightarrow> real \<Rightarrow> Enemy list \<Rightarrow> Game \<Rightarrow> Enemy list \<times> Game" where
  "enemyLoop env gameDt [] g = ([], g)"
| "enemyLoop env gameDt (e # es) g =
     (let (e', g1) = enemyBody env gameDt e g;
          (es', g2) = enemyLoop env gameDt es g1
      in (e' # es', g2))"

definition enemyAI :: "Env \<Rightarrow> real \<Rightarrow> Game \<Rightarrow> Game" where
  "enemyAI env gameDt g =
     (let (es, g1) = enemyLoop env gameDt (enemies g) g in g1\<lparr>enemies := es\<rparr>)"

section \<open>The PLAYING update: projectile hits, coins, game over\<close>

text \<open>One projectile against one enemy (lines 872 to 901).\<close>

definition projectileHit :: "Env \<Rightarrow> Projectile \<Rightarrow> Enemy \<Rightarrow> Game \<Rightarrow> Enemy \<times> Game" where
  "projectileHit env pj e g =
     (if \<not> e_alive e then (e, g)
      else if CheckCollisionCircleRec env (pj_pos pj) (pj_radius pj)
                (MakeRect (e_pos e) (e_size e))
              \<and> e_lastProjectileHitId e \<noteq> pj_id pj
      then (let e1 = e\<lparr>e_lastProjectileHitId := pj_id pj, e_hp := e_hp e - pj_damage pj\<rparr>
            in if e_hp e1 \<le> 0 then enemyDeath env e1 g else (e1, g))
      else (e, g))"

fun projectileEnemies :: "Env \<Rightarrow> Projectile \<Rightarrow> Enemy list \<Rightarrow> Game \<Rightarrow> Enemy list \<times> Game" where
  "projectileEnemies env pj [] g = ([], g)"
| "projectileEnemies env pj (e # es) g =
     (let (e', g1) = projectileHit env pj e g;
          (es', g2) = projectileEnemies env pj es g1
      in (e' # es', g2))"

fun projectileLoop :: "Env \<Rightarrow> Projectile list \<Rightarrow> Enemy list \<Rightarrow> Game \<Rightarrow> Enemy list \<times> Game" where
  "projectileLoop env [] es g = (es, g)"
| "projectileLoop env (pj # pjs) es g =
     (if \<not> pj_active pj then projectileLoop env pjs es g
      else (let (es', g1) = projectileEnemies env pj es g in projectileLoop env pjs es' g1))"

definition mageProjectiles :: "Env \<Rightarrow> Game \<Rightarrow> Game" where
  "mageProjectiles env g =
     (if playerClass g = MAGE
      then (let (es, g1) = projectileLoop env (projectiles g) (enemies g) g
            in g1\<lparr>enemies := es\<rparr>)
      else g)"

fun coinsLoop :: "Env \<Rightarrow> Coin list \<Rightarrow> Player \<Rightarrow> Coin list \<times> Player" where
  "coinsLoop env [] p = ([], p)"
| "coinsLoop env (c # cs) p =
     (if c_collected c
      then (let (cs', p1) = coinsLoop env cs p in (c # cs', p1))
      else if RectOverlap env
                \<lparr>rec_x = v_x (c_pos c) - 6, rec_y = v_y (c_pos c) - 6,
                 rec_width = 12, rec_height = 12\<rparr>
                (MakeRect (p_pos p) (p_size p))
      then (let (cs', p1) = coinsLoop env cs (p\<lparr>p_coins := p_coins p + 1\<rparr>)
            in (c\<lparr>c_collected := True\<rparr> # cs', p1))
      else (let (cs', p1) = coinsLoop env cs p in (c # cs', p1)))"

definition coinsUpdate :: "Env \<Rightarrow> Game \<Rightarrow> Game" where
  "coinsUpdate env g =
     (let (cs, p) = coinsLoop env (coins g) (player g) in g\<lparr>coins := cs, player := p\<rparr>)"

definition hpCheck :: "Game \<Rightarrow> Game" where
  "hpCheck g = (if p_hp (player g) \<le> 0 then g\<lparr>state := GAMEOVER\<rparr> else g)"

definition cameraUpdate :: "Game \<Rightarrow> Game" where
  "cameraUpdate g =
     g\<lparr>cameraTarget := \<lparr>v_x = v_x (p_pos (player g)), v_y = (GROUND_TOP + GROUND_BOTTOM) * 0.5\<rparr>\<rparr>"

section \<open>One frame\<close>

text \<open>
  The PLAYING branch in the order of the source, in two parts: what comes before the
  enemy loop (\<open>beforeEnemies\<close>, lines 452 to 716), then the enemy loop and what
  follows it (lines 718 to 923).  \<open>onPlayer\<close> applies a step that only touches the
  player.
\<close>

definition shopAccess :: "Input \<Rightarrow> Game \<Rightarrow> Game" where
  "shopAccess inp g = (if IsKeyPressed inp KEY_TAB then g\<lparr>state := SHOP\<rparr> else g)"

definition onPlayer :: "(Player \<Rightarrow> Player) \<Rightarrow> Game \<Rightarrow> Game" where
  "onPlayer f g = g\<lparr>player := f (player g)\<rparr>"

definition beforeEnemies :: "Env \<Rightarrow> Input \<Rightarrow> real \<Rightarrow> Game \<Rightarrow> Game" where
  "beforeEnemies env inp gameDt g =
     (let move = moveVector inp (player g);
          g1 = onPlayer (playerMovement inp gameDt) g;
          g2 = shopAccess inp g1;
          g3 = onPlayer (abilityTimers gameDt) g2;
          g4 = onPlayer (abilities inp gameDt (playerClass g3)) g3;
          g5 = onPlayer (comboTick gameDt) g4;
          g6 = attackStart inp g5;
          g7 = onPlayer (attackTick gameDt) g6;
          g8 = onPlayer (playerAnimation env move gameDt) g7;
          g9 = enemySpawning env gameDt g8;
          g10 = bossSpawn g9
      in projectilesUpdate gameDt g10)"

definition playingUpdate :: "Env \<Rightarrow> Input \<Rightarrow> real \<Rightarrow> Game \<Rightarrow> Game" where
  "playingUpdate env inp gameDt g =
     (let g11 = beforeEnemies env inp gameDt g;
          g12 = enemyAI env gameDt g11;
          g13 = mageProjectiles env g12;
          g14 = coinsUpdate env g13;
          g15 = hpCheck g14
      in cameraUpdate g15)"

definition menuUpdate :: "Input \<Rightarrow> Game \<Rightarrow> Game option" where
  "menuUpdate inp g =
     (let i1 = (if IsKeyPressed inp KEY_RIGHT
                then (selectedClassIndex g + 1) smod int (length classes)
                else selectedClassIndex g);
          i2 = (if IsKeyPressed inp KEY_LEFT
                then (let j = i1 - 1 in if j < 0 then int (length classes) - 1 else j)
                else i1);
          g1 = g\<lparr>selectedClassIndex := i2\<rparr>
      in if IsKeyPressed inp KEY_ENTER
         then map_option (\<lambda>g2. g2\<lparr>state := PLAYING\<rparr>) (ResetGame g1)
         else Some g1)"

definition shopNav :: "Input \<Rightarrow> int \<Rightarrow> int" where
  "shopNav inp sel =
     (let s1 = (if IsKeyPressed inp KEY_DOWN
                then (let j = sel + 1 in if j > 2 then 0 else j) else sel)
      in if IsKeyPressed inp KEY_UP
         then (let j = s1 - 1 in if j < 0 then 2 else j) else s1)"

definition shopUpdate :: "Input \<Rightarrow> Game \<Rightarrow> Game option" where
  "shopUpdate inp g =
     (let g1 = g\<lparr>shopSelection := shopNav inp (shopSelection g)\<rparr>;
          leave = (\<lambda>g2. if IsKeyPressed inp KEY_TAB \<or> IsKeyPressed inp KEY_ESCAPE
                         then g2\<lparr>state := PLAYING\<rparr> else g2)
      in if IsKeyPressed inp KEY_ENTER
         then (case GetUpgradeCost (player g1) (shopSelection g1) of
                 None \<Rightarrow> None
               | Some cost \<Rightarrow>
                   Some (leave
                     (if p_coins (player g1) \<ge> cost
                      then g1\<lparr>player :=
                                ApplyUpgrade ((player g1)\<lparr>p_coins := p_coins (player g1) - cost\<rparr>)
                                  (shopSelection g1)\<rparr>
                      else g1)))
         else Some (leave g1))"

definition restartUpdate :: "Input \<Rightarrow> Game \<Rightarrow> Game option" where
  "restartUpdate inp g =
     (if IsKeyPressed inp KEY_ENTER
      then map_option (\<lambda>g2. g2\<lparr>state := PLAYING\<rparr>) (ResetGame g)
      else Some g)"

text \<open>
  The head of the loop body (lines 426 to 432): the frame time clamped to 0.05, the
  hit-stop countdown and the simulation delta \<^verbatim>\<open>gameDt\<close>.
\<close>

definition realDt :: "Input \<Rightarrow> real" where
  "realDt inp = (if GetFrameTime inp > 0.05 then 0.05 else GetFrameTime inp)"

definition hitStopTick :: "Input \<Rightarrow> Game \<Rightarrow> Game" where
  "hitStopTick inp g =
     (let t = gHitStopTimer g - realDt inp
      in g\<lparr>gHitStopTimer := (if t < 0 then 0 else t)\<rparr>)"

definition gameDtOf :: "Input \<Rightarrow> Game \<Rightarrow> real" where
  "gameDtOf inp g = (if gHitStopTimer (hitStopTick inp g) > 0 then 0 else realDt inp)"

text \<open>One iteration of the game loop, without the drawing.\<close>

definition frame :: "Env \<Rightarrow> Input \<Rightarrow> Game \<Rightarrow> Game option" where
  "frame env inp g0 =
     (let gameDt = gameDtOf inp g0;
          g = hitStopTick inp g0
      in case state g of
           MENU \<Rightarrow> menuUpdate inp g
         | PLAYING \<Rightarrow> Some (playingUpdate env inp gameDt g)
         | SHOP \<Rightarrow> shopUpdate inp g
         | GAMEOVER \<Rightarrow> restartUpdate inp g
         | VICTORY \<Rightarrow> restartUpdate inp g)"

text \<open>
  Consecutive iterations of the loop: the states after each frame, or \<open>None\<close> if a
  frame reads out of bounds.
\<close>

fun frames :: "Env \<Rightarrow> Input list \<Rightarrow> Game \<Rightarrow> Game list option" where
  "frames env [] g = Some []"
| "frames env (inp # inps) g =
     (case frame env inp g of
        None \<Rightarrow> None
      | Some g' \<Rightarrow> map_option (\<lambda>gs. g' # gs) (frames env inps g'))"

text \<open>The state of \<^verbatim>\<open>main\<close> when the loop starts: \<^verbatim>\<open>ResetGame()\<close> in phase MENU.\<close>

definition blankPlayer :: Player where
  "blankPlayer =
     \<lparr>p_name = [], p_pos = \<lparr>v_x = 0, v_y = 0\<rparr>, p_size = \<lparr>v_x = 0, v_y = 0\<rparr>,
      p_maxHP = 0, p_hp = 0, p_speed = 0, p_baseDamage = 0, p_facingRight = True,
      p_attacking = False, p_attackTimer = 0, p_attackDuration = 0.15, p_comboTimer = 0,
      p_comboStep = 0,
      p_attackHitbox = \<lparr>rec_x = 0, rec_y = 0, rec_width = 0, rec_height = 0\<rparr>,
      p_coins = 0, p_damageLevel = 0, p_healthLevel = 0, p_speedLevel = 0,
      p_blocking = False, p_blockTimer = 0, p_blockCooldown = 0, p_blockCooldownTimer = 0,
      p_dodging = False, p_dodgeTimer = 0, p_dodgeDuration = 0, p_dodgeCooldown = 0,
      p_dodgeCooldownTimer = 0, p_dodgeDir = 0, p_blinkCooldown = 0,
      p_blinkCooldownTimer = 0, p_invincible = False, p_invincibleTimer = 0,
      p_currentAttackId = - 1, p_sprite = None, p_animFrame = 0, p_animRow = 0,
      p_animMaxFrames = PLAYER_SPRITE_COLS, p_animTimer = 0, p_animFrameTime = 0.12\<rparr>"

definition blankGame :: Game where
  "blankGame =
     \<lparr>selectedClassIndex = 0, player = blankPlayer, playerClass = KNIGHT, state = MENU,
      cameraTarget = \<lparr>v_x = 0, v_y = 0\<rparr>, enemies = [], coins = [], projectiles = [],
      bossSpawned = False, bossDefeated = False, enemySpawnTimer = 0, shopSelection = 0,
      gHitStopTimer = 0, gAttackCounter = 0, gProjectileCounter = 0, randCalls = 0\<rparr>"

definition initialGame :: "Game option" where
  "initialGame = ResetGame blankGame"

section \<open>A concrete environment\<close>

text \<open>
  The theorems below hold for every environment.  Concrete runs need one: the two
  collision tests as raylib defines them (\<^verbatim>\<open>rshapes.c\<close>), a random source that
  answers within the requested range, and textures of width 64.
\<close>

definition rlCheckCollisionRecs :: "Rectangle \<Rightarrow> Rectangle \<Rightarrow> bool" where
  "rlCheckCollisionRecs a b =
     ((rec_x a < rec_x b + rec_width b \<and> rec_x a + rec_width a > rec_x b)
      \<and> (rec_y a < rec_y b + rec_height b \<and> rec_y a + rec_height a > rec_y b))"

definition rlCheckCollisionCircleRec :: "Vector2 \<Rightarrow> real \<Rightarrow> Rectangle \<Rightarrow> bool" where
  "rlCheckCollisionCircleRec center radius r =
     (let recCenterX = rec_x r + rec_width r / 2;
          recCenterY = rec_y r + rec_height r / 2;
          dx = \<bar>v_x center - recCenterX\<bar>;
          dy = \<bar>v_y center - recCenterY\<bar>
      in if dx > rec_width r / 2 + radius then False
         else if dy > rec_height r / 2 + radius then False
         else if dx \<le> rec_width r / 2 then True
         else if dy \<le> rec_height r / 2 then True
         else (dx - rec_width r / 2) * (dx - rec_width r / 2)
              + (dy - rec_height r / 2) * (dy - rec_height r / 2) \<le> radius * radius)"

definition rlEnv :: Env where
  "rlEnv =
     \<lparr>CheckCollisionRecs = rlCheckCollisionRecs,
      CheckCollisionCircleRec = rlCheckCollisionCircleRec,
      GetRandomValue = (\<lambda>n lo hi. lo + int n mod (hi - lo + 1)),
      texWidth = (\<lambda>t. 64)\<rparr>"

text \<open>A frame of 1/60 s with the given keys pressed (none held).\<close>

definition pressing :: "Key list \<Rightarrow> Input" where
  "pressing ks =
     \<lparr>GetFrameTime = 1 / 60, IsKeyPressed = (\<lambda>k. k \<in> set ks), IsKeyDown = (\<lambda>k. False)\<rparr>"

section \<open>Concrete states for the examples\<close>

text \<open>A visit to the shop: 12 coins, the max-HP track at level 1, the player wounded.\<close>

definition shopGame :: Game where
  "shopGame =
     (the initialGame)\<lparr>state := SHOP, shopSelection := 1,
        player := (player (the initialGame))
          \<lparr>p_coins := 12, p_healthLevel := 1, p_maxHP := 185, p_hp := 100\<rparr>\<rparr>"

text \<open>
  A KNIGHT in mid-block at the start position, and a TANK on top of them whose windup
  is about to run out.
\<close>

definition blockingKnight :: Game where
  "blockingKnight =
     (the initialGame)\<lparr>state := PLAYING,
        player := (player (the initialGame))\<lparr>p_blocking := True, p_blockTimer := 0.5\<rparr>\<rparr>"

definition tankStrike :: Enemy where
  "tankStrike = (MakeEnemy TANK 110 390)\<lparr>e_windingUp := True, e_windupTimer := 0.01\<rparr>"


text \<open>
  A KNIGHT with 6 hit points left in a fresh session, a GRUNT on top of them whose
  windup is about to run out; then the three frames in which the player swings and
  dies, restarts, and swings again.
\<close>

definition dyingKnight :: Game where
  "dyingKnight =
     (the initialGame)\<lparr>state := PLAYING, bossSpawned := True,
        player := (player (the initialGame))\<lparr>p_hp := 6\<rparr>,
        enemies := [(MakeEnemy GRUNT 110 390)\<lparr>e_windingUp := True, e_windupTimer := 0.01\<rparr>]\<rparr>"

definition lastSwing :: Game where
  "lastSwing = the (frame rlEnv (pressing [KEY_J]) dyingKnight)"

definition restarted :: Game where
  "restarted = the (frame rlEnv (pressing [KEY_ENTER]) lastSwing)"

definition firstSwing :: Game where
  "firstSwing = the (frame rlEnv (pressing [KEY_J]) restarted)"

text \<open>
  A KNIGHT next to a GRUNT that has 4 hit points left; a KNIGHT with 20 hit points
  and a wounded BOSS about to strike each other, and the same with the knight at full
  health; a KNIGHT about to land the finisher on a TANK near the right end of the
  level.
\<close>

definition lowGrunt :: Game where
  "lowGrunt =
     (the initialGame)\<lparr>state := PLAYING,
        enemies := [(MakeEnemy GRUNT 130 390)
                      \<lparr>e_hp := 4, e_windingUp := True, e_windupTimer := 0.3\<rparr>]\<rparr>"

definition bossDuel :: Game where
  "bossDuel =
     (the initialGame)\<lparr>state := PLAYING, bossSpawned := True,
        player := (player (the initialGame))\<lparr>p_hp := 20\<rparr>,
        enemies := [(MakeEnemy BOSS 130 390)
                      \<lparr>e_hp := 15, e_windingUp := True, e_windupTimer := 0.01\<rparr>]\<rparr>"

definition bossKill :: Game where
  "bossKill = bossDuel\<lparr>player := player (the initialGame)\<rparr>"

definition finisherAtEdge :: Game where
  "finisherAtEdge =
     (the initialGame)\<lparr>state := PLAYING, bossSpawned := True,
        player := (player (the initialGame))
          \<lparr>p_pos := \<lparr>v_x = 2950, v_y = 390\<rparr>, p_comboStep := 2\<rparr>,
        enemies := [(MakeEnemy TANK 2980 390)
                      \<lparr>e_windingUp := True, e_windupTimer := 0.4\<rparr>]\<rparr>"

text \<open>
  A KNIGHT at combo step 2 next to a fresh GRUNT, and three frames: the finisher is
  swung in the first and its hitbox stays on the grunt in the next two.
\<close>

definition swingGame :: Game where
  "swingGame =
     (the initialGame)\<lparr>state := PLAYING, bossSpawned := True,
        player := (player (the initialGame))\<lparr>p_comboStep := 2\<rparr>,
        enemies := [(MakeEnemy GRUNT 130 390)
                      \<lparr>e_windingUp := True, e_windupTimer := 0.3\<rparr>]\<rparr>"

definition swingInputs :: "Input list" where
  "swingInputs = [pressing [KEY_J], pressing [], pressing []]"

text \<open>
  A KNIGHT who has bought the damage upgrade 25 times (base damage 20 + 25 * 3 = 95),
  at combo step 1, next to a fresh TANK: the swing of the first frame is the second of
  the combo, with the multiplier \<^verbatim>\<open>1.3f\<close>.
\<close>

definition heavySwing :: Game where
  "heavySwing =
     (the initialGame)\<lparr>state := PLAYING, bossSpawned := True,
        player := (player (the initialGame))
          \<lparr>p_comboStep := 1, p_damageLevel := 25, p_baseDamage := 95\<rparr>,
        enemies := [(MakeEnemy TANK 130 390)
                      \<lparr>e_windingUp := True, e_windupTimer := 0.3\<rparr>]\<rparr>"

text \<open>
  A shop visit with the three tracks at different levels: damage at 2, max HP at 1,
  speed at 3, the damage track selected and 40 coins in hand.
\<close>

definition stockedShop :: Game where
  "stockedShop =
     (the initialGame)\<lparr>state := SHOP, shopSelection := 0,
        player := (player (the initialGame))
          \<lparr>p_coins := 40, p_damageLevel := 2, p_baseDamage := 26,
           p_healthLevel := 1, p_maxHP := 185, p_speedLevel := 3, p_speed := 240\<rparr>\<rparr>"

text \<open>The same visit with 14 coins, one short of the damage upgrade.\<close>

definition shortShop :: Game where
  "shortShop = stockedShop\<lparr>player := (player stockedShop)\<lparr>p_coins := 14\<rparr>\<rparr>"

text \<open>
  A MAGE 80 units left of the BOSS.  The first projectile (id 1, damage 8) has hit the
  boss, which carries its stamp and has 442 hit points left, and is still passing
  through it; the mage is ready to cast the second.
\<close>

definition mageStart :: Game where
  "mageStart = the (ResetGame (blankGame\<lparr>selectedClassIndex := 2\<rparr>))"

definition pierceGame :: Game where
  "pierceGame =
     mageStart\<lparr>state := PLAYING, bossSpawned := True, gProjectileCounter := 1,
        player := (player mageStart)
          \<lparr>p_pos := \<lparr>v_x = 2700, v_y = 390\<rparr>, p_comboStep := 1, p_comboTimer := 7 / 30\<rparr>,
        projectiles :=
          [\<lparr>pj_pos = \<lparr>v_x = 2828, v_y = 365\<rparr>, pj_vel = \<lparr>v_x = 420, v_y = 0\<rparr>,
            pj_radius = 18, pj_life = 29 / 30, pj_active = True, pj_damage = 8, pj_id = 1\<rparr>],
        enemies :=
          [(MakeEnemy BOSS 2780 390)
             \<lparr>e_hp := 442, e_lastProjectileHitId := 1, e_attackingAnim := True,
              e_attackAnimTimer := 0.1, e_attackCooldown := 0.98\<rparr>]\<rparr>"

definition pierceCast :: Game where
  "pierceCast = the (frame rlEnv (pressing [KEY_J]) pierceGame)"

definition pierceNext :: Game where
  "pierceNext = the (frame rlEnv (pressing []) pierceCast)"

section \<open>Auxiliary notions for the proofs\<close>

text \<open>
  What the enemy loop and the projectile loop may change in the game: the enemies,
  the player's hit points, the hit-stop timer, the coins, the phase,
  \<^verbatim>\<open>bossDefeated\<close> and the position in the random stream.  \<open>loopFrame g g'\<close> says
  that \<open>g'\<close> agrees with \<open>g\<close> everywhere else.
\<close>

definition loopFrame :: "Game \<Rightarrow> Game \<Rightarrow> bool" where
  "loopFrame g g' \<longleftrightarrow>
     g'\<lparr>player := (player g')\<lparr>p_hp := p_hp (player g)\<rparr>, gHitStopTimer := gHitStopTimer g,
        coins := coins g, state := state g, bossDefeated := bossDefeated g,
        randCalls := randCalls g, enemies := enemies g\<rparr> = g"

text \<open>
  The two indices are within their tables, as they are when the loop starts and after
  every frame; then no frame reads out of bounds.
\<close>

definition indicesOk :: "Game \<Rightarrow> bool" where
  "indicesOk g \<longleftrightarrow>
     0 \<le> selectedClassIndex g \<and> selectedClassIndex g < 3
     \<and> 0 \<le> shopSelection g \<and> shopSelection g \<le> 2"

text \<open>The player's hit points are between 0 and the maximum.\<close>

definition hpInRange :: "Game \<Rightarrow> bool" where
  "hpInRange g \<longleftrightarrow> 0 \<le> p_hp (player g) \<and> p_hp (player g) \<le> p_maxHP (player g)"

text \<open>A spawned enemy: alive, with positive hit points, in the lane if the random source
  keeps to its range.\<close>

definition freshEnemy :: "Env \<Rightarrow> Enemy \<Rightarrow> bool" where
  "freshEnemy env e \<longleftrightarrow>
     e_alive e \<and> 0 < e_hp e
     \<and> ((\<forall>n. 0 \<le> GetRandomValue env n 0 100)
          \<longrightarrow> GROUND_TOP \<le> v_y (e_pos e) \<and> v_y (e_pos e) \<le> GROUND_BOTTOM)"

text \<open>
  How one enemy may change in a frame as far as dying goes: a dead enemy stays as it
  is, and an enemy that is alive afterwards has positive hit points (given that it
  had them while alive before).
\<close>

definition deathRule :: "Enemy \<Rightarrow> Enemy \<Rightarrow> bool" where
  "deathRule e e' \<longleftrightarrow>
     (\<not> e_alive e \<longrightarrow> e' = e)
     \<and> ((e_alive e \<longrightarrow> 0 < e_hp e) \<longrightarrow> (e_alive e' \<longrightarrow> 0 < e_hp e'))"

text \<open>The lane: a position within it, and an enemy whose \<open>y\<close> is within it.\<close>

definition inLane :: "Vector2 \<Rightarrow> bool" where
  "inLane pos \<longleftrightarrow>
     0 \<le> v_x pos \<and> v_x pos \<le> LEVEL_LENGTH \<and> GROUND_TOP \<le> v_y pos \<and> v_y pos \<le> GROUND_BOTTOM"

definition inLaneY :: "Enemy \<Rightarrow> bool" where
  "inLaneY e \<longleftrightarrow> GROUND_TOP \<le> v_y (e_pos e) \<and> v_y (e_pos e) \<le> GROUND_BOTTOM"

definition keepsLaneY :: "Enemy \<Rightarrow> Enemy \<Rightarrow> bool" where
  "keepsLaneY e e' \<longleftrightarrow> (inLaneY e \<longrightarrow> inLaneY e')"

text \<open>
  Bookkeeping for the rewards of a frame.  \<open>died e e'\<close>: the enemy was alive and is
  dead now.  \<open>drops es es'\<close>: the coins due for the enemies of \<open>es\<close> that died on the
  way to \<open>es'\<close>.  \<open>bossFell es es'\<close>: a BOSS is among them.  \<open>tally\<close> and \<open>tallies\<close>
  say that the coins and the phase of the game changed accordingly, for one enemy and
  for a list, and that no enemy changed its type or came back to life.
\<close>

definition died :: "Enemy \<Rightarrow> Enemy \<Rightarrow> bool" where
  "died e e' \<longleftrightarrow> e_alive e \<and> \<not> e_alive e'"

fun drops :: "Enemy list \<Rightarrow> Enemy list \<Rightarrow> nat" where
  "drops (e # es) (e' # es') = (if died e e' then coinCount (e_type e) else 0) + drops es es'"
| "drops es es' = 0"

fun bossFell :: "Enemy list \<Rightarrow> Enemy list \<Rightarrow> bool" where
  "bossFell (e # es) (e' # es') = (died e e' \<and> e_type e = BOSS \<or> bossFell es es')"
| "bossFell es es' = False"

definition sameKind :: "Enemy \<Rightarrow> Enemy \<Rightarrow> bool" where
  "sameKind e e' \<longleftrightarrow> e_type e' = e_type e \<and> (e_alive e' \<longrightarrow> e_alive e)"

definition tally :: "Enemy \<Rightarrow> Enemy \<Rightarrow> Game \<Rightarrow> Game \<Rightarrow> bool" where
  "tally e e' g g' \<longleftrightarrow>
     sameKind e e'
     \<and> length (coins g') = length (coins g) + (if died e e' then coinCount (e_type e) else 0)
     \<and> (if died e e' \<and> e_type e = BOSS then state g' = VICTORY \<and> bossDefeated g'
         else state g' = state g \<and> bossDefeated g' = bossDefeated g)"

definition tallies :: "Enemy list \<Rightarrow> Enemy list \<Rightarrow> Game \<Rightarrow> Game \<Rightarrow> bool" where
  "tallies es es' g g' \<longleftrightarrow>
     list_all2 sameKind es es'
     \<and> length (coins g') = length (coins g) + drops es es'
     \<and> (if bossFell es es' then state g' = VICTORY \<and> bossDefeated g'
         else state g' = state g \<and> bossDefeated g' = bossDefeated g)"

text \<open>Enemy number \<open>i\<close> died in the frame from \<open>g\<close> to \<open>g'\<close> (an enemy the frame spawned
  counts as alive before).\<close>

definition diedInFrame :: "Game \<Rightarrow> Game \<Rightarrow> nat \<Rightarrow> bool" where
  "diedInFrame g g' i \<longleftrightarrow>
     i < length (enemies g') \<and> \<not> e_alive (enemies g' ! i)
     \<and> (i < length (enemies g) \<longrightarrow> e_alive (enemies g ! i))"

text \<open>
  How a melee attack with id \<open>k\<close> and damage \<open>dmg\<close> may change one enemy: not at
  all as far as hit points and stamp go, or, if the enemy did not carry the stamp
  \<open>k\<close>, by one application of the damage and the stamp \<open>k\<close>.
\<close>

definition meleeRule :: "int \<Rightarrow> int \<Rightarrow> Enemy \<Rightarrow> Enemy \<Rightarrow> bool" where
  "meleeRule k dmg e e' \<longleftrightarrow>
     (e_hp e' = e_hp e \<and> e_lastHitAttackId e' = e_lastHitAttackId e)
     \<or> (e_lastHitAttackId e \<noteq> k \<and> e_lastHitAttackId e' = k \<and> e_hp e' = e_hp e - dmg)"

text \<open>
  Whether the swing lands on an enemy in a PLAYING frame of simulation delta
  \<open>gameDt\<close>, the player being \<open>p\<close>: the enemy is alive (line 722), the swing is on with
  an id that is not negative (line 816), the enemy's stamp differs from the id and the
  hitbox overlaps the enemy's rectangle (line 818), which is taken where the movement
  step of this frame (lines 726 to 743) has put the enemy.
\<close>

definition swingLands :: "Env \<Rightarrow> real \<Rightarrow> Player \<Rightarrow> Enemy \<Rightarrow> bool" where
  "swingLands env gameDt p e \<longleftrightarrow>
     e_alive e \<and> p_attacking p \<and> 0 \<le> p_currentAttackId p
     \<and> e_lastHitAttackId e \<noteq> p_currentAttackId p
     \<and> RectOverlap env (p_attackHitbox p)
           (MakeRect (e_pos (enemyMove gameDt p e)) (e_size e))"

text \<open>
  What a PLAYING frame of a melee class does to the hit points and the stamp of one
  enemy, the player being \<open>p\<close>: if the swing lands, one application of the damage and
  the stamp of the swing; if not, nothing.
\<close>

definition swingRule :: "Env \<Rightarrow> real \<Rightarrow> PlayerClass \<Rightarrow> Player \<Rightarrow> Enemy \<Rightarrow> Enemy \<Rightarrow> bool" where
  "swingRule env gameDt pc p e e' \<longleftrightarrow>
     (if swingLands env gameDt p e
      then e_hp e' = e_hp e - comboDamage pc p \<and> e_lastHitAttackId e' = p_currentAttackId p
      else e_hp e' = e_hp e \<and> e_lastHitAttackId e' = e_lastHitAttackId e)"

text \<open>
  Sessions and the attack ids issued in them.  A frame \<open>resets\<close> when it calls
  \<^verbatim>\<open>ResetGame\<close> (ENTER in MENU, GAMEOVER or VICTORY); it \<open>issues\<close> a melee attack id
  on the attack-input edge of a melee class (line 573 with line 583).  \<open>issued\<close> lists
  the ids issued along a run of frames up to its first reset.
\<close>

definition resets :: "Input \<Rightarrow> Game \<Rightarrow> bool" where
  "resets inp g \<longleftrightarrow>
     (state g = MENU \<or> state g = GAMEOVER \<or> state g = VICTORY) \<and> IsKeyPressed inp KEY_ENTER"

definition issues :: "Input \<Rightarrow> Game \<Rightarrow> bool" where
  "issues inp g \<longleftrightarrow>
     state g = PLAYING \<and> \<not> p_attacking (player g) \<and> IsKeyPressed inp KEY_J
     \<and> playerClass g \<noteq> MAGE"

fun issued :: "Env \<Rightarrow> Input list \<Rightarrow> Game \<Rightarrow> int list" where
  "issued env [] g = []"
| "issued env (inp # inps) g =
     (if resets inp g then []
      else (case frame env inp g of
              None \<Rightarrow> []
            | Some g' \<Rightarrow>
                (if issues inp g then [p_currentAttackId (player g')] else [])
                @ issued env inps g'))"

section \<open>Unfolding sets\<close>

lemmas reset_defs = initialGame_def ResetGame_def blankGame_def blankPlayer_def classAt_def
  classes_def

lemmas shop_defs = shopUpdate_def shopNav_def GetUpgradeCost_def baseCost_def shopOptions_def
  upgradeLevel_def ApplyUpgrade_def

lemmas head_defs = frame_def gameDtOf_def hitStopTick_def realDt_def pressing_def
  menuUpdate_def restartUpdate_def

lemmas player_defs = playerMovement_def moveVector_def inputMove_def abilityTimers_def
  cooldownTick_def abilities_def knightBlock_def rogueDodge_def mageBlink_def comboTick_def
  attackTick_def playerAnimation_def spriteReady_def onPlayer_def shopAccess_def
  attackStart_def meleeParams_def comboDamage_def GetComboMultiplier_def std_round_def
  f32_def ulp_def exponent_def rne_def ilog2.simps MakeRect_def

lemmas world_defs = playingUpdate_def beforeEnemies_def enemySpawning_def bossSpawn_def projectilesUpdate_def
  projectileMove_def enemyAI_def mageProjectiles_def coinsUpdate_def hpCheck_def
  cameraUpdate_def enemyBody_def enemyMove_def enemyCooldown_def enemyWindupStart_def
  enemyWindupResolve_def enemyAttackAnim_def enemyAnimation_def meleeHit_def enemyDeath_def
  coinCount_def knockDist_def projectileHit_def damagePlayer_def finalDamage_def
  enemyDamage_def baseWindup_def RectOverlap_def rlEnv_def rlCheckCollisionRecs_def
  rlCheckCollisionCircleRec_def MakeEnemy_def

lemmas eval_defs = head_defs reset_defs shop_defs player_defs world_defs Let_def
section \<open>The shop\<close>

lemma baseCost_tracks: "i = 0 \<or> i = 1 \<or> i = 2 \<Longrightarrow> baseCost i = Some 5"
  by (auto simp: baseCost_def shopOptions_def)

lemma shopNav_range:
  "0 \<le> sel \<Longrightarrow> sel \<le> 2 \<Longrightarrow> 0 \<le> shopNav inp sel \<and> shopNav inp sel \<le> 2"
  by (auto simp: shopNav_def Let_def)

text \<open>
  C9.  Every track has the base cost 5.  The cost of track \<open>i\<close> is the base cost times
  one plus the level of that track, which is the damage level for track 0, the health
  level for track 1 and the speed level for track 2, whatever the level; so it grows
  strictly with the level.  In a SHOP frame with ENTER pressed on track \<open>i\<close> the
  purchase goes through exactly when the player's coins cover the cost; it then takes
  the cost off the coins, raises the track's level by one and adds 3 to the base
  damage, or 15 to the maximum HP with the HP set to the new maximum, or 20 to the
  speed, and the next purchase on the track costs 5 more.  Otherwise the player is
  unchanged.
\<close>

theorem upgrade_cost_and_purchase:
  assumes track: "i = 0 \<or> i = 1 \<or> i = 2"
  shows "baseCost i = Some 5
    \<and> upgradeLevel p i
        = (if i = 0 then p_damageLevel p else if i = 1 then p_healthLevel p
           else p_speedLevel p)
    \<and> GetUpgradeCost p i
        = Some (5 * (1 + (if i = 0 then p_damageLevel p else if i = 1 then p_healthLevel p
                          else p_speedLevel p)))
    \<and> GetUpgradeCost p 0 = Some (5 * (1 + p_damageLevel p))
    \<and> GetUpgradeCost p 1 = Some (5 * (1 + p_healthLevel p))
    \<and> GetUpgradeCost p 2 = Some (5 * (1 + p_speedLevel p))
    \<and> (\<forall>q. (if i = 0 then p_damageLevel p < p_damageLevel q
              else if i = 1 then p_healthLevel p < p_healthLevel q
              else p_speedLevel p < p_speedLevel q) \<longrightarrow>
          (\<exists>c d. GetUpgradeCost p i = Some c \<and> GetUpgradeCost q i = Some d \<and> c < d))
    \<and> (state g = SHOP \<and> IsKeyPressed inp KEY_ENTER \<and> shopNav inp (shopSelection g) = i \<longrightarrow>
          (\<exists>g' cost. frame env inp g = Some g' \<and> GetUpgradeCost (player g) i = Some cost
             \<and> player g' =
                 (if cost \<le> p_coins (player g)
                  then (if i = 0
                        then (player g)\<lparr>p_coins := p_coins (player g) - cost,
                               p_damageLevel := p_damageLevel (player g) + 1,
                               p_baseDamage := p_baseDamage (player g) + 3\<rparr>
                        else if i = 1
                        then (player g)\<lparr>p_coins := p_coins (player g) - cost,
                               p_healthLevel := p_healthLevel (player g) + 1,
                               p_maxHP := p_maxHP (player g) + 15,
                               p_hp := p_maxHP (player g) + 15\<rparr>
                        else (player g)\<lparr>p_coins := p_coins (player g) - cost,
                               p_speedLevel := p_speedLevel (player g) + 1,
                               p_speed := p_speed (player g) + 20\<rparr>)
                  else player g)
             \<and> GetUpgradeCost (player g') i
                 = Some (if cost \<le> p_coins (player g) then cost + 5 else cost)))"
    (is "?base \<and> ?level \<and> ?formula \<and> ?t0 \<and> ?t1 \<and> ?t2 \<and> ?monotone \<and> ?purchase")
proof -
  from track have b: "baseCost i = Some 5" by (rule baseCost_tracks)
  have b0: "baseCost 0 = Some 5" "baseCost 1 = Some 5" "baseCost 2 = Some 5"
    by (simp_all add: baseCost_tracks)
  have l: ?level
    using track by (auto simp: upgradeLevel_def)
  have f: ?formula
    using track b by (auto simp: GetUpgradeCost_def upgradeLevel_def)
  have t0: ?t0 and t1: ?t1 and t2: ?t2
    by (simp_all add: GetUpgradeCost_def upgradeLevel_def b0)
  have m: ?monotone
    using track b by (auto simp: GetUpgradeCost_def upgradeLevel_def)
  have p: ?purchase
  proof
    assume h: "state g = SHOP \<and> IsKeyPressed inp KEY_ENTER \<and> shopNav inp (shopSelection g) = i"
    have c: "GetUpgradeCost q i = Some (5 * (1 + upgradeLevel q i))" for q
      using b by (simp add: GetUpgradeCost_def)
    from h track show "\<exists>g' cost. frame env inp g = Some g'
        \<and> GetUpgradeCost (player g) i = Some cost
        \<and> player g' =
                 (if cost \<le> p_coins (player g)
                  then (if i = 0
                        then (player g)\<lparr>p_coins := p_coins (player g) - cost,
                               p_damageLevel := p_damageLevel (player g) + 1,
                               p_baseDamage := p_baseDamage (player g) + 3\<rparr>
                        else if i = 1
                        then (player g)\<lparr>p_coins := p_coins (player g) - cost,
                               p_healthLevel := p_healthLevel (player g) + 1,
                               p_maxHP := p_maxHP (player g) + 15,
                               p_hp := p_maxHP (player g) + 15\<rparr>
                        else (player g)\<lparr>p_coins := p_coins (player g) - cost,
                               p_speedLevel := p_speedLevel (player g) + 1,
                               p_speed := p_speed (player g) + 20\<rparr>)
                  else player g)
        \<and> GetUpgradeCost (player g') i
                 = Some (if cost \<le> p_coins (player g) then cost + 5 else cost)"
      by (auto simp: frame_def hitStopTick_def shopUpdate_def Let_def ApplyUpgrade_def c
          upgradeLevel_def)
  qed
  show ?thesis
    by (rule conjI [OF b conjI [OF l conjI [OF f conjI [OF t0 conjI [OF t1 conjI [OF t2
        conjI [OF m p]]]]]]])
qed

theorem upgrade_cost_and_purchase_witness:
  "((0::int) = 0 \<or> (0::int) = 1 \<or> (0::int) = 2)
   \<and> p_damageLevel (player stockedShop) = 2 \<and> p_healthLevel (player stockedShop) = 1
   \<and> p_speedLevel (player stockedShop) = 3 \<and> p_coins (player stockedShop) = 40
   \<and> GetUpgradeCost (player stockedShop) 0 = Some 15
   \<and> GetUpgradeCost (player stockedShop) 1 = Some 10
   \<and> GetUpgradeCost (player stockedShop) 2 = Some 20
   \<and> state stockedShop = SHOP
   \<and> shopNav (pressing [KEY_ENTER]) (shopSelection stockedShop) = 0
   \<and> p_coins (player (the (frame rlEnv (pressing [KEY_ENTER]) stockedShop))) = 25
   \<and> p_damageLevel (player (the (frame rlEnv (pressing [KEY_ENTER]) stockedShop))) = 3
   \<and> p_baseDamage (player (the (frame rlEnv (pressing [KEY_ENTER]) stockedShop))) = 29
   \<and> GetUpgradeCost (player (the (frame rlEnv (pressing [KEY_ENTER]) stockedShop))) 0 = Some 20
   \<and> GetUpgradeCost (player (the (frame rlEnv (pressing [KEY_ENTER]) stockedShop))) 1 = Some 10
   \<and> GetUpgradeCost (player (the (frame rlEnv (pressing [KEY_ENTER]) stockedShop))) 2 = Some 20
   \<and> shopNav (pressing [KEY_UP, KEY_ENTER]) (shopSelection stockedShop) = 2
   \<and> p_coins (player (the (frame rlEnv (pressing [KEY_UP, KEY_ENTER]) stockedShop))) = 20
   \<and> p_speedLevel (player (the (frame rlEnv (pressing [KEY_UP, KEY_ENTER]) stockedShop))) = 4
   \<and> p_speed (player (the (frame rlEnv (pressing [KEY_UP, KEY_ENTER]) stockedShop))) = 260
   \<and> shopNav (pressing [KEY_ENTER]) (shopSelection shopGame) = 1
   \<and> GetUpgradeCost (player shopGame) 1 = Some 10
   \<and> p_coins (player (the (frame rlEnv (pressing [KEY_ENTER]) shopGame))) = 2
   \<and> p_hp (player (the (frame rlEnv (pressing [KEY_ENTER]) shopGame))) = 200
   \<and> GetUpgradeCost (player (the (frame rlEnv (pressing [KEY_ENTER]) shopGame))) 1 = Some 15
   \<and> p_coins (player shortShop) = 14
   \<and> player (the (frame rlEnv (pressing [KEY_ENTER]) shortShop)) = player shortShop"
proof -
  have h0: "(0::int) = 0 \<or> (0::int) = 1 \<or> (0::int) = 2" by simp
  have h1: "(1::int) = 0 \<or> (1::int) = 1 \<or> (1::int) = 2" by simp
  have h2: "(2::int) = 0 \<or> (2::int) = 1 \<or> (2::int) = 2" by simp
  have s0: "state stockedShop = SHOP \<and> IsKeyPressed (pressing [KEY_ENTER]) KEY_ENTER
     \<and> shopNav (pressing [KEY_ENTER]) (shopSelection stockedShop) = 0"
    by (simp add: stockedShop_def reset_defs pressing_def shopNav_def)
  have s2: "state stockedShop = SHOP \<and> IsKeyPressed (pressing [KEY_UP, KEY_ENTER]) KEY_ENTER
     \<and> shopNav (pressing [KEY_UP, KEY_ENTER]) (shopSelection stockedShop) = 2"
    by (simp add: stockedShop_def reset_defs pressing_def shopNav_def)
  have s1: "state shopGame = SHOP \<and> IsKeyPressed (pressing [KEY_ENTER]) KEY_ENTER
     \<and> shopNav (pressing [KEY_ENTER]) (shopSelection shopGame) = 1"
    by (simp add: shopGame_def reset_defs pressing_def shopNav_def)
  have s3: "state shortShop = SHOP \<and> IsKeyPressed (pressing [KEY_ENTER]) KEY_ENTER
     \<and> shopNav (pressing [KEY_ENTER]) (shopSelection shortShop) = 0"
    by (simp add: shortShop_def stockedShop_def reset_defs pressing_def shopNav_def)
  have v: "p_damageLevel (player stockedShop) = 2 \<and> p_healthLevel (player stockedShop) = 1
     \<and> p_speedLevel (player stockedShop) = 3 \<and> p_coins (player stockedShop) = 40
     \<and> p_baseDamage (player stockedShop) = 26 \<and> p_speed (player stockedShop) = 240
     \<and> p_healthLevel (player shopGame) = 1 \<and> p_coins (player shopGame) = 12
     \<and> p_maxHP (player shopGame) = 185
     \<and> p_coins (player shortShop) = 14 \<and> p_damageLevel (player shortShop) = 2"
    by (simp add: shortShop_def stockedShop_def shopGame_def reset_defs)
  show ?thesis
    using h0 s0 s1 s2 s3 v
      upgrade_cost_and_purchase [OF h0, of "player stockedShop" stockedShop
        "pressing [KEY_ENTER]" rlEnv]
      upgrade_cost_and_purchase [OF h2, of "player stockedShop" stockedShop
        "pressing [KEY_UP, KEY_ENTER]" rlEnv]
      upgrade_cost_and_purchase [OF h1, of "player shopGame" shopGame
        "pressing [KEY_ENTER]" rlEnv]
      upgrade_cost_and_purchase [OF h0, of "player shortShop" shortShop
        "pressing [KEY_ENTER]" rlEnv]
    by (auto simp: GetUpgradeCost_def upgradeLevel_def baseCost_def shopOptions_def)
qed

text \<open>
  C10.  A frame in phase SHOP (the selection being one of the three tracks, as the
  navigation keeps it) leaves the world as it is: enemies, projectiles, coins, spawn
  timer, counters, camera and every field of the player outside the purchase are
  unchanged.  What may change is the selection, the phase (PLAYING on TAB or ESCAPE),
  the hit-stop timer, which counts down by the clamped frame time, and, on a purchase
  the coins cover, the coin balance, the level of the selected track and the stat of
  that track (for the max-HP track the maximum and the HP).
\<close>

theorem shop_frame_effect:
  assumes shop: "state g = SHOP"
    and sel: "0 \<le> shopSelection g" "shopSelection g \<le> 2"
  shows "\<exists>g'. frame env inp g = Some g'
     \<and> g'\<lparr>shopSelection := shopSelection g, state := SHOP,
           gHitStopTimer := gHitStopTimer g, player := player g\<rparr> = g
     \<and> shopSelection g' = shopNav inp (shopSelection g)
     \<and> state g' = (if IsKeyPressed inp KEY_TAB \<or> IsKeyPressed inp KEY_ESCAPE
                    then PLAYING else SHOP)
     \<and> gHitStopTimer g' = max 0 (gHitStopTimer g - realDt inp)
     \<and> (player g')\<lparr>p_coins := p_coins (player g),
           p_damageLevel := p_damageLevel (player g), p_healthLevel := p_healthLevel (player g),
           p_speedLevel := p_speedLevel (player g), p_baseDamage := p_baseDamage (player g),
           p_maxHP := p_maxHP (player g), p_hp := p_hp (player g),
           p_speed := p_speed (player g)\<rparr> = player g
     \<and> (player g' = player g
        \<or> (IsKeyPressed inp KEY_ENTER
           \<and> (\<exists>cost. GetUpgradeCost (player g) (shopSelection g') = Some cost
                 \<and> cost \<le> p_coins (player g)
                 \<and> (shopSelection g' = 0
                      \<and> player g' = (player g)\<lparr>p_coins := p_coins (player g) - cost,
                            p_damageLevel := p_damageLevel (player g) + 1,
                            p_baseDamage := p_baseDamage (player g) + 3\<rparr>
                    \<or> shopSelection g' = 1
                      \<and> player g' = (player g)\<lparr>p_coins := p_coins (player g) - cost,
                            p_healthLevel := p_healthLevel (player g) + 1,
                            p_maxHP := p_maxHP (player g) + 15,
                            p_hp := p_maxHP (player g) + 15\<rparr>
                    \<or> shopSelection g' = 2
                      \<and> player g' = (player g)\<lparr>p_coins := p_coins (player g) - cost,
                            p_speedLevel := p_speedLevel (player g) + 1,
                            p_speed := p_speed (player g) + 20\<rparr>))))"
proof -
  let ?s = "shopNav inp (shopSelection g)"
  from sel have r: "0 \<le> ?s \<and> ?s \<le> 2" by (rule shopNav_range)
  then have t: "?s = 0 \<or> ?s = 1 \<or> ?s = 2" by arith
  then have b: "baseCost ?s = Some 5" by (rule baseCost_tracks)
  have c: "GetUpgradeCost (player g) ?s = Some (5 * (1 + upgradeLevel (player g) ?s))"
    using b by (simp add: GetUpgradeCost_def)
  show ?thesis
  proof (cases "IsKeyPressed inp KEY_ENTER \<and> 5 * (1 + upgradeLevel (player g) ?s) \<le> p_coins (player g)")
    case True
    with shop c t show ?thesis
      by (auto simp: frame_def hitStopTick_def shopUpdate_def Let_def ApplyUpgrade_def max_def)
  next
    case False
    with shop c show ?thesis
      by (auto simp: frame_def hitStopTick_def shopUpdate_def Let_def max_def)
  qed
qed

theorem shop_frame_effect_witness:
  "state shopGame = SHOP \<and> 0 \<le> shopSelection shopGame \<and> shopSelection shopGame \<le> 2
   \<and> frame rlEnv (pressing [KEY_ENTER, KEY_TAB]) shopGame =
       Some (shopGame\<lparr>state := PLAYING,
          player := (player shopGame)\<lparr>p_coins := 2, p_healthLevel := 2, p_maxHP := 200,
             p_hp := 200\<rparr>\<rparr>)"
proof -
  have h: "state shopGame = SHOP" "0 \<le> shopSelection shopGame" "shopSelection shopGame \<le> 2"
    by (simp_all add: shopGame_def)
  from shop_frame_effect [OF h, of rlEnv "pressing [KEY_ENTER, KEY_TAB]"]
  obtain g' where "frame rlEnv (pressing [KEY_ENTER, KEY_TAB]) shopGame = Some g'" by blast
  moreover have "frame rlEnv (pressing [KEY_ENTER, KEY_TAB]) shopGame =
       Some (shopGame\<lparr>state := PLAYING,
          player := (player shopGame)\<lparr>p_coins := 2, p_healthLevel := 2, p_maxHP := 200,
             p_hp := 200\<rparr>\<rparr>)"
    by (simp add: shopGame_def reset_defs head_defs shop_defs Let_def)
  ultimately show ?thesis using h by simp
qed


section \<open>What the loops leave alone\<close>

lemma loopFrame_refl: "loopFrame g g"
  by (simp add: loopFrame_def)

lemma loopFrame_trans: "loopFrame g g1 \<Longrightarrow> loopFrame g1 g2 \<Longrightarrow> loopFrame g g2"
  unfolding loopFrame_def
  by (cases g, cases g1, cases g2, cases "player g", cases "player g1", cases "player g2") simp

lemma loopFrame_upd:
  "loopFrame g (g\<lparr>player := (player g)\<lparr>p_hp := h\<rparr>, gHitStopTimer := t\<rparr>)"
  "loopFrame g (g\<lparr>coins := c, randCalls := r\<rparr>)"
  "loopFrame g (g\<lparr>bossDefeated := b, state := s\<rparr>)"
  "loopFrame g (g\<lparr>gHitStopTimer := t\<rparr>)"
  "loopFrame g (g\<lparr>enemies := es\<rparr>)"
  by (simp_all add: loopFrame_def)

lemma loopFrame_fields:
  assumes "loopFrame g g'"
  shows "playerClass g' = playerClass g"
    "projectiles g' = projectiles g" "gAttackCounter g' = gAttackCounter g"
    "gProjectileCounter g' = gProjectileCounter g" "enemySpawnTimer g' = enemySpawnTimer g"
    "bossSpawned g' = bossSpawned g" "shopSelection g' = shopSelection g"
    "selectedClassIndex g' = selectedClassIndex g" "cameraTarget g' = cameraTarget g"
    "(player g')\<lparr>p_hp := h\<rparr> = (player g)\<lparr>p_hp := h\<rparr>"
  using assms unfolding loopFrame_def
  by (cases g, cases g', cases "player g", cases "player g'", simp)+

lemma loopFrame_player:
  assumes "loopFrame g g'"
  shows "p_currentAttackId (player g') = p_currentAttackId (player g)"
    "p_baseDamage (player g') = p_baseDamage (player g)"
    "p_comboStep (player g') = p_comboStep (player g)"
    "p_attacking (player g') = p_attacking (player g)"
    "p_attackHitbox (player g') = p_attackHitbox (player g)"
    "p_pos (player g') = p_pos (player g)" "p_size (player g') = p_size (player g)"
    "p_maxHP (player g') = p_maxHP (player g)"
    "p_invincible (player g') = p_invincible (player g)"
    "p_blocking (player g') = p_blocking (player g)"
    "p_coins (player g') = p_coins (player g)"
  using loopFrame_fields(10) [OF assms, of 0]
  by (cases "player g", cases "player g'", simp)+

lemma spawnCoins_frame: "loopFrame g (spawnCoins env pos n g)"
proof (induction n arbitrary: g)
  case 0
  show ?case by (simp add: loopFrame_refl)
next
  case (Suc n)
  show ?case
    by (simp del: append.simps) (rule loopFrame_trans [OF loopFrame_upd(2) Suc.IH])
qed

lemma spawnCoins_length: "length (coins (spawnCoins env pos n g)) = length (coins g) + n"
  by (induction n arbitrary: g) simp_all

lemma enemyDeath_frame: "loopFrame g (snd (enemyDeath env e g))"
  unfolding enemyDeath_def Let_def
  by (auto intro: spawnCoins_frame loopFrame_trans [OF spawnCoins_frame loopFrame_upd(3)])

lemma damagePlayer_frame: "loopFrame g (damagePlayer d g)"
  by (simp add: damagePlayer_def Let_def loopFrame_upd loopFrame_refl)

lemma enemyWindupResolve_frame: "loopFrame g (snd (enemyWindupResolve env dt e g))"
  by (simp add: enemyWindupResolve_def Let_def damagePlayer_frame loopFrame_refl)

lemma meleeHit_frame: "loopFrame g (snd (meleeHit env e g))"
  unfolding meleeHit_def Let_def
  by (auto intro: loopFrame_refl loopFrame_upd(4)
      loopFrame_trans [OF loopFrame_upd(4) enemyDeath_frame])

lemma enemyBody_frame: "loopFrame g (snd (enemyBody env dt e g))"
  unfolding enemyBody_def Let_def
  by (auto simp: split_beta intro: loopFrame_refl
      loopFrame_trans [OF enemyWindupResolve_frame meleeHit_frame])

lemma projectileHit_frame: "loopFrame g (snd (projectileHit env pj e g))"
  unfolding projectileHit_def Let_def
  by (auto intro: loopFrame_refl enemyDeath_frame)

section \<open>What each step leaves alone\<close>

lemma onPlayer_fields [simp]:
  "selectedClassIndex (onPlayer f g) = selectedClassIndex g"
  "playerClass (onPlayer f g) = playerClass g"
  "state (onPlayer f g) = state g"
  "cameraTarget (onPlayer f g) = cameraTarget g"
  "enemies (onPlayer f g) = enemies g"
  "coins (onPlayer f g) = coins g"
  "projectiles (onPlayer f g) = projectiles g"
  "bossSpawned (onPlayer f g) = bossSpawned g"
  "bossDefeated (onPlayer f g) = bossDefeated g"
  "enemySpawnTimer (onPlayer f g) = enemySpawnTimer g"
  "shopSelection (onPlayer f g) = shopSelection g"
  "gHitStopTimer (onPlayer f g) = gHitStopTimer g"
  "gAttackCounter (onPlayer f g) = gAttackCounter g"
  "gProjectileCounter (onPlayer f g) = gProjectileCounter g"
  "randCalls (onPlayer f g) = randCalls g"
  by (simp_all add: onPlayer_def)

lemma shopAccess_fields [simp]:
  "selectedClassIndex (shopAccess inp g) = selectedClassIndex g"
  "player (shopAccess inp g) = player g"
  "playerClass (shopAccess inp g) = playerClass g"
  "cameraTarget (shopAccess inp g) = cameraTarget g"
  "enemies (shopAccess inp g) = enemies g"
  "coins (shopAccess inp g) = coins g"
  "projectiles (shopAccess inp g) = projectiles g"
  "bossSpawned (shopAccess inp g) = bossSpawned g"
  "bossDefeated (shopAccess inp g) = bossDefeated g"
  "enemySpawnTimer (shopAccess inp g) = enemySpawnTimer g"
  "shopSelection (shopAccess inp g) = shopSelection g"
  "gHitStopTimer (shopAccess inp g) = gHitStopTimer g"
  "gAttackCounter (shopAccess inp g) = gAttackCounter g"
  "gProjectileCounter (shopAccess inp g) = gProjectileCounter g"
  "randCalls (shopAccess inp g) = randCalls g"
  by (simp_all add: shopAccess_def)

lemma attackStart_fields [simp]:
  "selectedClassIndex (attackStart inp g) = selectedClassIndex g"
  "playerClass (attackStart inp g) = playerClass g"
  "state (attackStart inp g) = state g"
  "cameraTarget (attackStart inp g) = cameraTarget g"
  "enemies (attackStart inp g) = enemies g"
  "coins (attackStart inp g) = coins g"
  "bossSpawned (attackStart inp g) = bossSpawned g"
  "bossDefeated (attackStart inp g) = bossDefeated g"
  "enemySpawnTimer (attackStart inp g) = enemySpawnTimer g"
  "shopSelection (attackStart inp g) = shopSelection g"
  "gHitStopTimer (attackStart inp g) = gHitStopTimer g"
  "randCalls (attackStart inp g) = randCalls g"
  by (simp_all add: attackStart_def Let_def split_beta)

lemma enemySpawning_fields [simp]:
  "selectedClassIndex (enemySpawning env dt g) = selectedClassIndex g"
  "player (enemySpawning env dt g) = player g"
  "playerClass (enemySpawning env dt g) = playerClass g"
  "state (enemySpawning env dt g) = state g"
  "cameraTarget (enemySpawning env dt g) = cameraTarget g"
  "coins (enemySpawning env dt g) = coins g"
  "projectiles (enemySpawning env dt g) = projectiles g"
  "bossSpawned (enemySpawning env dt g) = bossSpawned g"
  "bossDefeated (enemySpawning env dt g) = bossDefeated g"
  "shopSelection (enemySpawning env dt g) = shopSelection g"
  "gHitStopTimer (enemySpawning env dt g) = gHitStopTimer g"
  "gAttackCounter (enemySpawning env dt g) = gAttackCounter g"
  "gProjectileCounter (enemySpawning env dt g) = gProjectileCounter g"
  by (simp_all add: enemySpawning_def Let_def)

lemma bossSpawn_fields [simp]:
  "selectedClassIndex (bossSpawn g) = selectedClassIndex g"
  "player (bossSpawn g) = player g"
  "playerClass (bossSpawn g) = playerClass g"
  "state (bossSpawn g) = state g"
  "cameraTarget (bossSpawn g) = cameraTarget g"
  "coins (bossSpawn g) = coins g"
  "projectiles (bossSpawn g) = projectiles g"
  "bossDefeated (bossSpawn g) = bossDefeated g"
  "enemySpawnTimer (bossSpawn g) = enemySpawnTimer g"
  "shopSelection (bossSpawn g) = shopSelection g"
  "gHitStopTimer (bossSpawn g) = gHitStopTimer g"
  "gAttackCounter (bossSpawn g) = gAttackCounter g"
  "gProjectileCounter (bossSpawn g) = gProjectileCounter g"
  "randCalls (bossSpawn g) = randCalls g"
  by (simp_all add: bossSpawn_def)

lemma projectilesUpdate_fields [simp]:
  "selectedClassIndex (projectilesUpdate dt g) = selectedClassIndex g"
  "player (projectilesUpdate dt g) = player g"
  "playerClass (projectilesUpdate dt g) = playerClass g"
  "state (projectilesUpdate dt g) = state g"
  "cameraTarget (projectilesUpdate dt g) = cameraTarget g"
  "enemies (projectilesUpdate dt g) = enemies g"
  "coins (projectilesUpdate dt g) = coins g"
  "bossSpawned (projectilesUpdate dt g) = bossSpawned g"
  "bossDefeated (projectilesUpdate dt g) = bossDefeated g"
  "enemySpawnTimer (projectilesUpdate dt g) = enemySpawnTimer g"
  "shopSelection (projectilesUpdate dt g) = shopSelection g"
  "gHitStopTimer (projectilesUpdate dt g) = gHitStopTimer g"
  "gAttackCounter (projectilesUpdate dt g) = gAttackCounter g"
  "gProjectileCounter (projectilesUpdate dt g) = gProjectileCounter g"
  "randCalls (projectilesUpdate dt g) = randCalls g"
  by (simp_all add: projectilesUpdate_def)

lemma hpCheck_fields [simp]:
  "selectedClassIndex (hpCheck g) = selectedClassIndex g"
  "player (hpCheck g) = player g"
  "playerClass (hpCheck g) = playerClass g"
  "cameraTarget (hpCheck g) = cameraTarget g"
  "enemies (hpCheck g) = enemies g"
  "coins (hpCheck g) = coins g"
  "projectiles (hpCheck g) = projectiles g"
  "bossSpawned (hpCheck g) = bossSpawned g"
  "bossDefeated (hpCheck g) = bossDefeated g"
  "enemySpawnTimer (hpCheck g) = enemySpawnTimer g"
  "shopSelection (hpCheck g) = shopSelection g"
  "gHitStopTimer (hpCheck g) = gHitStopTimer g"
  "gAttackCounter (hpCheck g) = gAttackCounter g"
  "gProjectileCounter (hpCheck g) = gProjectileCounter g"
  "randCalls (hpCheck g) = randCalls g"
  by (simp_all add: hpCheck_def)

lemma cameraUpdate_fields [simp]:
  "selectedClassIndex (cameraUpdate g) = selectedClassIndex g"
  "player (cameraUpdate g) = player g"
  "playerClass (cameraUpdate g) = playerClass g"
  "state (cameraUpdate g) = state g"
  "enemies (cameraUpdate g) = enemies g"
  "coins (cameraUpdate g) = coins g"
  "projectiles (cameraUpdate g) = projectiles g"
  "bossSpawned (cameraUpdate g) = bossSpawned g"
  "bossDefeated (cameraUpdate g) = bossDefeated g"
  "enemySpawnTimer (cameraUpdate g) = enemySpawnTimer g"
  "shopSelection (cameraUpdate g) = shopSelection g"
  "gHitStopTimer (cameraUpdate g) = gHitStopTimer g"
  "gAttackCounter (cameraUpdate g) = gAttackCounter g"
  "gProjectileCounter (cameraUpdate g) = gProjectileCounter g"
  "randCalls (cameraUpdate g) = randCalls g"
  by (simp_all add: cameraUpdate_def)

lemma onPlayer_player [simp]: "player (onPlayer f g) = f (player g)"
  by (simp add: onPlayer_def)

lemma playerMovement_fields [simp]:
  "p_name (playerMovement inp dt p) = p_name p"
  "p_size (playerMovement inp dt p) = p_size p"
  "p_maxHP (playerMovement inp dt p) = p_maxHP p"
  "p_hp (playerMovement inp dt p) = p_hp p"
  "p_speed (playerMovement inp dt p) = p_speed p"
  "p_baseDamage (playerMovement inp dt p) = p_baseDamage p"
  "p_attacking (playerMovement inp dt p) = p_attacking p"
  "p_attackTimer (playerMovement inp dt p) = p_attackTimer p"
  "p_attackDuration (playerMovement inp dt p) = p_attackDuration p"
  "p_comboTimer (playerMovement inp dt p) = p_comboTimer p"
  "p_comboStep (playerMovement inp dt p) = p_comboStep p"
  "p_attackHitbox (playerMovement inp dt p) = p_attackHitbox p"
  "p_coins (playerMovement inp dt p) = p_coins p"
  "p_damageLevel (playerMovement inp dt p) = p_damageLevel p"
  "p_healthLevel (playerMovement inp dt p) = p_healthLevel p"
  "p_speedLevel (playerMovement inp dt p) = p_speedLevel p"
  "p_blocking (playerMovement inp dt p) = p_blocking p"
  "p_blockTimer (playerMovement inp dt p) = p_blockTimer p"
  "p_blockCooldown (playerMovement inp dt p) = p_blockCooldown p"
  "p_blockCooldownTimer (playerMovement inp dt p) = p_blockCooldownTimer p"
  "p_dodging (playerMovement inp dt p) = p_dodging p"
  "p_dodgeTimer (playerMovement inp dt p) = p_dodgeTimer p"
  "p_dodgeDuration (playerMovement inp dt p) = p_dodgeDuration p"
  "p_dodgeCooldown (playerMovement inp dt p) = p_dodgeCooldown p"
  "p_dodgeCooldownTimer (playerMovement inp dt p) = p_dodgeCooldownTimer p"
  "p_dodgeDir (playerMovement inp dt p) = p_dodgeDir p"
  "p_blinkCooldown (playerMovement inp dt p) = p_blinkCooldown p"
  "p_blinkCooldownTimer (playerMovement inp dt p) = p_blinkCooldownTimer p"
  "p_invincible (playerMovement inp dt p) = p_invincible p"
  "p_invincibleTimer (playerMovement inp dt p) = p_invincibleTimer p"
  "p_currentAttackId (playerMovement inp dt p) = p_currentAttackId p"
  "p_sprite (playerMovement inp dt p) = p_sprite p"
  "p_animFrame (playerMovement inp dt p) = p_animFrame p"
  "p_animRow (playerMovement inp dt p) = p_animRow p"
  "p_animMaxFrames (playerMovement inp dt p) = p_animMaxFrames p"
  "p_animTimer (playerMovement inp dt p) = p_animTimer p"
  "p_animFrameTime (playerMovement inp dt p) = p_animFrameTime p"
  by (simp_all add: playerMovement_def Let_def)

lemma abilityTimers_fields [simp]:
  "p_name (abilityTimers dt p) = p_name p"
  "p_pos (abilityTimers dt p) = p_pos p"
  "p_size (abilityTimers dt p) = p_size p"
  "p_maxHP (abilityTimers dt p) = p_maxHP p"
  "p_hp (abilityTimers dt p) = p_hp p"
  "p_speed (abilityTimers dt p) = p_speed p"
  "p_baseDamage (abilityTimers dt p) = p_baseDamage p"
  "p_facingRight (abilityTimers dt p) = p_facingRight p"
  "p_attacking (abilityTimers dt p) = p_attacking p"
  "p_attackTimer (abilityTimers dt p) = p_attackTimer p"
  "p_attackDuration (abilityTimers dt p) = p_attackDuration p"
  "p_comboTimer (abilityTimers dt p) = p_comboTimer p"
  "p_comboStep (abilityTimers dt p) = p_comboStep p"
  "p_attackHitbox (abilityTimers dt p) = p_attackHitbox p"
  "p_coins (abilityTimers dt p) = p_coins p"
  "p_damageLevel (abilityTimers dt p) = p_damageLevel p"
  "p_healthLevel (abilityTimers dt p) = p_healthLevel p"
  "p_speedLevel (abilityTimers dt p) = p_speedLevel p"
  "p_blocking (abilityTimers dt p) = p_blocking p"
  "p_blockTimer (abilityTimers dt p) = p_blockTimer p"
  "p_blockCooldown (abilityTimers dt p) = p_blockCooldown p"
  "p_dodging (abilityTimers dt p) = p_dodging p"
  "p_dodgeTimer (abilityTimers dt p) = p_dodgeTimer p"
  "p_dodgeDuration (abilityTimers dt p) = p_dodgeDuration p"
  "p_dodgeCooldown (abilityTimers dt p) = p_dodgeCooldown p"
  "p_dodgeDir (abilityTimers dt p) = p_dodgeDir p"
  "p_blinkCooldown (abilityTimers dt p) = p_blinkCooldown p"
  "p_currentAttackId (abilityTimers dt p) = p_currentAttackId p"
  "p_sprite (abilityTimers dt p) = p_sprite p"
  "p_animFrame (abilityTimers dt p) = p_animFrame p"
  "p_animRow (abilityTimers dt p) = p_animRow p"
  "p_animMaxFrames (abilityTimers dt p) = p_animMaxFrames p"
  "p_animTimer (abilityTimers dt p) = p_animTimer p"
  "p_animFrameTime (abilityTimers dt p) = p_animFrameTime p"
  by (simp_all add: abilityTimers_def Let_def)

lemma knightBlock_fields [simp]:
  "p_name (knightBlock inp dt p) = p_name p"
  "p_pos (knightBlock inp dt p) = p_pos p"
  "p_size (knightBlock inp dt p) = p_size p"
  "p_maxHP (knightBlock inp dt p) = p_maxHP p"
  "p_hp (knightBlock inp dt p) = p_hp p"
  "p_speed (knightBlock inp dt p) = p_speed p"
  "p_baseDamage (knightBlock inp dt p) = p_baseDamage p"
  "p_facingRight (knightBlock inp dt p) = p_facingRight p"
  "p_attacking (knightBlock inp dt p) = p_attacking p"
  "p_attackTimer (knightBlock inp dt p) = p_attackTimer p"
  "p_attackDuration (knightBlock inp dt p) = p_attackDuration p"
  "p_comboTimer (knightBlock inp dt p) = p_comboTimer p"
  "p_comboStep (knightBlock inp dt p) = p_comboStep p"
  "p_attackHitbox (knightBlock inp dt p) = p_attackHitbox p"
  "p_coins (knightBlock inp dt p) = p_coins p"
  "p_damageLevel (knightBlock inp dt p) = p_damageLevel p"
  "p_healthLevel (knightBlock inp dt p) = p_healthLevel p"
  "p_speedLevel (knightBlock inp dt p) = p_speedLevel p"
  "p_blockCooldown (knightBlock inp dt p) = p_blockCooldown p"
  "p_dodging (knightBlock inp dt p) = p_dodging p"
  "p_dodgeTimer (knightBlock inp dt p) = p_dodgeTimer p"
  "p_dodgeDuration (knightBlock inp dt p) = p_dodgeDuration p"
  "p_dodgeCooldown (knightBlock inp dt p) = p_dodgeCooldown p"
  "p_dodgeCooldownTimer (knightBlock inp dt p) = p_dodgeCooldownTimer p"
  "p_dodgeDir (knightBlock inp dt p) = p_dodgeDir p"
  "p_blinkCooldown (knightBlock inp dt p) = p_blinkCooldown p"
  "p_blinkCooldownTimer (knightBlock inp dt p) = p_blinkCooldownTimer p"
  "p_invincible (knightBlock inp dt p) = p_invincible p"
  "p_invincibleTimer (knightBlock inp dt p) = p_invincibleTimer p"
  "p_currentAttackId (knightBlock inp dt p) = p_currentAttackId p"
  "p_sprite (knightBlock inp dt p) = p_sprite p"
  "p_animFrame (knightBlock inp dt p) = p_animFrame p"
  "p_animRow (knightBlock inp dt p) = p_animRow p"
  "p_animMaxFrames (knightBlock inp dt p) = p_animMaxFrames p"
  "p_animTimer (knightBlock inp dt p) = p_animTimer p"
  "p_animFrameTime (knightBlock inp dt p) = p_animFrameTime p"
  by (simp_all add: knightBlock_def Let_def)

lemma rogueDodge_fields [simp]:
  "p_name (rogueDodge inp dt p) = p_name p"
  "p_pos (rogueDodge inp dt p) = p_pos p"
  "p_size (rogueDodge inp dt p) = p_size p"
  "p_maxHP (rogueDodge inp dt p) = p_maxHP p"
  "p_hp (rogueDodge inp dt p) = p_hp p"
  "p_speed (rogueDodge inp dt p) = p_speed p"
  "p_baseDamage (rogueDodge inp dt p) = p_baseDamage p"
  "p_facingRight (rogueDodge inp dt p) = p_facingRight p"
  "p_attacking (rogueDodge inp dt p) = p_attacking p"
  "p_attackTimer (rogueDodge inp dt p) = p_attackTimer p"
  "p_attackDuration (rogueDodge inp dt p) = p_attackDuration p"
  "p_comboTimer (rogueDodge inp dt p) = p_comboTimer p"
  "p_comboStep (rogueDodge inp dt p) = p_comboStep p"
  "p_attackHitbox (rogueDodge inp dt p) = p_attackHitbox p"
  "p_coins (rogueDodge inp dt p) = p_coins p"
  "p_damageLevel (rogueDodge inp dt p) = p_damageLevel p"
  "p_healthLevel (rogueDodge inp dt p) = p_healthLevel p"
  "p_speedLevel (rogueDodge inp dt p) = p_speedLevel p"
  "p_blocking (rogueDodge inp dt p) = p_blocking p"
  "p_blockTimer (rogueDodge inp dt p) = p_blockTimer p"
  "p_blockCooldown (rogueDodge inp dt p) = p_blockCooldown p"
  "p_blockCooldownTimer (rogueDodge inp dt p) = p_blockCooldownTimer p"
  "p_dodgeDuration (rogueDodge inp dt p) = p_dodgeDuration p"
  "p_dodgeCooldown (rogueDodge inp dt p) = p_dodgeCooldown p"
  "p_blinkCooldown (rogueDodge inp dt p) = p_blinkCooldown p"
  "p_blinkCooldownTimer (rogueDodge inp dt p) = p_blinkCooldownTimer p"
  "p_currentAttackId (rogueDodge inp dt p) = p_currentAttackId p"
  "p_sprite (rogueDodge inp dt p) = p_sprite p"
  "p_animFrame (rogueDodge inp dt p) = p_animFrame p"
  "p_animRow (rogueDodge inp dt p) = p_animRow p"
  "p_animMaxFrames (rogueDodge inp dt p) = p_animMaxFrames p"
  "p_animTimer (rogueDodge inp dt p) = p_animTimer p"
  "p_animFrameTime (rogueDodge inp dt p) = p_animFrameTime p"
  by (simp_all add: rogueDodge_def Let_def)

lemma mageBlink_fields [simp]:
  "p_name (mageBlink inp p) = p_name p"
  "p_size (mageBlink inp p) = p_size p"
  "p_maxHP (mageBlink inp p) = p_maxHP p"
  "p_hp (mageBlink inp p) = p_hp p"
  "p_speed (mageBlink inp p) = p_speed p"
  "p_baseDamage (mageBlink inp p) = p_baseDamage p"
  "p_facingRight (mageBlink inp p) = p_facingRight p"
  "p_attacking (mageBlink inp p) = p_attacking p"
  "p_attackTimer (mageBlink inp p) = p_attackTimer p"
  "p_attackDuration (mageBlink inp p) = p_attackDuration p"
  "p_comboTimer (mageBlink inp p) = p_comboTimer p"
  "p_comboStep (mageBlink inp p) = p_comboStep p"
  "p_attackHitbox (mageBlink inp p) = p_attackHitbox p"
  "p_coins (mageBlink inp p) = p_coins p"
  "p_damageLevel (mageBlink inp p) = p_damageLevel p"
  "p_healthLevel (mageBlink inp p) = p_healthLevel p"
  "p_speedLevel (mageBlink inp p) = p_speedLevel p"
  "p_blocking (mageBlink inp p) = p_blocking p"
  "p_blockTimer (mageBlink inp p) = p_blockTimer p"
  "p_blockCooldown (mageBlink inp p) = p_blockCooldown p"
  "p_blockCooldownTimer (mageBlink inp p) = p_blockCooldownTimer p"
  "p_dodging (mageBlink inp p) = p_dodging p"
  "p_dodgeTimer (mageBlink inp p) = p_dodgeTimer p"
  "p_dodgeDuration (mageBlink inp p) = p_dodgeDuration p"
  "p_dodgeCooldown (mageBlink inp p) = p_dodgeCooldown p"
  "p_dodgeCooldownTimer (mageBlink inp p) = p_dodgeCooldownTimer p"
  "p_dodgeDir (mageBlink inp p) = p_dodgeDir p"
  "p_blinkCooldown (mageBlink inp p) = p_blinkCooldown p"
  "p_currentAttackId (mageBlink inp p) = p_currentAttackId p"
  "p_sprite (mageBlink inp p) = p_sprite p"
  "p_animFrame (mageBlink inp p) = p_animFrame p"
  "p_animRow (mageBlink inp p) = p_animRow p"
  "p_animMaxFrames (mageBlink inp p) = p_animMaxFrames p"
  "p_animTimer (mageBlink inp p) = p_animTimer p"
  "p_animFrameTime (mageBlink inp p) = p_animFrameTime p"
  by (simp_all add: mageBlink_def Let_def)

lemma comboTick_fields [simp]:
  "p_name (comboTick dt p) = p_name p"
  "p_pos (comboTick dt p) = p_pos p"
  "p_size (comboTick dt p) = p_size p"
  "p_maxHP (comboTick dt p) = p_maxHP p"
  "p_hp (comboTick dt p) = p_hp p"
  "p_speed (comboTick dt p) = p_speed p"
  "p_baseDamage (comboTick dt p) = p_baseDamage p"
  "p_facingRight (comboTick dt p) = p_facingRight p"
  "p_attacking (comboTick dt p) = p_attacking p"
  "p_attackTimer (comboTick dt p) = p_attackTimer p"
  "p_attackDuration (comboTick dt p) = p_attackDuration p"
  "p_attackHitbox (comboTick dt p) = p_attackHitbox p"
  "p_coins (comboTick dt p) = p_coins p"
  "p_damageLevel (comboTick dt p) = p_damageLevel p"
  "p_healthLevel (comboTick dt p) = p_healthLevel p"
  "p_speedLevel (comboTick dt p) = p_speedLevel p"
  "p_blocking (comboTick dt p) = p_blocking p"
  "p_blockTimer (comboTick dt p) = p_blockTimer p"
  "p_blockCooldown (comboTick dt p) = p_blockCooldown p"
  "p_blockCooldownTimer (comboTick dt p) = p_blockCooldownTimer p"
  "p_dodging (comboTick dt p) = p_dodging p"
  "p_dodgeTimer (comboTick dt p) = p_dodgeTimer p"
  "p_dodgeDuration (comboTick dt p) = p_dodgeDuration p"
  "p_dodgeCooldown (comboTick dt p) = p_dodgeCooldown p"
  "p_dodgeCooldownTimer (comboTick dt p) = p_dodgeCooldownTimer p"
  "p_dodgeDir (comboTick dt p) = p_dodgeDir p"
  "p_blinkCooldown (comboTick dt p) = p_blinkCooldown p"
  "p_blinkCooldownTimer (comboTick dt p) = p_blinkCooldownTimer p"
  "p_invincible (comboTick dt p) = p_invincible p"
  "p_invincibleTimer (comboTick dt p) = p_invincibleTimer p"
  "p_currentAttackId (comboTick dt p) = p_currentAttackId p"
  "p_sprite (comboTick dt p) = p_sprite p"
  "p_animFrame (comboTick dt p) = p_animFrame p"
  "p_animRow (comboTick dt p) = p_animRow p"
  "p_animMaxFrames (comboTick dt p) = p_animMaxFrames p"
  "p_animTimer (comboTick dt p) = p_animTimer p"
  "p_animFrameTime (comboTick dt p) = p_animFrameTime p"
  by (simp_all add: comboTick_def Let_def)

lemma attackTick_fields [simp]:
  "p_name (attackTick dt p) = p_name p"
  "p_pos (attackTick dt p) = p_pos p"
  "p_size (attackTick dt p) = p_size p"
  "p_maxHP (attackTick dt p) = p_maxHP p"
  "p_hp (attackTick dt p) = p_hp p"
  "p_speed (attackTick dt p) = p_speed p"
  "p_baseDamage (attackTick dt p) = p_baseDamage p"
  "p_facingRight (attackTick dt p) = p_facingRight p"
  "p_attackDuration (attackTick dt p) = p_attackDuration p"
  "p_comboTimer (attackTick dt p) = p_comboTimer p"
  "p_comboStep (attackTick dt p) = p_comboStep p"
  "p_attackHitbox (attackTick dt p) = p_attackHitbox p"
  "p_coins (attackTick dt p) = p_coins p"
  "p_damageLevel (attackTick dt p) = p_damageLevel p"
  "p_healthLevel (attackTick dt p) = p_healthLevel p"
  "p_speedLevel (attackTick dt p) = p_speedLevel p"
  "p_blocking (attackTick dt p) = p_blocking p"
  "p_blockTimer (attackTick dt p) = p_blockTimer p"
  "p_blockCooldown (attackTick dt p) = p_blockCooldown p"
  "p_blockCooldownTimer (attackTick dt p) = p_blockCooldownTimer p"
  "p_dodging (attackTick dt p) = p_dodging p"
  "p_dodgeTimer (attackTick dt p) = p_dodgeTimer p"
  "p_dodgeDuration (attackTick dt p) = p_dodgeDuration p"
  "p_dodgeCooldown (attackTick dt p) = p_dodgeCooldown p"
  "p_dodgeCooldownTimer (attackTick dt p) = p_dodgeCooldownTimer p"
  "p_dodgeDir (attackTick dt p) = p_dodgeDir p"
  "p_blinkCooldown (attackTick dt p) = p_blinkCooldown p"
  "p_blinkCooldownTimer (attackTick dt p) = p_blinkCooldownTimer p"
  "p_invincible (attackTick dt p) = p_invincible p"
  "p_invincibleTimer (attackTick dt p) = p_invincibleTimer p"
  "p_currentAttackId (attackTick dt p) = p_currentAttackId p"
  "p_sprite (attackTick dt p) = p_sprite p"
  "p_animFrame (attackTick dt p) = p_animFrame p"
  "p_animRow (attackTick dt p) = p_animRow p"
  "p_animMaxFrames (attackTick dt p) = p_animMaxFrames p"
  "p_animTimer (attackTick dt p) = p_animTimer p"
  "p_animFrameTime (attackTick dt p) = p_animFrameTime p"
  by (simp_all add: attackTick_def Let_def)

lemma playerAnimation_fields [simp]:
  "p_name (playerAnimation env mv dt p) = p_name p"
  "p_pos (playerAnimation env mv dt p) = p_pos p"
  "p_size (playerAnimation env mv dt p) = p_size p"
  "p_maxHP (playerAnimation env mv dt p) = p_maxHP p"
  "p_hp (playerAnimation env mv dt p) = p_hp p"
  "p_speed (playerAnimation env mv dt p) = p_speed p"
  "p_baseDamage (playerAnimation env mv dt p) = p_baseDamage p"
  "p_facingRight (playerAnimation env mv dt p) = p_facingRight p"
  "p_attacking (playerAnimation env mv dt p) = p_attacking p"
  "p_attackTimer (playerAnimation env mv dt p) = p_attackTimer p"
  "p_attackDuration (playerAnimation env mv dt p) = p_attackDuration p"
  "p_comboTimer (playerAnimation env mv dt p) = p_comboTimer p"
  "p_comboStep (playerAnimation env mv dt p) = p_comboStep p"
  "p_attackHitbox (playerAnimation env mv dt p) = p_attackHitbox p"
  "p_coins (playerAnimation env mv dt p) = p_coins p"
  "p_damageLevel (playerAnimation env mv dt p) = p_damageLevel p"
  "p_healthLevel (playerAnimation env mv dt p) = p_healthLevel p"
  "p_speedLevel (playerAnimation env mv dt p) = p_speedLevel p"
  "p_blocking (playerAnimation env mv dt p) = p_blocking p"
  "p_blockTimer (playerAnimation env mv dt p) = p_blockTimer p"
  "p_blockCooldown (playerAnimation env mv dt p) = p_blockCooldown p"
  "p_blockCooldownTimer (playerAnimation env mv dt p) = p_blockCooldownTimer p"
  "p_dodging (playerAnimation env mv dt p) = p_dodging p"
  "p_dodgeTimer (playerAnimation env mv dt p) = p_dodgeTimer p"
  "p_dodgeDuration (playerAnimation env mv dt p) = p_dodgeDuration p"
  "p_dodgeCooldown (playerAnimation env mv dt p) = p_dodgeCooldown p"
  "p_dodgeCooldownTimer (playerAnimation env mv dt p) = p_dodgeCooldownTimer p"
  "p_dodgeDir (playerAnimation env mv dt p) = p_dodgeDir p"
  "p_blinkCooldown (playerAnimation env mv dt p) = p_blinkCooldown p"
  "p_blinkCooldownTimer (playerAnimation env mv dt p) = p_blinkCooldownTimer p"
  "p_invincible (playerAnimation env mv dt p) = p_invincible p"
  "p_invincibleTimer (playerAnimation env mv dt p) = p_invincibleTimer p"
  "p_currentAttackId (playerAnimation env mv dt p) = p_currentAttackId p"
  "p_sprite (playerAnimation env mv dt p) = p_sprite p"
  "p_animMaxFrames (playerAnimation env mv dt p) = p_animMaxFrames p"
  "p_animFrameTime (playerAnimation env mv dt p) = p_animFrameTime p"
  by (simp_all add: playerAnimation_def Let_def)

lemma abilities_fields [simp]:
  "p_name (abilities inp dt pc p) = p_name p"
  "p_size (abilities inp dt pc p) = p_size p"
  "p_maxHP (abilities inp dt pc p) = p_maxHP p"
  "p_hp (abilities inp dt pc p) = p_hp p"
  "p_speed (abilities inp dt pc p) = p_speed p"
  "p_baseDamage (abilities inp dt pc p) = p_baseDamage p"
  "p_facingRight (abilities inp dt pc p) = p_facingRight p"
  "p_attacking (abilities inp dt pc p) = p_attacking p"
  "p_attackTimer (abilities inp dt pc p) = p_attackTimer p"
  "p_attackDuration (abilities inp dt pc p) = p_attackDuration p"
  "p_comboTimer (abilities inp dt pc p) = p_comboTimer p"
  "p_comboStep (abilities inp dt pc p) = p_comboStep p"
  "p_attackHitbox (abilities inp dt pc p) = p_attackHitbox p"
  "p_coins (abilities inp dt pc p) = p_coins p"
  "p_damageLevel (abilities inp dt pc p) = p_damageLevel p"
  "p_healthLevel (abilities inp dt pc p) = p_healthLevel p"
  "p_speedLevel (abilities inp dt pc p) = p_speedLevel p"
  "p_blockCooldown (abilities inp dt pc p) = p_blockCooldown p"
  "p_dodgeDuration (abilities inp dt pc p) = p_dodgeDuration p"
  "p_dodgeCooldown (abilities inp dt pc p) = p_dodgeCooldown p"
  "p_blinkCooldown (abilities inp dt pc p) = p_blinkCooldown p"
  "p_currentAttackId (abilities inp dt pc p) = p_currentAttackId p"
  "p_sprite (abilities inp dt pc p) = p_sprite p"
  "p_animFrame (abilities inp dt pc p) = p_animFrame p"
  "p_animRow (abilities inp dt pc p) = p_animRow p"
  "p_animMaxFrames (abilities inp dt pc p) = p_animMaxFrames p"
  "p_animTimer (abilities inp dt pc p) = p_animTimer p"
  "p_animFrameTime (abilities inp dt pc p) = p_animFrameTime p"
  by (cases pc; simp add: abilities_def)+

lemma attackStart_player_fields [simp]:
  "p_name (player (attackStart inp g)) = p_name (player g)"
  "p_pos (player (attackStart inp g)) = p_pos (player g)"
  "p_size (player (attackStart inp g)) = p_size (player g)"
  "p_maxHP (player (attackStart inp g)) = p_maxHP (player g)"
  "p_hp (player (attackStart inp g)) = p_hp (player g)"
  "p_speed (player (attackStart inp g)) = p_speed (player g)"
  "p_baseDamage (player (attackStart inp g)) = p_baseDamage (player g)"
  "p_facingRight (player (attackStart inp g)) = p_facingRight (player g)"
  "p_coins (player (attackStart inp g)) = p_coins (player g)"
  "p_damageLevel (player (attackStart inp g)) = p_damageLevel (player g)"
  "p_healthLevel (player (attackStart inp g)) = p_healthLevel (player g)"
  "p_speedLevel (player (attackStart inp g)) = p_speedLevel (player g)"
  "p_blocking (player (attackStart inp g)) = p_blocking (player g)"
  "p_blockTimer (player (attackStart inp g)) = p_blockTimer (player g)"
  "p_blockCooldown (player (attackStart inp g)) = p_blockCooldown (player g)"
  "p_blockCooldownTimer (player (attackStart inp g)) = p_blockCooldownTimer (player g)"
  "p_dodging (player (attackStart inp g)) = p_dodging (player g)"
  "p_dodgeTimer (player (attackStart inp g)) = p_dodgeTimer (player g)"
  "p_dodgeDuration (player (attackStart inp g)) = p_dodgeDuration (player g)"
  "p_dodgeCooldown (player (attackStart inp g)) = p_dodgeCooldown (player g)"
  "p_dodgeCooldownTimer (player (attackStart inp g)) = p_dodgeCooldownTimer (player g)"
  "p_dodgeDir (player (attackStart inp g)) = p_dodgeDir (player g)"
  "p_blinkCooldown (player (attackStart inp g)) = p_blinkCooldown (player g)"
  "p_blinkCooldownTimer (player (attackStart inp g)) = p_blinkCooldownTimer (player g)"
  "p_invincible (player (attackStart inp g)) = p_invincible (player g)"
  "p_invincibleTimer (player (attackStart inp g)) = p_invincibleTimer (player g)"
  "p_sprite (player (attackStart inp g)) = p_sprite (player g)"
  "p_animFrame (player (attackStart inp g)) = p_animFrame (player g)"
  "p_animRow (player (attackStart inp g)) = p_animRow (player g)"
  "p_animMaxFrames (player (attackStart inp g)) = p_animMaxFrames (player g)"
  "p_animTimer (player (attackStart inp g)) = p_animTimer (player g)"
  "p_animFrameTime (player (attackStart inp g)) = p_animFrameTime (player g)"
  by (simp_all add: attackStart_def Let_def split_beta)

lemma enemyMove_fields [simp]:
  "e_size (enemyMove dt p e) = e_size e"
  "e_maxHP (enemyMove dt p e) = e_maxHP e"
  "e_hp (enemyMove dt p e) = e_hp e"
  "e_speed (enemyMove dt p e) = e_speed e"
  "e_type (enemyMove dt p e) = e_type e"
  "e_alive (enemyMove dt p e) = e_alive e"
  "e_attackCooldown (enemyMove dt p e) = e_attackCooldown e"
  "e_windingUp (enemyMove dt p e) = e_windingUp e"
  "e_windupTimer (enemyMove dt p e) = e_windupTimer e"
  "e_attackingAnim (enemyMove dt p e) = e_attackingAnim e"
  "e_attackAnimTimer (enemyMove dt p e) = e_attackAnimTimer e"
  "e_lastHitAttackId (enemyMove dt p e) = e_lastHitAttackId e"
  "e_lastProjectileHitId (enemyMove dt p e) = e_lastProjectileHitId e"
  "e_sprite (enemyMove dt p e) = e_sprite e"
  "e_animFrame (enemyMove dt p e) = e_animFrame e"
  "e_animRow (enemyMove dt p e) = e_animRow e"
  "e_animMaxFrames (enemyMove dt p e) = e_animMaxFrames e"
  "e_animTimer (enemyMove dt p e) = e_animTimer e"
  "e_animFrameTime (enemyMove dt p e) = e_animFrameTime e"
  by (simp_all add: enemyMove_def Let_def)

lemma enemyCooldown_fields [simp]:
  "e_pos (enemyCooldown dt e) = e_pos e"
  "e_size (enemyCooldown dt e) = e_size e"
  "e_maxHP (enemyCooldown dt e) = e_maxHP e"
  "e_hp (enemyCooldown dt e) = e_hp e"
  "e_speed (enemyCooldown dt e) = e_speed e"
  "e_type (enemyCooldown dt e) = e_type e"
  "e_alive (enemyCooldown dt e) = e_alive e"
  "e_windingUp (enemyCooldown dt e) = e_windingUp e"
  "e_windupTimer (enemyCooldown dt e) = e_windupTimer e"
  "e_attackingAnim (enemyCooldown dt e) = e_attackingAnim e"
  "e_attackAnimTimer (enemyCooldown dt e) = e_attackAnimTimer e"
  "e_lastHitAttackId (enemyCooldown dt e) = e_lastHitAttackId e"
  "e_lastProjectileHitId (enemyCooldown dt e) = e_lastProjectileHitId e"
  "e_sprite (enemyCooldown dt e) = e_sprite e"
  "e_animFrame (enemyCooldown dt e) = e_animFrame e"
  "e_animRow (enemyCooldown dt e) = e_animRow e"
  "e_animMaxFrames (enemyCooldown dt e) = e_animMaxFrames e"
  "e_animTimer (enemyCooldown dt e) = e_animTimer e"
  "e_animFrameTime (enemyCooldown dt e) = e_animFrameTime e"
  by (simp_all add: enemyCooldown_def Let_def)

lemma enemyWindupStart_fields [simp]:
  "e_pos (enemyWindupStart env p e) = e_pos e"
  "e_size (enemyWindupStart env p e) = e_size e"
  "e_maxHP (enemyWindupStart env p e) = e_maxHP e"
  "e_hp (enemyWindupStart env p e) = e_hp e"
  "e_speed (enemyWindupStart env p e) = e_speed e"
  "e_type (enemyWindupStart env p e) = e_type e"
  "e_alive (enemyWindupStart env p e) = e_alive e"
  "e_attackCooldown (enemyWindupStart env p e) = e_attackCooldown e"
  "e_attackingAnim (enemyWindupStart env p e) = e_attackingAnim e"
  "e_attackAnimTimer (enemyWindupStart env p e) = e_attackAnimTimer e"
  "e_lastHitAttackId (enemyWindupStart env p e) = e_lastHitAttackId e"
  "e_lastProjectileHitId (enemyWindupStart env p e) = e_lastProjectileHitId e"
  "e_sprite (enemyWindupStart env p e) = e_sprite e"
  "e_animFrame (enemyWindupStart env p e) = e_animFrame e"
  "e_animRow (enemyWindupStart env p e) = e_animRow e"
  "e_animMaxFrames (enemyWindupStart env p e) = e_animMaxFrames e"
  "e_animTimer (enemyWindupStart env p e) = e_animTimer e"
  "e_animFrameTime (enemyWindupStart env p e) = e_animFrameTime e"
  by (simp_all add: enemyWindupStart_def)

lemma enemyAttackAnim_fields [simp]:
  "e_pos (enemyAttackAnim dt e) = e_pos e"
  "e_size (enemyAttackAnim dt e) = e_size e"
  "e_maxHP (enemyAttackAnim dt e) = e_maxHP e"
  "e_hp (enemyAttackAnim dt e) = e_hp e"
  "e_speed (enemyAttackAnim dt e) = e_speed e"
  "e_type (enemyAttackAnim dt e) = e_type e"
  "e_alive (enemyAttackAnim dt e) = e_alive e"
  "e_attackCooldown (enemyAttackAnim dt e) = e_attackCooldown e"
  "e_windingUp (enemyAttackAnim dt e) = e_windingUp e"
  "e_windupTimer (enemyAttackAnim dt e) = e_windupTimer e"
  "e_lastHitAttackId (enemyAttackAnim dt e) = e_lastHitAttackId e"
  "e_lastProjectileHitId (enemyAttackAnim dt e) = e_lastProjectileHitId e"
  "e_sprite (enemyAttackAnim dt e) = e_sprite e"
  "e_animFrame (enemyAttackAnim dt e) = e_animFrame e"
  "e_animRow (enemyAttackAnim dt e) = e_animRow e"
  "e_animMaxFrames (enemyAttackAnim dt e) = e_animMaxFrames e"
  "e_animTimer (enemyAttackAnim dt e) = e_animTimer e"
  "e_animFrameTime (enemyAttackAnim dt e) = e_animFrameTime e"
  by (simp_all add: enemyAttackAnim_def Let_def)

lemma enemyAnimation_fields [simp]:
  "e_pos (enemyAnimation env dt e) = e_pos e"
  "e_size (enemyAnimation env dt e) = e_size e"
  "e_maxHP (enemyAnimation env dt e) = e_maxHP e"
  "e_hp (enemyAnimation env dt e) = e_hp e"
  "e_speed (enemyAnimation env dt e) = e_speed e"
  "e_type (enemyAnimation env dt e) = e_type e"
  "e_alive (enemyAnimation env dt e) = e_alive e"
  "e_attackCooldown (enemyAnimation env dt e) = e_attackCooldown e"
  "e_windingUp (enemyAnimation env dt e) = e_windingUp e"
  "e_windupTimer (enemyAnimation env dt e) = e_windupTimer e"
  "e_attackingAnim (enemyAnimation env dt e) = e_attackingAnim e"
  "e_attackAnimTimer (enemyAnimation env dt e) = e_attackAnimTimer e"
  "e_lastHitAttackId (enemyAnimation env dt e) = e_lastHitAttackId e"
  "e_lastProjectileHitId (enemyAnimation env dt e) = e_lastProjectileHitId e"
  "e_sprite (enemyAnimation env dt e) = e_sprite e"
  "e_animMaxFrames (enemyAnimation env dt e) = e_animMaxFrames e"
  "e_animFrameTime (enemyAnimation env dt e) = e_animFrameTime e"
  by (simp_all add: enemyAnimation_def Let_def)

lemma enemyWindupResolve_fields [simp]:
  "e_pos (fst (enemyWindupResolve env dt e g)) = e_pos e"
  "e_size (fst (enemyWindupResolve env dt e g)) = e_size e"
  "e_maxHP (fst (enemyWindupResolve env dt e g)) = e_maxHP e"
  "e_hp (fst (enemyWindupResolve env dt e g)) = e_hp e"
  "e_speed (fst (enemyWindupResolve env dt e g)) = e_speed e"
  "e_type (fst (enemyWindupResolve env dt e g)) = e_type e"
  "e_alive (fst (enemyWindupResolve env dt e g)) = e_alive e"
  "e_lastHitAttackId (fst (enemyWindupResolve env dt e g)) = e_lastHitAttackId e"
  "e_lastProjectileHitId (fst (enemyWindupResolve env dt e g)) = e_lastProjectileHitId e"
  "e_sprite (fst (enemyWindupResolve env dt e g)) = e_sprite e"
  "e_animFrame (fst (enemyWindupResolve env dt e g)) = e_animFrame e"
  "e_animRow (fst (enemyWindupResolve env dt e g)) = e_animRow e"
  "e_animMaxFrames (fst (enemyWindupResolve env dt e g)) = e_animMaxFrames e"
  "e_animTimer (fst (enemyWindupResolve env dt e g)) = e_animTimer e"
  "e_animFrameTime (fst (enemyWindupResolve env dt e g)) = e_animFrameTime e"
  by (simp_all add: enemyWindupResolve_def Let_def)

section \<open>Induction over the loops\<close>

lemma enemyLoop_frame: "loopFrame g (snd (enemyLoop env dt es g))"
proof (induction es arbitrary: g)
  case Nil
  show ?case by (simp add: loopFrame_refl)
next
  case (Cons e es)
  have "loopFrame g (snd (enemyLoop env dt es (snd (enemyBody env dt e g))))"
    by (rule loopFrame_trans [OF enemyBody_frame Cons.IH])
  then show ?case by (simp add: split_beta)
qed

lemma enemyLoop_length [simp]: "length (fst (enemyLoop env dt es g)) = length es"
  by (induction es arbitrary: g) (simp_all add: split_beta)

lemma enemyLoop_all2:
  assumes step: "\<And>e g1. loopFrame g g1 \<Longrightarrow> P e (fst (enemyBody env dt e g1))"
  shows "list_all2 P es (fst (enemyLoop env dt es g))"
proof -
  have "loopFrame g g1 \<Longrightarrow> list_all2 P es (fst (enemyLoop env dt es g1))" for g1
  proof (induction es arbitrary: g1)
    case Nil
    show ?case by simp
  next
    case (Cons e es)
    have "loopFrame g (snd (enemyBody env dt e g1))"
      by (rule loopFrame_trans [OF Cons.prems enemyBody_frame])
    then have "list_all2 P es (fst (enemyLoop env dt es (snd (enemyBody env dt e g1))))"
      by (rule Cons.IH)
    with step [OF Cons.prems] show ?case by (simp add: split_beta)
  qed
  from this [OF loopFrame_refl] show ?thesis .
qed

lemma enemyLoop_inv:
  assumes step: "\<And>e g1. I g1 \<Longrightarrow> I (snd (enemyBody env dt e g1))" and init: "I g"
  shows "I (snd (enemyLoop env dt es g))"
  using init
proof (induction es arbitrary: g)
  case Nil
  then show ?case by simp
next
  case (Cons e es)
  from Cons.IH [OF step [OF Cons.prems]] show ?case by (simp add: split_beta)
qed

lemma projectileEnemies_frame: "loopFrame g (snd (projectileEnemies env pj es g))"
proof (induction es arbitrary: g)
  case Nil
  show ?case by (simp add: loopFrame_refl)
next
  case (Cons e es)
  have "loopFrame g (snd (projectileEnemies env pj es (snd (projectileHit env pj e g))))"
    by (rule loopFrame_trans [OF projectileHit_frame Cons.IH])
  then show ?case by (simp add: split_beta)
qed

lemma projectileEnemies_length [simp]:
  "length (fst (projectileEnemies env pj es g)) = length es"
  by (induction es arbitrary: g) (simp_all add: split_beta)

lemma projectileEnemies_all2:
  assumes step: "\<And>e g1. P e (fst (projectileHit env pj e g1))"
  shows "list_all2 P es (fst (projectileEnemies env pj es g))"
  by (induction es arbitrary: g) (simp_all add: split_beta step)

lemma projectileEnemies_inv:
  assumes step: "\<And>e g1. I g1 \<Longrightarrow> I (snd (projectileHit env pj e g1))" and init: "I g"
  shows "I (snd (projectileEnemies env pj es g))"
  using init
proof (induction es arbitrary: g)
  case Nil
  then show ?case by simp
next
  case (Cons e es)
  from Cons.IH [OF step [OF Cons.prems]] show ?case by (simp add: split_beta)
qed

lemma projectileLoop_frame: "loopFrame g (snd (projectileLoop env pjs es g))"
proof (induction pjs arbitrary: es g)
  case Nil
  show ?case by (simp add: loopFrame_refl)
next
  case (Cons pj pjs)
  show ?case
    by (auto simp: split_beta Cons.IH
        intro: loopFrame_trans [OF projectileEnemies_frame Cons.IH])
qed

lemma projectileLoop_length [simp]:
  "length (fst (projectileLoop env pjs es g)) = length es"
  by (induction pjs arbitrary: es g) (simp_all add: split_beta)

lemma projectileLoop_all2:
  assumes step: "\<And>pj e g1. P e (fst (projectileHit env pj e g1))"
    and refl: "\<And>e. P e e"
    and trans: "\<And>a b c. P a b \<Longrightarrow> P b c \<Longrightarrow> P a c"
  shows "list_all2 P es (fst (projectileLoop env pjs es g))"
proof (induction pjs arbitrary: es g)
  case Nil
  show ?case by (simp add: list_all2_refl refl)
next
  case (Cons pj pjs)
  have a: "list_all2 P es (fst (projectileEnemies env pj es g))"
    by (rule projectileEnemies_all2) (rule step)
  have b: "list_all2 P (fst (projectileEnemies env pj es g))
     (fst (projectileLoop env pjs (fst (projectileEnemies env pj es g))
        (snd (projectileEnemies env pj es g))))"
    by (rule Cons.IH)
  have "list_all2 P es (fst (projectileLoop env pjs (fst (projectileEnemies env pj es g))
        (snd (projectileEnemies env pj es g))))"
    by (rule list_all2_trans [OF _ a b]) (rule trans)
  then show ?case by (simp add: split_beta Cons.IH)
qed

lemma projectileLoop_inv:
  assumes step: "\<And>pj e g1. I g1 \<Longrightarrow> I (snd (projectileHit env pj e g1))" and init: "I g"
  shows "I (snd (projectileLoop env pjs es g))"
  using init
proof (induction pjs arbitrary: es g)
  case Nil
  then show ?case by simp
next
  case (Cons pj pjs)
  have "I (snd (projectileEnemies env pj es g))"
    by (rule projectileEnemies_inv [OF step Cons.prems])
  from Cons.IH [OF this] Cons.IH [OF Cons.prems] show ?case by (simp add: split_beta)
qed

text \<open>The two loops as steps of the frame.\<close>

lemma enemyAI_enemies: "enemies (enemyAI env dt g) = fst (enemyLoop env dt (enemies g) g)"
  by (simp add: enemyAI_def split_beta)

lemma enemyAI_frame: "loopFrame g (enemyAI env dt g)"
  unfolding enemyAI_def split_beta Let_def
  by (rule loopFrame_trans [OF enemyLoop_frame loopFrame_upd(5)])

lemma mageProjectiles_enemies:
  "enemies (mageProjectiles env g) =
     (if playerClass g = MAGE then fst (projectileLoop env (projectiles g) (enemies g) g)
      else enemies g)"
  by (simp add: mageProjectiles_def split_beta)

lemma mageProjectiles_frame: "loopFrame g (mageProjectiles env g)"
  unfolding mageProjectiles_def split_beta Let_def
  by (auto intro: loopFrame_refl loopFrame_trans [OF projectileLoop_frame loopFrame_upd(5)])

lemma coinsLoop_length [simp]: "length (fst (coinsLoop env cs p)) = length cs"
  by (induction cs arbitrary: p) (simp_all add: split_beta)

lemma coinsLoop_player: "\<exists>c. snd (coinsLoop env cs p) = p\<lparr>p_coins := c\<rparr>"
proof (induction cs arbitrary: p)
  case Nil
  show ?case by simp (rule exI [of _ "p_coins p"], simp)
next
  case (Cons c cs)
  from Cons.IH [of p] Cons.IH [of "p\<lparr>p_coins := p_coins p + 1\<rparr>"] show ?case
    by (auto simp: split_beta)
qed

lemma coinsUpdate_fields [simp]:
  "selectedClassIndex (coinsUpdate env g) = selectedClassIndex g"
  "playerClass (coinsUpdate env g) = playerClass g"
  "state (coinsUpdate env g) = state g"
  "cameraTarget (coinsUpdate env g) = cameraTarget g"
  "enemies (coinsUpdate env g) = enemies g"
  "projectiles (coinsUpdate env g) = projectiles g"
  "bossSpawned (coinsUpdate env g) = bossSpawned g"
  "bossDefeated (coinsUpdate env g) = bossDefeated g"
  "enemySpawnTimer (coinsUpdate env g) = enemySpawnTimer g"
  "shopSelection (coinsUpdate env g) = shopSelection g"
  "gHitStopTimer (coinsUpdate env g) = gHitStopTimer g"
  "gAttackCounter (coinsUpdate env g) = gAttackCounter g"
  "gProjectileCounter (coinsUpdate env g) = gProjectileCounter g"
  "randCalls (coinsUpdate env g) = randCalls g"
  "length (coins (coinsUpdate env g)) = length (coins g)"
  by (simp_all add: coinsUpdate_def split_beta)

lemma coinsUpdate_player: "\<exists>c. player (coinsUpdate env g) = (player g)\<lparr>p_coins := c\<rparr>"
  using coinsLoop_player [of env "coins g" "player g"]
  by (simp add: coinsUpdate_def split_beta)

section \<open>What a hit leaves alone\<close>

lemma spawnCoins_player [simp]: "player (spawnCoins env pos n g) = player g"
  by (induction n arbitrary: g) simp_all

lemma spawnCoins_numeral:
  "spawnCoins env pos (numeral k) g =
     spawnCoins env pos (pred_numeral k)
       (g\<lparr>coins := coins g
             @ [\<lparr>c_pos = \<lparr>v_x = v_x pos + real_of_int (GetRandomValue env (randCalls g) (- 10) 10),
                          v_y = v_y pos
                                - real_of_int (GetRandomValue env (randCalls g + 1) 0 20)\<rparr>,
                 c_collected = False\<rparr>],
          randCalls := randCalls g + 2\<rparr>)"
  by (simp only: numeral_eq_Suc spawnCoins.simps)

lemma enemyDeath_fields [simp]:
  "e_pos (fst (enemyDeath env e g)) = e_pos e"
  "e_size (fst (enemyDeath env e g)) = e_size e"
  "e_maxHP (fst (enemyDeath env e g)) = e_maxHP e"
  "e_hp (fst (enemyDeath env e g)) = e_hp e"
  "e_speed (fst (enemyDeath env e g)) = e_speed e"
  "e_type (fst (enemyDeath env e g)) = e_type e"
  "e_attackCooldown (fst (enemyDeath env e g)) = e_attackCooldown e"
  "e_windingUp (fst (enemyDeath env e g)) = e_windingUp e"
  "e_windupTimer (fst (enemyDeath env e g)) = e_windupTimer e"
  "e_attackingAnim (fst (enemyDeath env e g)) = e_attackingAnim e"
  "e_attackAnimTimer (fst (enemyDeath env e g)) = e_attackAnimTimer e"
  "e_lastHitAttackId (fst (enemyDeath env e g)) = e_lastHitAttackId e"
  "e_lastProjectileHitId (fst (enemyDeath env e g)) = e_lastProjectileHitId e"
  "e_sprite (fst (enemyDeath env e g)) = e_sprite e"
  "e_animFrame (fst (enemyDeath env e g)) = e_animFrame e"
  "e_animRow (fst (enemyDeath env e g)) = e_animRow e"
  "e_animMaxFrames (fst (enemyDeath env e g)) = e_animMaxFrames e"
  "e_animTimer (fst (enemyDeath env e g)) = e_animTimer e"
  "e_animFrameTime (fst (enemyDeath env e g)) = e_animFrameTime e"
  "e_alive (fst (enemyDeath env e g)) = False"
  "player (snd (enemyDeath env e g)) = player g"
  by (simp_all add: enemyDeath_def Let_def)

lemma meleeHit_fields [simp]:
  "e_size (fst (meleeHit env e g)) = e_size e"
  "e_maxHP (fst (meleeHit env e g)) = e_maxHP e"
  "e_speed (fst (meleeHit env e g)) = e_speed e"
  "e_type (fst (meleeHit env e g)) = e_type e"
  "e_attackCooldown (fst (meleeHit env e g)) = e_attackCooldown e"
  "e_windingUp (fst (meleeHit env e g)) = e_windingUp e"
  "e_windupTimer (fst (meleeHit env e g)) = e_windupTimer e"
  "e_attackingAnim (fst (meleeHit env e g)) = e_attackingAnim e"
  "e_attackAnimTimer (fst (meleeHit env e g)) = e_attackAnimTimer e"
  "e_lastProjectileHitId (fst (meleeHit env e g)) = e_lastProjectileHitId e"
  "e_sprite (fst (meleeHit env e g)) = e_sprite e"
  "e_animFrame (fst (meleeHit env e g)) = e_animFrame e"
  "e_animRow (fst (meleeHit env e g)) = e_animRow e"
  "e_animMaxFrames (fst (meleeHit env e g)) = e_animMaxFrames e"
  "e_animTimer (fst (meleeHit env e g)) = e_animTimer e"
  "e_animFrameTime (fst (meleeHit env e g)) = e_animFrameTime e"
  "player (snd (meleeHit env e g)) = player g"
  by (simp_all add: meleeHit_def Let_def)

lemma projectileHit_fields [simp]:
  "e_pos (fst (projectileHit env pj e g)) = e_pos e"
  "e_size (fst (projectileHit env pj e g)) = e_size e"
  "e_maxHP (fst (projectileHit env pj e g)) = e_maxHP e"
  "e_speed (fst (projectileHit env pj e g)) = e_speed e"
  "e_type (fst (projectileHit env pj e g)) = e_type e"
  "e_attackCooldown (fst (projectileHit env pj e g)) = e_attackCooldown e"
  "e_windingUp (fst (projectileHit env pj e g)) = e_windingUp e"
  "e_windupTimer (fst (projectileHit env pj e g)) = e_windupTimer e"
  "e_attackingAnim (fst (projectileHit env pj e g)) = e_attackingAnim e"
  "e_attackAnimTimer (fst (projectileHit env pj e g)) = e_attackAnimTimer e"
  "e_lastHitAttackId (fst (projectileHit env pj e g)) = e_lastHitAttackId e"
  "e_sprite (fst (projectileHit env pj e g)) = e_sprite e"
  "e_animFrame (fst (projectileHit env pj e g)) = e_animFrame e"
  "e_animRow (fst (projectileHit env pj e g)) = e_animRow e"
  "e_animMaxFrames (fst (projectileHit env pj e g)) = e_animMaxFrames e"
  "e_animTimer (fst (projectileHit env pj e g)) = e_animTimer e"
  "e_animFrameTime (fst (projectileHit env pj e g)) = e_animFrameTime e"
  "player (snd (projectileHit env pj e g)) = player g"
  by (simp_all add: projectileHit_def Let_def)

lemma enemyDamage_cases:
  "enemyDamage ty = (case ty of GRUNT \<Rightarrow> 6 | FAST \<Rightarrow> 8 | TANK \<Rightarrow> 13 | BOSS \<Rightarrow> 20)"
  by (cases ty) (simp_all add: enemyDamage_def)

lemma enemyDamage_third: "enemyDamage ty sdiv 3 = \<lfloor>real_of_int (enemyDamage ty) / 3\<rfloor>"
  by (cases ty) (simp_all add: enemyDamage_def signed_divide_int_def)

section \<open>The PLAYING update as a whole\<close>

lemma beforeEnemies_fields [simp]:
  "selectedClassIndex (beforeEnemies env inp dt g) = selectedClassIndex g"
  "playerClass (beforeEnemies env inp dt g) = playerClass g"
  "state (beforeEnemies env inp dt g) = (if IsKeyPressed inp KEY_TAB then SHOP else state g)"
  "cameraTarget (beforeEnemies env inp dt g) = cameraTarget g"
  "coins (beforeEnemies env inp dt g) = coins g"
  "bossDefeated (beforeEnemies env inp dt g) = bossDefeated g"
  "shopSelection (beforeEnemies env inp dt g) = shopSelection g"
  "gHitStopTimer (beforeEnemies env inp dt g) = gHitStopTimer g"
  by (simp_all add: beforeEnemies_def Let_def shopAccess_def)

lemma beforeEnemies_player_fields [simp]:
  "p_hp (player (beforeEnemies env inp dt g)) = p_hp (player g)"
  "p_maxHP (player (beforeEnemies env inp dt g)) = p_maxHP (player g)"
  "p_size (player (beforeEnemies env inp dt g)) = p_size (player g)"
  "p_coins (player (beforeEnemies env inp dt g)) = p_coins (player g)"
  "p_baseDamage (player (beforeEnemies env inp dt g)) = p_baseDamage (player g)"
  by (simp_all add: beforeEnemies_def Let_def)

lemma loops_frame:
  "loopFrame g11 (mageProjectiles env (enemyAI env dt g11))"
  by (rule loopFrame_trans [OF enemyAI_frame mageProjectiles_frame])

lemma playingUpdate_fields [simp]:
  "playerClass (playingUpdate env inp dt g) = playerClass g"
  "selectedClassIndex (playingUpdate env inp dt g) = selectedClassIndex g"
  "shopSelection (playingUpdate env inp dt g) = shopSelection g"
  "gAttackCounter (playingUpdate env inp dt g) = gAttackCounter (beforeEnemies env inp dt g)"
  "gProjectileCounter (playingUpdate env inp dt g)
     = gProjectileCounter (beforeEnemies env inp dt g)"
  "projectiles (playingUpdate env inp dt g) = projectiles (beforeEnemies env inp dt g)"
  "enemies (playingUpdate env inp dt g)
     = enemies (mageProjectiles env (enemyAI env dt (beforeEnemies env inp dt g)))"
  using loopFrame_fields [OF loops_frame [of "beforeEnemies env inp dt g" env dt]]
  by (simp_all add: playingUpdate_def Let_def)

lemma playingUpdate_player:
  "\<exists>h c. player (playingUpdate env inp dt g)
     = (player (beforeEnemies env inp dt g))\<lparr>p_hp := h, p_coins := c\<rparr>"
proof -
  let ?g11 = "beforeEnemies env inp dt g"
  let ?g13 = "mageProjectiles env (enemyAI env dt ?g11)"
  from loopFrame_fields(10) [OF loops_frame [of ?g11 env dt], where h = "p_hp (player ?g13)"]
  have a: "player ?g13 = (player ?g11)\<lparr>p_hp := p_hp (player ?g13)\<rparr>" by simp
  obtain c where c: "player (coinsUpdate env ?g13) = (player ?g13)\<lparr>p_coins := c\<rparr>"
    using coinsUpdate_player by blast
  have "player (playingUpdate env inp dt g) = player (coinsUpdate env ?g13)"
    by (simp add: playingUpdate_def Let_def)
  with a c have "player (playingUpdate env inp dt g)
      = (player ?g11)\<lparr>p_hp := p_hp (player ?g13), p_coins := c\<rparr>"
    by simp
  then show ?thesis by blast
qed

lemma hitStopTick_fields [simp]:
  "selectedClassIndex (hitStopTick inp g) = selectedClassIndex g"
  "player (hitStopTick inp g) = player g"
  "playerClass (hitStopTick inp g) = playerClass g"
  "state (hitStopTick inp g) = state g"
  "cameraTarget (hitStopTick inp g) = cameraTarget g"
  "enemies (hitStopTick inp g) = enemies g"
  "coins (hitStopTick inp g) = coins g"
  "projectiles (hitStopTick inp g) = projectiles g"
  "bossSpawned (hitStopTick inp g) = bossSpawned g"
  "bossDefeated (hitStopTick inp g) = bossDefeated g"
  "enemySpawnTimer (hitStopTick inp g) = enemySpawnTimer g"
  "shopSelection (hitStopTick inp g) = shopSelection g"
  "gAttackCounter (hitStopTick inp g) = gAttackCounter g"
  "gProjectileCounter (hitStopTick inp g) = gProjectileCounter g"
  "randCalls (hitStopTick inp g) = randCalls g"
  by (simp_all add: hitStopTick_def Let_def)

text \<open>The simulation delta of a frame is at most the clamp of the frame time.\<close>

lemma gameDtOf_le: "gameDtOf inp g \<le> 0.05"
  by (simp add: gameDtOf_def realDt_def)

section \<open>Spawning\<close>

lemma MakeEnemy_fields [simp]:
  "e_alive (MakeEnemy ty x y)" "0 < e_hp (MakeEnemy ty x y)"
  "e_pos (MakeEnemy ty x y) = \<lparr>v_x = x, v_y = y\<rparr>" "e_type (MakeEnemy ty x y) = ty"
  by (cases ty; simp add: MakeEnemy_def)+

text \<open>The enemies the frame adds come after those that were there.\<close>

lemma enemySpawning_enemies:
  "\<exists>new. enemies (enemySpawning env dt g) = enemies g @ new \<and> (\<forall>e\<in>set new. freshEnemy env e)"
proof (cases "enemySpawnTimer g + dt > 3 \<and> \<not> bossSpawned g")
  case True
  then show ?thesis
    by (simp add: enemySpawning_def Let_def freshEnemy_def)
next
  case False
  then have "enemies (enemySpawning env dt g) = enemies g @ []"
    by (auto simp: enemySpawning_def Let_def)
  then show ?thesis by (intro exI [of _ "[]"]) simp
qed

lemma bossSpawn_enemies:
  "\<exists>new. enemies (bossSpawn g) = enemies g @ new \<and> (\<forall>e\<in>set new. freshEnemy env e)"
proof (cases "\<not> bossSpawned g \<and> v_x (p_pos (player g)) > 3000 - 600")
  case True
  then show ?thesis
    by (simp add: bossSpawn_def freshEnemy_def)
next
  case False
  then have "enemies (bossSpawn g) = enemies g @ []"
    by (auto simp: bossSpawn_def)
  then show ?thesis by (intro exI [of _ "[]"]) simp
qed

lemma beforeEnemies_enemies:
  "\<exists>new. enemies (beforeEnemies env inp dt g) = enemies g @ new
     \<and> (\<forall>e\<in>set new. freshEnemy env e)"
proof -
  let ?g8 = "onPlayer (playerAnimation env (moveVector inp (player g)) dt)
     (onPlayer (attackTick dt) (attackStart inp (onPlayer (comboTick dt)
       (onPlayer (abilities inp dt (playerClass g)) (onPlayer (abilityTimers dt)
         (shopAccess inp (onPlayer (playerMovement inp dt) g)))))))"
  have e: "enemies (beforeEnemies env inp dt g) = enemies (bossSpawn (enemySpawning env dt ?g8))"
    by (simp add: beforeEnemies_def Let_def)
  have e8: "enemies ?g8 = enemies g" by simp
  obtain n1 where n1: "enemies (enemySpawning env dt ?g8) = enemies ?g8 @ n1"
      "\<forall>e\<in>set n1. freshEnemy env e"
    using enemySpawning_enemies by blast
  obtain n2 where n2: "enemies (bossSpawn (enemySpawning env dt ?g8))
        = enemies (enemySpawning env dt ?g8) @ n2" "\<forall>e\<in>set n2. freshEnemy env e"
    using bossSpawn_enemies by blast
  have "enemies (beforeEnemies env inp dt g) = enemies g @ (n1 @ n2)"
    by (simp only: e n2(1) n1(1) e8 append_assoc)
  moreover have "\<forall>e\<in>set (n1 @ n2). freshEnemy env e"
    using n1(2) n2(2) by auto
  ultimately show ?thesis by blast
qed

section \<open>Both loops together, and the player's hit points\<close>

lemma loops_all2:
  assumes body: "\<And>e g1. P e (fst (enemyBody env dt e g1))"
    and hit: "\<And>pj e g1. P e (fst (projectileHit env pj e g1))"
    and refl: "\<And>e. P e e"
    and trans: "\<And>a b c. P a b \<Longrightarrow> P b c \<Longrightarrow> P a c"
  shows "list_all2 P (enemies g) (enemies (mageProjectiles env (enemyAI env dt g)))"
proof -
  have a: "list_all2 P (enemies g) (enemies (enemyAI env dt g))"
    unfolding enemyAI_enemies by (rule enemyLoop_all2) (rule body)
  have b: "list_all2 P (enemies (enemyAI env dt g))
      (enemies (mageProjectiles env (enemyAI env dt g)))"
  proof (cases "playerClass (enemyAI env dt g) = MAGE")
    case True
    show ?thesis
      unfolding mageProjectiles_enemies
      by (simp add: True) (rule projectileLoop_all2 [of P, OF hit refl trans])
  next
    case False
    then show ?thesis
      unfolding mageProjectiles_enemies by (simp add: list_all2_refl refl)
  qed
  show ?thesis
    by (rule list_all2_trans [OF _ a b]) (rule trans)
qed

lemma loops_inv:
  assumes body: "\<And>e g1. I g1 \<Longrightarrow> I (snd (enemyBody env dt e g1))"
    and hit: "\<And>pj e g1. I g1 \<Longrightarrow> I (snd (projectileHit env pj e g1))"
    and upd: "\<And>g1 es. I g1 \<Longrightarrow> I (g1\<lparr>enemies := es\<rparr>)"
    and init: "I g"
  shows "I (mageProjectiles env (enemyAI env dt g))"
proof -
  have a: "I (enemyAI env dt g)"
    unfolding enemyAI_def split_beta Let_def
    by (rule upd) (rule enemyLoop_inv [of I, OF body init])
  show ?thesis
  proof (cases "playerClass (enemyAI env dt g) = MAGE")
    case True
    have "I (snd (projectileLoop env (projectiles (enemyAI env dt g))
        (enemies (enemyAI env dt g)) (enemyAI env dt g)))"
      by (rule projectileLoop_inv [of I, OF hit a])
    then show ?thesis
      unfolding mageProjectiles_def split_beta Let_def by (simp add: True upd)
  next
    case False
    with a show ?thesis by (simp add: mageProjectiles_def)
  qed
qed

text \<open>Hit points of the player.\<close>

lemma damagePlayer_hpInRange: "hpInRange g \<Longrightarrow> hpInRange (damagePlayer d g)"
  by (auto simp: hpInRange_def damagePlayer_def Let_def)

lemma enemyWindupResolve_hpInRange:
  "hpInRange g \<Longrightarrow> hpInRange (snd (enemyWindupResolve env dt e g))"
  by (simp add: enemyWindupResolve_def Let_def damagePlayer_hpInRange)

lemma meleeHit_hpInRange: "hpInRange (snd (meleeHit env e g)) = hpInRange g"
  by (simp add: hpInRange_def)

lemma projectileHit_hpInRange: "hpInRange (snd (projectileHit env pj e g)) = hpInRange g"
  by (simp add: hpInRange_def)

lemma enemyBody_hpInRange: "hpInRange g \<Longrightarrow> hpInRange (snd (enemyBody env dt e g))"
  by (simp add: enemyBody_def Let_def split_beta meleeHit_hpInRange
      enemyWindupResolve_hpInRange)

lemma loops_hpInRange:
  "hpInRange g \<Longrightarrow> hpInRange (mageProjectiles env (enemyAI env dt g))"
  by (rule loops_inv [of hpInRange])
    (simp_all add: enemyBody_hpInRange projectileHit_hpInRange, simp add: hpInRange_def)

lemma playingUpdate_hp:
  "p_hp (player (playingUpdate env inp dt g))
     = p_hp (player (mageProjectiles env (enemyAI env dt (beforeEnemies env inp dt g))))"
  "p_maxHP (player (playingUpdate env inp dt g)) = p_maxHP (player g)"
proof -
  let ?g13 = "mageProjectiles env (enemyAI env dt (beforeEnemies env inp dt g))"
  obtain c where c: "player (coinsUpdate env ?g13) = (player ?g13)\<lparr>p_coins := c\<rparr>"
    using coinsUpdate_player by blast
  have p: "player (playingUpdate env inp dt g) = player (coinsUpdate env ?g13)"
    by (simp add: playingUpdate_def Let_def)
  show "p_hp (player (playingUpdate env inp dt g)) = p_hp (player ?g13)"
    by (simp add: p c)
  have "p_maxHP (player ?g13) = p_maxHP (player (beforeEnemies env inp dt g))"
    by (rule loopFrame_player(8) [OF loops_frame])
  then show "p_maxHP (player (playingUpdate env inp dt g)) = p_maxHP (player g)"
    by (simp add: p c)
qed

lemma playingUpdate_hpInRange:
  assumes "hpInRange g"
  shows "hpInRange (playingUpdate env inp dt g)"
proof -
  have "hpInRange (beforeEnemies env inp dt g)"
    using assms by (simp add: hpInRange_def)
  then have a: "hpInRange (mageProjectiles env (enemyAI env dt (beforeEnemies env inp dt g)))"
    by (rule loops_hpInRange)
  have "p_maxHP (player (mageProjectiles env (enemyAI env dt (beforeEnemies env inp dt g))))
      = p_maxHP (player (beforeEnemies env inp dt g))"
    by (rule loopFrame_player(8) [OF loops_frame])
  with a show ?thesis
    by (simp add: hpInRange_def playingUpdate_hp)
qed

section \<open>Every frame returns\<close>

text \<open>
  The model returns \<^verbatim>\<open>None\<close> only where the program would read a table out of
  bounds.  The class index stays within the three classes and the shop selection
  within the three upgrades, from the state the program starts in and across every
  frame, so every frame of a run returns a state.
\<close>

lemma ResetGame_total:
  assumes "0 \<le> selectedClassIndex g" "selectedClassIndex g < 3"
  shows "\<exists>g'. ResetGame g = Some g' \<and> selectedClassIndex g' = selectedClassIndex g
     \<and> shopSelection g' = shopSelection g"
  using assms by (simp add: ResetGame_def classAt_def classes_def Let_def)

lemma menu_index:
  assumes "0 \<le> i" "i < 3"
  shows "0 \<le> (i + 1) smod 3 \<and> (i + 1) smod 3 < (3::int)"
proof -
  from assms have "i = 0 \<or> i = 1 \<or> i = 2" by arith
  then show ?thesis by (auto simp: signed_modulo_int_def)
qed

lemma frame_total:
  assumes ok: "indicesOk g"
  shows "\<exists>g'. frame env inp g = Some g' \<and> indicesOk g'"
proof (cases "state g")
  case PLAYING
  with ok show ?thesis
    by (simp add: frame_def Let_def indicesOk_def)
next
  case SHOP
  from ok have r: "0 \<le> shopNav inp (shopSelection g) \<and> shopNav inp (shopSelection g) \<le> 2"
    by (simp add: indicesOk_def shopNav_range)
  then have "shopNav inp (shopSelection g) = 0 \<or> shopNav inp (shopSelection g) = 1
      \<or> shopNav inp (shopSelection g) = 2" by arith
  then have b: "baseCost (shopNav inp (shopSelection g)) = Some 5" by (rule baseCost_tracks)
  from SHOP ok r show ?thesis
    by (simp add: frame_def Let_def shopUpdate_def GetUpgradeCost_def b indicesOk_def)
next
  case MENU
  let ?g1 = "hitStopTick inp g"
  let ?i1 = "if IsKeyPressed inp KEY_RIGHT then (selectedClassIndex g + 1) smod 3
             else selectedClassIndex g"
  let ?i2 = "if IsKeyPressed inp KEY_LEFT then (if ?i1 - 1 < 0 then 2 else ?i1 - 1) else ?i1"
  from ok have i1: "0 \<le> ?i1 \<and> ?i1 < 3"
    using menu_index [of "selectedClassIndex g"] by (simp add: indicesOk_def)
  then have i2: "0 \<le> ?i2 \<and> ?i2 < 3" by auto
  have m: "menuUpdate inp ?g1 =
      (if IsKeyPressed inp KEY_ENTER
       then map_option (\<lambda>g2. g2\<lparr>state := PLAYING\<rparr>) (ResetGame (?g1\<lparr>selectedClassIndex := ?i2\<rparr>))
       else Some (?g1\<lparr>selectedClassIndex := ?i2\<rparr>))"
    by (simp add: menuUpdate_def Let_def classes_def)
  from i2 ResetGame_total [of "?g1\<lparr>selectedClassIndex := ?i2\<rparr>"]
  obtain g2 where g2: "ResetGame (?g1\<lparr>selectedClassIndex := ?i2\<rparr>) = Some g2"
      "selectedClassIndex g2 = ?i2" "shopSelection g2 = shopSelection g"
    by auto
  from MENU have f: "frame env inp g = menuUpdate inp ?g1"
    by (simp add: frame_def Let_def)
  show ?thesis
  proof (cases "IsKeyPressed inp KEY_ENTER")
    case True
    then have "frame env inp g = Some (g2\<lparr>state := PLAYING\<rparr>)"
      by (simp only: f m g2(1) if_True option.map)
    moreover have "indicesOk (g2\<lparr>state := PLAYING\<rparr>)"
      using i2 ok g2 by (simp add: indicesOk_def)
    ultimately show ?thesis by blast
  next
    case False
    then have "frame env inp g = Some (?g1\<lparr>selectedClassIndex := ?i2\<rparr>)"
      by (simp only: f m if_False)
    moreover have "indicesOk (?g1\<lparr>selectedClassIndex := ?i2\<rparr>)"
      using i2 ok by (simp add: indicesOk_def)
    ultimately show ?thesis by blast
  qed
next
  case GAMEOVER
  from ok ResetGame_total [of "hitStopTick inp g"]
  obtain g2 where "ResetGame (hitStopTick inp g) = Some g2"
      "selectedClassIndex g2 = selectedClassIndex g" "shopSelection g2 = shopSelection g"
    by (auto simp: indicesOk_def)
  with GAMEOVER ok show ?thesis
    by (simp add: frame_def Let_def restartUpdate_def indicesOk_def)
next
  case VICTORY
  from ok ResetGame_total [of "hitStopTick inp g"]
  obtain g2 where "ResetGame (hitStopTick inp g) = Some g2"
      "selectedClassIndex g2 = selectedClassIndex g" "shopSelection g2 = shopSelection g"
    by (auto simp: indicesOk_def)
  with VICTORY ok show ?thesis
    by (simp add: frame_def Let_def restartUpdate_def indicesOk_def)
qed

lemma frames_total:
  "indicesOk g \<Longrightarrow> \<exists>gs. frames env inps g = Some gs \<and> length gs = length inps"
proof (induction inps arbitrary: g)
  case Nil
  show ?case by simp
next
  case (Cons inp inps)
  from frame_total [OF Cons.prems] obtain g' where g': "frame env inp g = Some g'" "indicesOk g'"
    by blast
  from Cons.IH [OF g'(2)] obtain gs where "frames env inps g' = Some gs" "length gs = length inps"
    by blast
  with g'(1) show ?case by simp
qed

lemma initialGame_ok: "\<exists>g. initialGame = Some g \<and> indicesOk g \<and> state g = MENU"
  by (simp add: reset_defs Let_def indicesOk_def)

section \<open>The enemy's attack\<close>

text \<open>
  C8.  An enemy that is alive and winding up, and whose windup runs out in this frame,
  strikes if its rectangle still overlaps the player's.  The damage by type is 6, 8, 13
  or 20; what is applied is 0 when the player is invincible, whatever the block state,
  else the floor of a third of the damage when a KNIGHT is blocking, else all of it,
  and a positive damage is taken off the player's HP, which stops at 0.  Hit, mitigated
  or missed, the enemy ends its turn of the loop in the attack animation (0.22 s, of
  which this frame's delta has passed), no longer winding up, with the cooldown set to
  1.1 s.  The delta is at most 0.05, as the delta of every frame is (\<open>gameDtOf_le\<close>).
\<close>

theorem enemy_attack_resolution:
  assumes alive: "e_alive e" and winding: "e_windingUp e"
    and expiry: "e_windupTimer e \<le> gameDt" and dt: "gameDt \<le> 0.05"
  shows "let p = player g;
             dmg = (case e_type e of GRUNT \<Rightarrow> 6 | FAST \<Rightarrow> 8 | TANK \<Rightarrow> 13 | BOSS \<Rightarrow> 20);
             applied = (if p_invincible p then 0
                        else if p_blocking p \<and> playerClass g = KNIGHT
                        then \<lfloor>real_of_int dmg / 3\<rfloor> else dmg);
             overlapping = RectOverlap env (MakeRect (e_pos e) (e_size e))
                             (MakeRect (p_pos p) (p_size p));
             (e', g') = enemyBody env gameDt e g
         in p_hp (player g') = (if overlapping \<and> 0 < applied then max 0 (p_hp p - applied)
                                else p_hp p)
          \<and> \<not> e_windingUp e' \<and> e_attackingAnim e' \<and> e_attackAnimTimer e' = 0.22 - gameDt
          \<and> e_attackCooldown e' = 1.1"
proof -
  let ?e3 = "enemyWindupStart env (player g) (enemyCooldown gameDt (enemyMove gameDt (player g) e))"
  have e3: "?e3 = e\<lparr>e_attackCooldown := (if e_attackCooldown e - gameDt < 0 then 0
                                              else e_attackCooldown e - gameDt)\<rparr>"
    using winding by (simp add: enemyMove_def enemyCooldown_def enemyWindupStart_def Let_def)
  let ?r = "enemyWindupResolve env gameDt ?e3 g"
  have hp: "p_hp (player (snd ?r)) =
      (if RectOverlap env (MakeRect (e_pos e) (e_size e))
            (MakeRect (p_pos (player g)) (p_size (player g)))
          \<and> 0 < finalDamage (playerClass g) (player g) (enemyDamage (e_type e))
       then max 0 (p_hp (player g) - finalDamage (playerClass g) (player g) (enemyDamage (e_type e)))
       else p_hp (player g))"
    using winding expiry
    by (simp add: e3 enemyWindupResolve_def Let_def damagePlayer_def max_def)
  have en: "\<not> e_windingUp (fst ?r) \<and> e_attackingAnim (fst ?r)
      \<and> e_attackAnimTimer (fst ?r) = 0.22 \<and> e_attackCooldown (fst ?r) = 1.1"
    using winding expiry by (simp add: e3 enemyWindupResolve_def Let_def)
  let ?e5 = "enemyAttackAnim gameDt (fst ?r)"
  have e5: "\<not> e_windingUp ?e5 \<and> e_attackingAnim ?e5
      \<and> e_attackAnimTimer ?e5 = 0.22 - gameDt \<and> e_attackCooldown ?e5 = 1.1"
    using en dt by (simp add: enemyAttackAnim_def Let_def)
  have fd: "finalDamage (playerClass g) (player g) (enemyDamage (e_type e)) =
      (if p_invincible (player g) then 0
       else if p_blocking (player g) \<and> playerClass g = KNIGHT
       then \<lfloor>real_of_int (enemyDamage (e_type e)) / 3\<rfloor> else enemyDamage (e_type e))"
    by (simp add: finalDamage_def enemyDamage_third)
  show ?thesis
    using alive hp e5
    by (simp add: enemyBody_def Let_def split_beta fd enemyDamage_cases [symmetric])
qed

theorem enemy_attack_resolution_witness:
  "e_alive tankStrike \<and> e_windingUp tankStrike \<and> e_windupTimer tankStrike \<le> 1 / 60
   \<and> (1 / 60 :: real) \<le> 0.05
   \<and> p_hp (player blockingKnight) = 170
   \<and> p_hp (player (snd (enemyBody rlEnv (1 / 60) tankStrike blockingKnight))) = 166
   \<and> e_attackingAnim (fst (enemyBody rlEnv (1 / 60) tankStrike blockingKnight))
   \<and> e_attackCooldown (fst (enemyBody rlEnv (1 / 60) tankStrike blockingKnight)) = 1.1"
proof -
  have h: "e_alive tankStrike" "e_windingUp tankStrike" "e_windupTimer tankStrike \<le> 1 / 60"
    "(1 / 60 :: real) \<le> 0.05"
    by (simp_all add: tankStrike_def MakeEnemy_def)
  show ?thesis
    using h enemy_attack_resolution [OF h, of blockingKnight rlEnv]
    by (simp add: Let_def split_beta tankStrike_def blockingKnight_def reset_defs MakeEnemy_def
        MakeRect_def RectOverlap_def rlEnv_def rlCheckCollisionRecs_def)
qed

section \<open>Hit-stop\<close>






section \<open>Attack-instance ids\<close>

lemma attackStart_ids:
  "gAttackCounter (attackStart inp g)
     = (if \<not> p_attacking (player g) \<and> IsKeyPressed inp KEY_J \<and> playerClass g \<noteq> MAGE
        then gAttackCounter g + 1 else gAttackCounter g)"
  "p_currentAttackId (player (attackStart inp g))
     = (if \<not> p_attacking (player g) \<and> IsKeyPressed inp KEY_J \<and> playerClass g \<noteq> MAGE
        then gAttackCounter g + 1 else p_currentAttackId (player g))"
  by (cases "playerClass g"; simp add: attackStart_def Let_def split_beta)+

lemma beforeEnemies_ids:
  "gAttackCounter (beforeEnemies env inp dt g)
     = (if \<not> p_attacking (player g) \<and> IsKeyPressed inp KEY_J \<and> playerClass g \<noteq> MAGE
        then gAttackCounter g + 1 else gAttackCounter g)"
  "p_currentAttackId (player (beforeEnemies env inp dt g))
     = (if \<not> p_attacking (player g) \<and> IsKeyPressed inp KEY_J \<and> playerClass g \<noteq> MAGE
        then gAttackCounter g + 1 else p_currentAttackId (player g))"
  by (simp_all add: beforeEnemies_def Let_def attackStart_ids)

lemma playingUpdate_ids:
  "gAttackCounter (playingUpdate env inp dt g)
     = (if \<not> p_attacking (player g) \<and> IsKeyPressed inp KEY_J \<and> playerClass g \<noteq> MAGE
        then gAttackCounter g + 1 else gAttackCounter g)"
  "p_currentAttackId (player (playingUpdate env inp dt g))
     = (if \<not> p_attacking (player g) \<and> IsKeyPressed inp KEY_J \<and> playerClass g \<noteq> MAGE
        then gAttackCounter g + 1 else p_currentAttackId (player g))"
proof -
  obtain h c where p: "player (playingUpdate env inp dt g)
      = (player (beforeEnemies env inp dt g))\<lparr>p_hp := h, p_coins := c\<rparr>"
    using playingUpdate_player by blast
  show "gAttackCounter (playingUpdate env inp dt g)
     = (if \<not> p_attacking (player g) \<and> IsKeyPressed inp KEY_J \<and> playerClass g \<noteq> MAGE
        then gAttackCounter g + 1 else gAttackCounter g)"
    by (simp add: beforeEnemies_ids)
  show "p_currentAttackId (player (playingUpdate env inp dt g))
     = (if \<not> p_attacking (player g) \<and> IsKeyPressed inp KEY_J \<and> playerClass g \<noteq> MAGE
        then gAttackCounter g + 1 else p_currentAttackId (player g))"
    by (simp add: p beforeEnemies_ids)
qed

lemma ResetGame_ids:
  assumes "ResetGame g = Some g'"
  shows "gAttackCounter g' = 0" "p_currentAttackId (player g') = - 1"
  using assms
  by (auto simp: ResetGame_def Let_def split: option.splits PlayerClass.splits)

lemma frame_attack_ids:
  assumes fr: "frame env inp g = Some g'"
    and inv: "p_currentAttackId (player g) \<le> gAttackCounter g"
  shows "p_currentAttackId (player g') \<le> gAttackCounter g'
    \<and> (if (state g = MENU \<or> state g = GAMEOVER \<or> state g = VICTORY)
            \<and> IsKeyPressed inp KEY_ENTER
         then gAttackCounter g' = 0 \<and> p_currentAttackId (player g') = - 1
         else if state g = PLAYING \<and> \<not> p_attacking (player g) \<and> IsKeyPressed inp KEY_J
                 \<and> playerClass g \<noteq> MAGE
         then gAttackCounter g' = gAttackCounter g + 1
              \<and> p_currentAttackId (player g') = gAttackCounter g + 1
              \<and> p_currentAttackId (player g) < p_currentAttackId (player g')
         else gAttackCounter g' = gAttackCounter g
              \<and> p_currentAttackId (player g') = p_currentAttackId (player g))"
proof (cases "state g")
  case PLAYING
  with fr have g': "g' = playingUpdate env inp (gameDtOf inp g) (hitStopTick inp g)"
    by (simp add: frame_def Let_def)
  show ?thesis
    using inv PLAYING by (simp add: g' playingUpdate_ids beforeEnemies_ids)
next
  case SHOP
  with fr inv show ?thesis
    by (auto simp: frame_def Let_def shopUpdate_def ApplyUpgrade_def
        split: option.splits if_splits)
next
  case MENU
  show ?thesis
  proof (cases "IsKeyPressed inp KEY_ENTER")
    case True
    with fr MENU have "gAttackCounter g' = 0 \<and> p_currentAttackId (player g') = - 1"
      by (auto simp: frame_def Let_def menuUpdate_def dest: ResetGame_ids)
    with True MENU show ?thesis by simp
  next
    case False
    with fr MENU inv show ?thesis
      by (auto simp: frame_def Let_def menuUpdate_def)
  qed
next
  case GAMEOVER
  show ?thesis
  proof (cases "IsKeyPressed inp KEY_ENTER")
    case True
    with fr GAMEOVER have "gAttackCounter g' = 0 \<and> p_currentAttackId (player g') = - 1"
      by (auto simp: frame_def Let_def restartUpdate_def dest: ResetGame_ids)
    with True GAMEOVER show ?thesis by simp
  next
    case False
    with fr GAMEOVER inv show ?thesis
      by (auto simp: frame_def Let_def restartUpdate_def)
  qed
next
  case VICTORY
  show ?thesis
  proof (cases "IsKeyPressed inp KEY_ENTER")
    case True
    with fr VICTORY have "gAttackCounter g' = 0 \<and> p_currentAttackId (player g') = - 1"
      by (auto simp: frame_def Let_def restartUpdate_def dest: ResetGame_ids)
    with True VICTORY show ?thesis by simp
  next
    case False
    with fr VICTORY inv show ?thesis
      by (auto simp: frame_def Let_def restartUpdate_def)
  qed
qed

text \<open>
  C4, as the code has it.  Start anywhere with the player's current attack id no
  larger than the counter, as it is when the loop starts and after every frame, and
  run any frames.  The melee attack ids issued on the attack-input edges up to the
  first restart are strictly increasing, each of them larger than the counter was at
  the start, so none is issued twice within the session.  A frame that restarts the
  session (ENTER in MENU, GAMEOVER or VICTORY) sets the counter to 0 and the current
  id to -1, so the ids of the next session start again from 1; and a frame that
  issues an id takes the counter plus one.
\<close>

theorem attack_ids_within_session:
  assumes inv: "p_currentAttackId (player g) \<le> gAttackCounter g"
  shows "sorted_wrt (<) (issued env inps g)
    \<and> (\<forall>k\<in>set (issued env inps g). gAttackCounter g < k)
    \<and> (\<forall>inp g'. frame env inp g = Some g' \<and> resets inp g
           \<longrightarrow> gAttackCounter g' = 0 \<and> p_currentAttackId (player g') = - 1)
    \<and> (\<forall>inp g'. frame env inp g = Some g' \<and> issues inp g
           \<longrightarrow> p_currentAttackId (player g') = gAttackCounter g + 1
               \<and> gAttackCounter g' = gAttackCounter g + 1)"
proof (intro conjI)
  show "\<forall>inp g'. frame env inp g = Some g' \<and> resets inp g
           \<longrightarrow> gAttackCounter g' = 0 \<and> p_currentAttackId (player g') = - 1"
    using frame_attack_ids [OF _ inv] by (auto simp: resets_def)
  show "\<forall>inp g'. frame env inp g = Some g' \<and> issues inp g
           \<longrightarrow> p_currentAttackId (player g') = gAttackCounter g + 1
               \<and> gAttackCounter g' = gAttackCounter g + 1"
    using frame_attack_ids [OF _ inv] by (auto simp: issues_def)
  have "sorted_wrt (<) (issued env inps g) \<and> (\<forall>k\<in>set (issued env inps g). gAttackCounter g < k)"
    using inv
  proof (induction inps arbitrary: g)
    case Nil
    show ?case by simp
  next
    case (Cons inp inps)
    show ?case
    proof (cases "resets inp g \<or> frame env inp g = None")
      case True
      then show ?thesis by auto
    next
      case False
      then obtain g' where g': "frame env inp g = Some g'" and nr: "\<not> resets inp g"
        by auto
      from frame_attack_ids [OF g' Cons.prems] nr
      have inv': "p_currentAttackId (player g') \<le> gAttackCounter g'"
        and step: "if issues inp g
          then gAttackCounter g' = gAttackCounter g + 1
               \<and> p_currentAttackId (player g') = gAttackCounter g + 1
          else gAttackCounter g' = gAttackCounter g"
        by (auto simp: resets_def issues_def split: if_splits)
      from Cons.IH [OF inv'] have ih: "sorted_wrt (<) (issued env inps g')"
          "\<forall>k\<in>set (issued env inps g'). gAttackCounter g' < k"
        by simp_all
      show ?thesis
      proof (cases "issues inp g")
        case True
        with step ih g' nr show ?thesis by auto
      next
        case False
        with step ih g' nr show ?thesis by auto
      qed
    qed
  qed
  then show "sorted_wrt (<) (issued env inps g)"
    and "\<forall>k\<in>set (issued env inps g). gAttackCounter g < k"
    by simp_all
qed

theorem attack_ids_within_session_witness:
  "p_currentAttackId (player dyingKnight) \<le> gAttackCounter dyingKnight
   \<and> gAttackCounter dyingKnight = 0
   \<and> issues (pressing [KEY_J]) dyingKnight
   \<and> frame rlEnv (pressing [KEY_J]) dyingKnight = Some lastSwing
   \<and> issued rlEnv [pressing [KEY_J], pressing [KEY_ENTER], pressing [KEY_J]] dyingKnight = [1]
   \<and> p_currentAttackId (player lastSwing) = 1 \<and> gAttackCounter lastSwing = 1"
proof -
  have f: "frame rlEnv (pressing [KEY_J]) dyingKnight = Some lastSwing"
    by (simp add: lastSwing_def frame_def Let_def dyingKnight_def)
  have i: "p_currentAttackId (player dyingKnight) \<le> gAttackCounter dyingKnight"
    by (simp add: dyingKnight_def reset_defs Let_def)
  have s: "issues (pressing [KEY_J]) dyingKnight" "gAttackCounter dyingKnight = 0"
    "\<not> resets (pressing [KEY_J]) dyingKnight"
    by (simp_all add: issues_def resets_def dyingKnight_def reset_defs Let_def pressing_def)
  have r: "resets (pressing [KEY_ENTER]) lastSwing"
    by (simp add: resets_def lastSwing_def dyingKnight_def eval_defs
        cong: let_weak_cong prod.case_cong_weak)
  from attack_ids_within_session [OF i, of rlEnv "[pressing [KEY_J]]"] f s
  have k: "p_currentAttackId (player lastSwing) = 1 \<and> gAttackCounter lastSwing = 1"
    by auto
  have "issued rlEnv [pressing [KEY_J], pressing [KEY_ENTER], pressing [KEY_J]] dyingKnight
      = [1]"
    using f s r k by simp
  with f i s k show ?thesis by simp
qed

text \<open>
  The claim as stated fails across a restart: the swing of the dying knight gets id 1,
  and so does the first swing of the next session.
\<close>

theorem attack_id_reused_after_restart:
  "state dyingKnight = PLAYING \<and> p_currentAttackId (player lastSwing) = 1
   \<and> state lastSwing = GAMEOVER \<and> state restarted = PLAYING
   \<and> p_currentAttackId (player firstSwing) = 1"
  by (simp add: firstSwing_def restarted_def lastSwing_def dyingKnight_def eval_defs
      cong: let_weak_cong prod.case_cong_weak)

section \<open>Hit points and death\<close>

lemma deathRule_refl: "deathRule e e"
  by (simp add: deathRule_def)

lemma deathRule_trans: "deathRule a b \<Longrightarrow> deathRule b c \<Longrightarrow> deathRule a c"
  by (auto simp: deathRule_def)

lemma meleeHit_alive:
  "e_alive (fst (meleeHit env e g)) \<Longrightarrow> e_alive e \<and> (0 < e_hp e \<longrightarrow> 0 < e_hp (fst (meleeHit env e g)))"
  by (auto simp: meleeHit_def Let_def split: if_splits)

lemma projectileHit_deathRule: "deathRule e (fst (projectileHit env pj e g))"
  by (auto simp: deathRule_def projectileHit_def Let_def)

lemma enemyBody_deathRule: "deathRule e (fst (enemyBody env dt e g))"
proof (cases "e_alive e")
  case False
  then show ?thesis by (simp add: deathRule_def enemyBody_def)
next
  case True
  let ?e6 = "enemyAnimation env dt (enemyAttackAnim dt (fst (enemyWindupResolve env dt
      (enemyWindupStart env (player g) (enemyCooldown dt (enemyMove dt (player g) e))) g)))"
  let ?g1 = "snd (enemyWindupResolve env dt
      (enemyWindupStart env (player g) (enemyCooldown dt (enemyMove dt (player g) e))) g)"
  have b: "fst (enemyBody env dt e g) = fst (meleeHit env ?e6 ?g1)"
    using True by (simp add: enemyBody_def Let_def split_beta)
  have h: "e_hp ?e6 = e_hp e" by simp
  from meleeHit_alive [of env ?e6 ?g1] show ?thesis
    using True by (auto simp: deathRule_def b h)
qed

lemma loops_deathRule:
  "list_all2 deathRule (enemies g) (enemies (mageProjectiles env (enemyAI env dt g)))"
proof (rule loops_all2 [of deathRule])
  show "deathRule e (fst (enemyBody env dt e g1))" for e g1
    by (rule enemyBody_deathRule)
  show "deathRule e (fst (projectileHit env pj e g1))" for pj e g1
    by (rule projectileHit_deathRule)
  show "deathRule e e" for e
    by (rule deathRule_refl)
  show "deathRule a b \<Longrightarrow> deathRule b c \<Longrightarrow> deathRule a c" for a b c
    by (rule deathRule_trans)
qed

lemma ResetGame_hpInRange:
  assumes "ResetGame g = Some g'"
  shows "hpInRange g'" "enemies g' = []"
proof -
  from assms obtain cc where cc: "classAt (selectedClassIndex g) = Some cc"
    by (auto simp: ResetGame_def split: option.splits)
  then have "cc \<in> set classes"
    by (auto simp: classAt_def split: if_splits)
  then have m: "0 \<le> cc_maxHP cc"
    by (auto simp: classes_def)
  from assms cc m show "hpInRange g'" "enemies g' = []"
    by (auto simp: ResetGame_def Let_def hpInRange_def split: PlayerClass.splits)
qed

lemma playing_deathRule:
  "\<exists>new. (\<forall>e\<in>set new. freshEnemy env e)
     \<and> list_all2 deathRule (enemies g @ new) (enemies (playingUpdate env inp dt g))"
proof -
  obtain new where n: "enemies (beforeEnemies env inp dt g) = enemies g @ new"
      "\<forall>e\<in>set new. freshEnemy env e"
    using beforeEnemies_enemies by blast
  have "list_all2 deathRule (enemies (beforeEnemies env inp dt g))
      (enemies (playingUpdate env inp dt g))"
    by (simp add: loops_deathRule)
  with n show ?thesis by auto
qed

text \<open>
  C6, as the code has it.  The player's hit points are clamped at 0 where damage is
  applied and never exceed the maximum: every frame keeps them within 0 and
  \<^verbatim>\<open>maxHP\<close>.  An enemy's hit points are not clamped (the blow that kills may leave
  them negative), but an enemy is marked dead in the very step in which they reach 0
  or less, so an enemy that is alive has positive hit points; and a dead enemy is
  skipped by the enemy loop and by the projectile loop, so a frame leaves it exactly
  as it was: no further damage, no second death.
\<close>

theorem hit_points_and_death:
  assumes fr: "frame env inp g = Some g'"
    and hp: "0 \<le> p_hp (player g) \<and> p_hp (player g) \<le> p_maxHP (player g)"
    and al: "\<forall>e\<in>set (enemies g). e_alive e \<longrightarrow> 0 < e_hp e"
  shows "0 \<le> p_hp (player g') \<and> p_hp (player g') \<le> p_maxHP (player g')
    \<and> (\<forall>e\<in>set (enemies g'). e_alive e \<longrightarrow> 0 < e_hp e)
    \<and> (\<forall>i. i < length (enemies g') \<and> i < length (enemies g) \<and> \<not> e_alive (enemies g ! i)
           \<longrightarrow> enemies g' ! i = enemies g ! i)"
proof (cases "state g = PLAYING")
  case True
  let ?g1 = "hitStopTick inp g"
  from fr True have g': "g' = playingUpdate env inp (gameDtOf inp g) ?g1"
    by (simp add: frame_def Let_def)
  have "hpInRange ?g1" using hp by (simp add: hpInRange_def)
  then have "hpInRange g'"
    unfolding g' by (rule playingUpdate_hpInRange)
  then have p: "0 \<le> p_hp (player g') \<and> p_hp (player g') \<le> p_maxHP (player g')"
    by (simp add: hpInRange_def)
  obtain new where new: "\<forall>e\<in>set new. freshEnemy env e"
      and l: "list_all2 deathRule (enemies g @ new) (enemies g')"
    using playing_deathRule [of env ?g1 inp "gameDtOf inp g"] unfolding g' by auto
  have before: "\<forall>e\<in>set (enemies g @ new). e_alive e \<longrightarrow> 0 < e_hp e"
    using al new by (auto simp: freshEnemy_def)
  have a: "\<forall>e\<in>set (enemies g'). e_alive e \<longrightarrow> 0 < e_hp e"
  proof
    fix e' assume "e' \<in> set (enemies g')"
    then obtain j where j: "j < length (enemies g')" "e' = enemies g' ! j"
      by (auto simp: in_set_conv_nth)
    from list_all2_lengthD [OF l] j have jl: "j < length (enemies g @ new)"
      by simp
    with l have d: "deathRule ((enemies g @ new) ! j) (enemies g' ! j)"
      by (rule list_all2_nthD)
    from jl have "(enemies g @ new) ! j \<in> set (enemies g @ new)"
      by (rule nth_mem)
    with before have "e_alive ((enemies g @ new) ! j) \<longrightarrow> 0 < e_hp ((enemies g @ new) ! j)"
      by blast
    with d j show "e_alive e' \<longrightarrow> 0 < e_hp e'"
      by (simp add: deathRule_def)
  qed
  have i: "\<forall>i. i < length (enemies g') \<and> i < length (enemies g) \<and> \<not> e_alive (enemies g ! i)
           \<longrightarrow> enemies g' ! i = enemies g ! i"
  proof (intro allI impI)
    fix i assume h: "i < length (enemies g') \<and> i < length (enemies g) \<and> \<not> e_alive (enemies g ! i)"
    then have il: "i < length (enemies g @ new)" by simp
    with l have "deathRule ((enemies g @ new) ! i) (enemies g' ! i)"
      by (rule list_all2_nthD)
    with h show "enemies g' ! i = enemies g ! i"
      by (simp add: deathRule_def nth_append)
  qed
  from p a i show ?thesis by blast
next
  case False
  show ?thesis
  proof (cases "state g = SHOP")
    case True
    with fr hp al show ?thesis
      by (auto simp: frame_def Let_def shopUpdate_def ApplyUpgrade_def
          split: option.splits if_splits)
  next
    case notshop: False
    show ?thesis
    proof (cases "IsKeyPressed inp KEY_ENTER")
      case True
      with fr False notshop obtain g1 g2 where "ResetGame g1 = Some g2"
          "g' = g2\<lparr>state := PLAYING\<rparr>"
        by (cases "state g") (auto simp: frame_def Let_def menuUpdate_def restartUpdate_def)
      with ResetGame_hpInRange [of g1 g2] show ?thesis
        by (simp add: hpInRange_def)
    next
      case nokey: False
      with fr False notshop hp al show ?thesis
        by (cases "state g") (auto simp: frame_def Let_def menuUpdate_def restartUpdate_def)
    qed
  qed
qed

theorem hit_points_and_death_witness:
  "frame rlEnv (pressing [KEY_J]) lowGrunt = Some (the (frame rlEnv (pressing [KEY_J]) lowGrunt))
   \<and> 0 \<le> p_hp (player lowGrunt) \<and> p_hp (player lowGrunt) \<le> p_maxHP (player lowGrunt)
   \<and> length (enemies lowGrunt) = 1
   \<and> e_alive (enemies lowGrunt ! 0) \<and> 0 < e_hp (enemies lowGrunt ! 0)
   \<and> 0 \<le> p_hp (player (the (frame rlEnv (pressing [KEY_J]) lowGrunt)))
   \<and> p_hp (player (the (frame rlEnv (pressing [KEY_J]) lowGrunt)))
       \<le> p_maxHP (player (the (frame rlEnv (pressing [KEY_J]) lowGrunt)))"
proof -
  have f: "frame rlEnv (pressing [KEY_J]) lowGrunt
      = Some (the (frame rlEnv (pressing [KEY_J]) lowGrunt))"
    by (simp add: frame_def Let_def lowGrunt_def)
  have h: "0 \<le> p_hp (player lowGrunt) \<and> p_hp (player lowGrunt) \<le> p_maxHP (player lowGrunt)"
    by (simp add: lowGrunt_def reset_defs Let_def)
  have a: "\<forall>e\<in>set (enemies lowGrunt). e_alive e \<longrightarrow> 0 < e_hp e"
    by (simp add: lowGrunt_def)
  have e: "length (enemies lowGrunt) = 1" "e_alive (enemies lowGrunt ! 0)"
    "0 < e_hp (enemies lowGrunt ! 0)"
    by (simp_all add: lowGrunt_def)
  show ?thesis
    using f h e hit_points_and_death [OF f h a] by blast
qed

text \<open>
  The claim as stated fails for enemies: the knight's first swing (20 damage) takes the
  grunt from 4 hit points to -16.
\<close>

theorem enemy_hp_goes_negative:
  "e_hp (hd (enemies lowGrunt)) = 4
   \<and> e_hp (hd (enemies (the (frame rlEnv (pressing [KEY_J]) lowGrunt)))) = - 16
   \<and> \<not> e_alive (hd (enemies (the (frame rlEnv (pressing [KEY_J]) lowGrunt))))"
  by (simp add: lowGrunt_def eval_defs cong: let_weak_cong prod.case_cong_weak)

section \<open>The lane\<close>

lemma playerMovement_lane: "inLane (p_pos (playerMovement inp dt p))"
  by (simp add: playerMovement_def Let_def inLane_def)

lemma abilities_lane: "inLane (p_pos p) \<Longrightarrow> inLane (p_pos (abilities inp dt pc p))"
  by (cases pc)
    (simp_all add: abilities_def knightBlock_def rogueDodge_def mageBlink_def Let_def inLane_def)

lemma beforeEnemies_pos:
  "p_pos (player (beforeEnemies env inp dt g))
     = p_pos (abilities inp dt (playerClass g) (abilityTimers dt (playerMovement inp dt (player g))))"
  by (simp add: beforeEnemies_def Let_def)

lemma playingUpdate_lane: "inLane (p_pos (player (playingUpdate env inp dt g)))"
proof -
  obtain h c where p: "player (playingUpdate env inp dt g)
      = (player (beforeEnemies env inp dt g))\<lparr>p_hp := h, p_coins := c\<rparr>"
    using playingUpdate_player by blast
  have "inLane (p_pos (abilityTimers dt (playerMovement inp dt (player g))))"
    by (simp add: playerMovement_lane)
  then have "inLane (p_pos (player (beforeEnemies env inp dt g)))"
    unfolding beforeEnemies_pos by (rule abilities_lane)
  then show ?thesis by (simp add: p)
qed

lemma enemyMove_laneY: "keepsLaneY e (enemyMove dt p e)"
  by (simp add: keepsLaneY_def inLaneY_def enemyMove_def Let_def)

lemma meleeHit_y: "v_y (e_pos (fst (meleeHit env e g))) = v_y (e_pos e)"
  by (simp add: meleeHit_def Let_def)

lemma enemyBody_laneY: "keepsLaneY e (fst (enemyBody env dt e g))"
proof (cases "e_alive e")
  case False
  then show ?thesis by (simp add: keepsLaneY_def enemyBody_def)
next
  case True
  have "inLaneY e \<Longrightarrow> inLaneY (enemyMove dt (player g) e)"
    using enemyMove_laneY [of e dt "player g"] by (simp add: keepsLaneY_def)
  then show ?thesis
    using True
    by (simp add: keepsLaneY_def enemyBody_def Let_def split_beta inLaneY_def meleeHit_y)
qed

lemma projectileHit_laneY: "keepsLaneY e (fst (projectileHit env pj e g))"
  by (simp add: keepsLaneY_def inLaneY_def)

lemma loops_laneY:
  "list_all2 keepsLaneY (enemies g) (enemies (mageProjectiles env (enemyAI env dt g)))"
proof (rule loops_all2 [of keepsLaneY])
  show "keepsLaneY e (fst (enemyBody env dt e g1))" for e g1
    by (rule enemyBody_laneY)
  show "keepsLaneY e (fst (projectileHit env pj e g1))" for pj e g1
    by (rule projectileHit_laneY)
  show "keepsLaneY e e" for e
    by (simp add: keepsLaneY_def)
  show "keepsLaneY a b \<Longrightarrow> keepsLaneY b c \<Longrightarrow> keepsLaneY a c" for a b c
    by (simp add: keepsLaneY_def)
qed

text \<open>
  C5, as the code has it.  After every PLAYING frame, whatever the dodge, the blink
  or the input did, the player's position is within the lane: \<open>x\<close> in
  \<open>[0, LEVEL_LENGTH]\<close> and \<open>y\<close> in \<open>[GROUND_TOP, GROUND_BOTTOM]\<close>.  For the
  enemies the source clamps \<open>y\<close> only: if every enemy's \<open>y\<close> is within the lane before
  the frame, so it is after it, for the enemies that were there and for those the
  frame spawns (the random source answering within the range asked for).  The
  theorem states no bound for an enemy's \<open>x\<close>.
\<close>

theorem lane_bounds:
  assumes playing: "state g = PLAYING"
    and rng: "\<forall>n. 0 \<le> GetRandomValue env n 0 100"
    and lane: "\<forall>e\<in>set (enemies g). GROUND_TOP \<le> v_y (e_pos e) \<and> v_y (e_pos e) \<le> GROUND_BOTTOM"
  shows "\<exists>g'. frame env inp g = Some g'
    \<and> 0 \<le> v_x (p_pos (player g')) \<and> v_x (p_pos (player g')) \<le> LEVEL_LENGTH
    \<and> GROUND_TOP \<le> v_y (p_pos (player g')) \<and> v_y (p_pos (player g')) \<le> GROUND_BOTTOM
    \<and> (\<forall>e\<in>set (enemies g'). GROUND_TOP \<le> v_y (e_pos e) \<and> v_y (e_pos e) \<le> GROUND_BOTTOM)"
proof -
  let ?g1 = "hitStopTick inp g"
  let ?g' = "playingUpdate env inp (gameDtOf inp g) ?g1"
  have fr: "frame env inp g = Some ?g'"
    using playing by (simp add: frame_def Let_def)
  have pl: "inLane (p_pos (player ?g'))"
    by (rule playingUpdate_lane)
  obtain new where n: "enemies (beforeEnemies env inp (gameDtOf inp g) ?g1) = enemies g @ new"
      "\<forall>e\<in>set new. freshEnemy env e"
    using beforeEnemies_enemies [of env inp "gameDtOf inp g" ?g1] by auto
  have before: "\<forall>e\<in>set (enemies g @ new). inLaneY e"
    using lane n(2) rng by (auto simp: freshEnemy_def inLaneY_def)
  have l: "list_all2 keepsLaneY (enemies g @ new) (enemies ?g')"
    using loops_laneY [of "beforeEnemies env inp (gameDtOf inp g) ?g1" env "gameDtOf inp g"]
    by (simp add: n(1))
  have "\<forall>e\<in>set (enemies ?g'). inLaneY e"
  proof
    fix e' assume "e' \<in> set (enemies ?g')"
    then obtain j where j: "j < length (enemies ?g')" "e' = enemies ?g' ! j"
      by (auto simp: in_set_conv_nth)
    from list_all2_lengthD [OF l] j have jl: "j < length (enemies g @ new)"
      by simp
    with l have d: "keepsLaneY ((enemies g @ new) ! j) (enemies ?g' ! j)"
      by (rule list_all2_nthD)
    from jl have "(enemies g @ new) ! j \<in> set (enemies g @ new)"
      by (rule nth_mem)
    with before have "inLaneY ((enemies g @ new) ! j)"
      by blast
    with d j show "inLaneY e'"
      by (simp add: keepsLaneY_def)
  qed
  with fr pl show ?thesis
    by (simp add: inLane_def inLaneY_def)
qed

theorem lane_bounds_witness:
  "state finisherAtEdge = PLAYING
   \<and> 0 \<le> GetRandomValue rlEnv 5 0 100
   \<and> v_y (e_pos (hd (enemies finisherAtEdge))) = 390
   \<and> v_x (p_pos (player (the (frame rlEnv (pressing [KEY_J]) finisherAtEdge)))) \<le> 3000
   \<and> 350 \<le> v_y (p_pos (player (the (frame rlEnv (pressing [KEY_J]) finisherAtEdge))))"
proof -
  have p: "state finisherAtEdge = PLAYING"
    by (simp add: finisherAtEdge_def)
  have r: "\<forall>n. 0 \<le> GetRandomValue rlEnv n 0 100"
    by (simp add: rlEnv_def)
  have l: "\<forall>e\<in>set (enemies finisherAtEdge).
      GROUND_TOP \<le> v_y (e_pos e) \<and> v_y (e_pos e) \<le> GROUND_BOTTOM"
    by (simp add: finisherAtEdge_def)
  have e: "v_y (e_pos (hd (enemies finisherAtEdge))) = 390"
    by (simp add: finisherAtEdge_def)
  show ?thesis
    using p r e lane_bounds [OF p r l, of "pressing [KEY_J]"] by auto
qed

text \<open>
  The claim as stated fails for enemies: the knight's finisher pushes a tank that
  survives it from \<open>x = 2980\<close> to \<open>x = 3070\<close>, beyond \<open>LEVEL_LENGTH\<close>.
\<close>

theorem knockback_leaves_the_level:
  "e_alive (hd (enemies (the (frame rlEnv (pressing [KEY_J]) finisherAtEdge))))
   \<and> v_x (e_pos (hd (enemies (the (frame rlEnv (pressing [KEY_J]) finisherAtEdge))))) = 3070
   \<and> v_x (e_pos (hd (enemies finisherAtEdge))) = 2980"
  by (simp add: finisherAtEdge_def eval_defs cong: let_weak_cong prod.case_cong_weak)

section \<open>Deaths and their rewards\<close>

lemma spawnCoins_state [simp]:
  "state (spawnCoins env pos n g) = state g"
  "bossDefeated (spawnCoins env pos n g) = bossDefeated g"
  by (induction n arbitrary: g) simp_all

lemma tallies_Nil: "tallies [] [] g g"
  by (simp add: tallies_def)

lemma tallies_Cons:
  assumes a: "tally e e' g g1" and b: "tallies es es' g1 g2"
  shows "tallies (e # es) (e' # es') g g2"
proof -
  from a b have k: "list_all2 sameKind (e # es) (e' # es')"
    by (simp add: tally_def tallies_def)
  from a b have c: "length (coins g2) = length (coins g) + drops (e # es) (e' # es')"
    by (simp add: tally_def tallies_def)
  from a b have s: "if bossFell (e # es) (e' # es') then state g2 = VICTORY \<and> bossDefeated g2
      else state g2 = state g \<and> bossDefeated g2 = bossDefeated g"
    by (cases "died e e'"; cases "e_type e = BOSS"; cases "bossFell es es'")
      (simp_all add: tally_def tallies_def)
  from k c s show ?thesis
    unfolding tallies_def by blast
qed

lemma died_trans:
  "sameKind e e' \<Longrightarrow> sameKind e' e''
   \<Longrightarrow> (died e e'' \<longleftrightarrow> died e e' \<or> died e' e'') \<and> \<not> (died e e' \<and> died e' e'')
       \<and> e_type e' = e_type e"
  by (auto simp: sameKind_def died_def)

lemma drops_trans:
  "list_all2 sameKind es es' \<Longrightarrow> list_all2 sameKind es' es''
   \<Longrightarrow> drops es es'' = drops es es' + drops es' es''"
proof (induction es es' arbitrary: es'' rule: list_all2_induct)
  case Nil
  then show ?case by simp
next
  case (Cons e es e' es')
  from Cons.prems obtain e'' es2 where s: "es'' = e'' # es2" "sameKind e' e''"
      "list_all2 sameKind es' es2"
    by (auto simp: list_all2_Cons1)
  from died_trans [OF Cons.hyps(1) s(2)] Cons.IH [OF s(3)] show ?case
    by (cases "died e e'"; cases "died e' e''") (simp_all add: s(1))
qed

lemma bossFell_trans:
  "list_all2 sameKind es es' \<Longrightarrow> list_all2 sameKind es' es''
   \<Longrightarrow> bossFell es es'' \<longleftrightarrow> bossFell es es' \<or> bossFell es' es''"
proof (induction es es' arbitrary: es'' rule: list_all2_induct)
  case Nil
  then show ?case by simp
next
  case (Cons e es e' es')
  from Cons.prems obtain e'' es2 where s: "es'' = e'' # es2" "sameKind e' e''"
      "list_all2 sameKind es' es2"
    by (auto simp: list_all2_Cons1)
  from died_trans [OF Cons.hyps(1) s(2)] Cons.IH [OF s(3)] show ?case
    by (cases "died e e'"; cases "died e' e''") (simp_all add: s(1), blast+)
qed

lemma sameKind_refl: "sameKind e e"
  by (simp add: sameKind_def)

lemma sameKind_trans: "sameKind a b \<Longrightarrow> sameKind b c \<Longrightarrow> sameKind a c"
  by (simp add: sameKind_def)

lemma tallies_trans:
  assumes a: "tallies es es' g g1" and b: "tallies es' es'' g1 g2"
  shows "tallies es es'' g g2"
proof -
  from a b have l: "list_all2 sameKind es es'" "list_all2 sameKind es' es''"
    by (simp_all add: tallies_def)
  have k: "list_all2 sameKind es es''"
    by (rule list_all2_trans [OF _ l]) (rule sameKind_trans)
  from a b have c: "length (coins g2) = length (coins g) + drops es es''"
    by (simp add: tallies_def drops_trans [OF l])
  from a b have s: "if bossFell es es'' then state g2 = VICTORY \<and> bossDefeated g2
      else state g2 = state g \<and> bossDefeated g2 = bossDefeated g"
    by (cases "bossFell es es'"; cases "bossFell es' es''")
      (simp_all add: tallies_def bossFell_trans [OF l])
  from k c s show ?thesis
    unfolding tallies_def by blast
qed

lemma drops_refl: "drops es es = 0" "\<not> bossFell es es"
  by (induction es) (simp_all add: died_def)

lemma tallies_refl: "tallies es es g g"
  by (simp add: tallies_def drops_refl list_all2_refl sameKind_refl)

lemma tallies_upd:
  "tallies es es' g g1 \<Longrightarrow> tallies es es' g (g1\<lparr>enemies := xs\<rparr>)"
  by (simp add: tallies_def)

lemma enemyDeath_tally:
  "e_alive e \<Longrightarrow> tally e (fst (enemyDeath env e g)) g (snd (enemyDeath env e g))"
  by (simp add: tally_def sameKind_def died_def enemyDeath_def Let_def spawnCoins_length)

lemma tally_stay:
  "e_type e' = e_type e \<Longrightarrow> e_alive e' = e_alive e \<Longrightarrow> length (coins g') = length (coins g)
   \<Longrightarrow> state g' = state g \<Longrightarrow> bossDefeated g' = bossDefeated g \<Longrightarrow> tally e e' g g'"
  by (simp add: tally_def sameKind_def died_def)

lemma tally_pre:
  "e_type e1 = e_type e \<Longrightarrow> e_alive e1 = e_alive e \<Longrightarrow> length (coins g1) = length (coins g)
   \<Longrightarrow> state g1 = state g \<Longrightarrow> bossDefeated g1 = bossDefeated g
   \<Longrightarrow> tally e1 e' g1 g' \<Longrightarrow> tally e e' g g'"
  by (simp add: tally_def sameKind_def died_def)

lemma damagePlayer_fields [simp]:
  "coins (damagePlayer d g) = coins g" "state (damagePlayer d g) = state g"
  "bossDefeated (damagePlayer d g) = bossDefeated g"
  by (simp_all add: damagePlayer_def Let_def)

lemma enemyWindupResolve_game [simp]:
  "coins (snd (enemyWindupResolve env dt e g)) = coins g"
  "state (snd (enemyWindupResolve env dt e g)) = state g"
  "bossDefeated (snd (enemyWindupResolve env dt e g)) = bossDefeated g"
  by (simp_all add: enemyWindupResolve_def Let_def)

lemma meleeHit_tally:
  assumes alive: "e_alive e"
  shows "tally e (fst (meleeHit env e g)) g (snd (meleeHit env e g))"
proof (cases "(playerClass g = KNIGHT \<or> playerClass g = ROGUE) \<and> p_attacking (player g)
    \<and> p_currentAttackId (player g) \<ge> 0
    \<and> e_lastHitAttackId e \<noteq> p_currentAttackId (player g)
    \<and> RectOverlap env (p_attackHitbox (player g)) (MakeRect (e_pos e) (e_size e))")
  case False
  then have "meleeHit env e g = (e, g)"
    by (auto simp: meleeHit_def Let_def)
  then show ?thesis by (simp add: tally_stay)
next
  case True
  let ?pc = "playerClass g" and ?p = "player g"
  let ?e1 = "e\<lparr>e_lastHitAttackId := p_currentAttackId ?p, e_hp := e_hp e - comboDamage ?pc ?p\<rparr>"
  let ?g1 = "g\<lparr>gHitStopTimer := max (gHitStopTimer g)
      (if ?pc = KNIGHT \<and> p_comboStep ?p = 3 then 0.06 else 0.03)\<rparr>"
  let ?e2 = "?e1\<lparr>e_pos := (e_pos ?e1)\<lparr>v_x := v_x (e_pos ?e1)
      + (if v_x (e_pos ?e1) < v_x (p_pos ?p) then - 1.0 else 1.0) * knockDist ?pc (p_comboStep ?p)\<rparr>\<rparr>"
  from True have m: "meleeHit env e g = (if e_hp ?e2 \<le> 0 then enemyDeath env ?e2 ?g1 else (?e2, ?g1))"
    by (simp add: meleeHit_def Let_def)
  show ?thesis
  proof (cases "e_hp ?e2 \<le> 0")
    case True
    have "tally ?e2 (fst (enemyDeath env ?e2 ?g1)) ?g1 (snd (enemyDeath env ?e2 ?g1))"
      by (rule enemyDeath_tally) (simp add: alive)
    then have "tally e (fst (enemyDeath env ?e2 ?g1)) g (snd (enemyDeath env ?e2 ?g1))"
      by (rule tally_pre [rotated 5]) simp_all
    with True show ?thesis by (simp only: m if_True)
  next
    case False
    have "tally e ?e2 g ?g1" by (rule tally_stay) simp_all
    with False show ?thesis by (simp only: m if_False fst_conv snd_conv)
  qed
qed

lemma projectileHit_tally:
  "tally e (fst (projectileHit env pj e g)) g (snd (projectileHit env pj e g))"
proof (cases "e_alive e \<and> CheckCollisionCircleRec env (pj_pos pj) (pj_radius pj)
      (MakeRect (e_pos e) (e_size e)) \<and> e_lastProjectileHitId e \<noteq> pj_id pj")
  case False
  then have "projectileHit env pj e g = (e, g)"
    by (auto simp: projectileHit_def Let_def)
  then show ?thesis by (simp add: tally_stay)
next
  case True
  let ?e1 = "e\<lparr>e_lastProjectileHitId := pj_id pj, e_hp := e_hp e - pj_damage pj\<rparr>"
  from True have m: "projectileHit env pj e g
      = (if e_hp ?e1 \<le> 0 then enemyDeath env ?e1 g else (?e1, g))"
    by (simp add: projectileHit_def Let_def)
  show ?thesis
  proof (cases "e_hp ?e1 \<le> 0")
    case True
    have "tally ?e1 (fst (enemyDeath env ?e1 g)) g (snd (enemyDeath env ?e1 g))"
      by (rule enemyDeath_tally) (simp add: \<open>e_alive e \<and> _\<close>)
    then have "tally e (fst (enemyDeath env ?e1 g)) g (snd (enemyDeath env ?e1 g))"
      by (rule tally_pre [rotated 5]) simp_all
    with True show ?thesis by (simp only: m if_True)
  next
    case False
    have "tally e ?e1 g g" by (rule tally_stay) simp_all
    with False show ?thesis by (simp only: m if_False fst_conv snd_conv)
  qed
qed

lemma enemyBody_tally:
  "tally e (fst (enemyBody env dt e g)) g (snd (enemyBody env dt e g))"
proof (cases "e_alive e")
  case False
  then show ?thesis by (simp add: enemyBody_def tally_stay)
next
  case True
  let ?r = "enemyWindupResolve env dt
      (enemyWindupStart env (player g) (enemyCooldown dt (enemyMove dt (player g) e))) g"
  let ?e6 = "enemyAnimation env dt (enemyAttackAnim dt (fst ?r))"
  have b: "enemyBody env dt e g = meleeHit env ?e6 (snd ?r)"
    using True by (simp add: enemyBody_def Let_def split_beta)
  have "tally ?e6 (fst (meleeHit env ?e6 (snd ?r))) (snd ?r) (snd (meleeHit env ?e6 (snd ?r)))"
    by (rule meleeHit_tally) (simp add: True)
  then have "tally e (fst (meleeHit env ?e6 (snd ?r))) g (snd (meleeHit env ?e6 (snd ?r)))"
    by (rule tally_pre [rotated 5]) simp_all
  then show ?thesis by (simp only: b)
qed

lemma enemyLoop_tallies:
  "tallies es (fst (enemyLoop env dt es g)) g (snd (enemyLoop env dt es g))"
proof (induction es arbitrary: g)
  case Nil
  show ?case by (simp add: tallies_Nil)
next
  case (Cons e es)
  have "tallies (e # es)
      (fst (enemyBody env dt e g) # fst (enemyLoop env dt es (snd (enemyBody env dt e g))))
      g (snd (enemyLoop env dt es (snd (enemyBody env dt e g))))"
    by (rule tallies_Cons [OF enemyBody_tally Cons.IH])
  then show ?case by (simp add: split_beta)
qed

lemma projectileEnemies_tallies:
  "tallies es (fst (projectileEnemies env pj es g)) g (snd (projectileEnemies env pj es g))"
proof (induction es arbitrary: g)
  case Nil
  show ?case by (simp add: tallies_Nil)
next
  case (Cons e es)
  have "tallies (e # es)
      (fst (projectileHit env pj e g)
         # fst (projectileEnemies env pj es (snd (projectileHit env pj e g))))
      g (snd (projectileEnemies env pj es (snd (projectileHit env pj e g))))"
    by (rule tallies_Cons [OF projectileHit_tally Cons.IH])
  then show ?case by (simp add: split_beta)
qed

lemma projectileLoop_tallies:
  "tallies es (fst (projectileLoop env pjs es g)) g (snd (projectileLoop env pjs es g))"
proof (induction pjs arbitrary: es g)
  case Nil
  show ?case by (simp add: tallies_refl)
next
  case (Cons pj pjs)
  show ?case
  proof (cases "pj_active pj")
    case False
    then show ?thesis by (simp add: Cons.IH)
  next
    case True
    have "tallies es (fst (projectileLoop env pjs (fst (projectileEnemies env pj es g))
          (snd (projectileEnemies env pj es g))))
        g (snd (projectileLoop env pjs (fst (projectileEnemies env pj es g))
          (snd (projectileEnemies env pj es g))))"
      by (rule tallies_trans [OF projectileEnemies_tallies Cons.IH])
    with True show ?thesis by (simp add: split_beta)
  qed
qed

lemma loops_tallies:
  "tallies (enemies g) (enemies (mageProjectiles env (enemyAI env dt g))) g
     (mageProjectiles env (enemyAI env dt g))"
proof -
  let ?g12 = "enemyAI env dt g"
  have a: "tallies (enemies g) (enemies ?g12) g ?g12"
    unfolding enemyAI_def split_beta Let_def
    by (simp add: tallies_upd [OF enemyLoop_tallies])
  have b: "tallies (enemies ?g12) (enemies (mageProjectiles env ?g12)) ?g12
      (mageProjectiles env ?g12)"
  proof (cases "playerClass ?g12 = MAGE")
    case True
    then show ?thesis
      unfolding mageProjectiles_def split_beta Let_def
      by (simp add: tallies_upd [OF projectileLoop_tallies])
  next
    case False
    then show ?thesis by (simp add: mageProjectiles_def tallies_refl)
  qed
  show ?thesis by (rule tallies_trans [OF a b])
qed

lemma coinCount_cases:
  "coinCount ty = (case ty of BOSS \<Rightarrow> 10 | TANK \<Rightarrow> 3 | _ \<Rightarrow> 1)"
  by (cases ty) (simp_all add: coinCount_def)

lemma drops_sum:
  "list_all2 sameKind es es'
   \<Longrightarrow> drops es es' = (\<Sum>i<length es'. if died (es ! i) (es' ! i)
                                          then coinCount (e_type (es' ! i)) else 0)"
proof (induction es es' rule: list_all2_induct)
  case Nil
  show ?case by simp
next
  case (Cons e es e' es')
  then show ?case
    by (simp add: sum.lessThan_Suc_shift sameKind_def del: sum.lessThan_Suc cong: if_cong)
qed

lemma bossFell_nth:
  "list_all2 sameKind es es'
   \<Longrightarrow> bossFell es es' \<longleftrightarrow> (\<exists>i<length es'. died (es ! i) (es' ! i) \<and> e_type (es' ! i) = BOSS)"
proof (induction es es' rule: list_all2_induct)
  case Nil
  show ?case by simp
next
  case (Cons e es e' es')
  have "(\<exists>i<Suc (length es'). died ((e # es) ! i) ((e' # es') ! i) \<and> e_type ((e' # es') ! i) = BOSS)
      \<longleftrightarrow> (died e e' \<and> e_type e' = BOSS)
          \<or> (\<exists>i<length es'. died (es ! i) (es' ! i) \<and> e_type (es' ! i) = BOSS)"
    by (auto simp: less_Suc_eq_0_disj)
  with Cons show ?case
    by (simp add: sameKind_def)
qed

lemma playingUpdate_outcome:
  "state (playingUpdate env inp dt g)
     = (if p_hp (player (playingUpdate env inp dt g)) \<le> 0 then GAMEOVER
        else state (mageProjectiles env (enemyAI env dt (beforeEnemies env inp dt g))))"
  "bossDefeated (playingUpdate env inp dt g)
     = bossDefeated (mageProjectiles env (enemyAI env dt (beforeEnemies env inp dt g)))"
  "length (coins (playingUpdate env inp dt g))
     = length (coins (mageProjectiles env (enemyAI env dt (beforeEnemies env inp dt g))))"
  by (simp_all add: playingUpdate_def Let_def hpCheck_def cameraUpdate_def)

section \<open>The boss\<close>

text \<open>
  C7, as the code has it.  In a PLAYING frame every enemy that dies drops its coins:
  10 for a BOSS, 3 for a TANK, 1 for a GRUNT or a FAST enemy, and so the number of
  coins grows by exactly the sum over the enemies that died in the frame.  An enemy
  that was alive with positive hit points and whose hit points are 0 or less after the
  frame, by a melee hit or a projectile hit, has died in it.  If a BOSS died in the
  frame, \<^verbatim>\<open>bossDefeated\<close> is set and the phase was set to VICTORY; the frame
  ends in phase VICTORY provided the player's hit points are still positive at the
  check that closes the frame, and in GAMEOVER if the player's hit points have reached
  0 in the same frame.  Without a dead boss the phase after the frame is GAMEOVER, SHOP
  (on TAB) or PLAYING.  A dead enemy never dies again (see C6), and VICTORY leaves
  PLAYING, so the transition happens once.
\<close>

theorem boss_defeat_and_rewards:
  assumes playing: "state g = PLAYING"
  shows "\<exists>g'. frame env inp g = Some g'
    \<and> state g' = (if p_hp (player g') \<le> 0 then GAMEOVER
                   else if \<exists>i. diedInFrame g g' i \<and> e_type (enemies g' ! i) = BOSS then VICTORY
                   else if IsKeyPressed inp KEY_TAB then SHOP else PLAYING)
    \<and> ((\<exists>i. diedInFrame g g' i \<and> e_type (enemies g' ! i) = BOSS) \<longrightarrow> bossDefeated g')
    \<and> length (coins g') = length (coins g)
         + (\<Sum>i<length (enemies g'). if diedInFrame g g' i
              then (case e_type (enemies g' ! i) of BOSS \<Rightarrow> 10 | TANK \<Rightarrow> 3 | _ \<Rightarrow> 1) else 0)
    \<and> (\<forall>i. i < length (enemies g) \<and> e_alive (enemies g ! i) \<and> 0 < e_hp (enemies g ! i)
             \<and> i < length (enemies g') \<and> e_hp (enemies g' ! i) \<le> 0
           \<longrightarrow> diedInFrame g g' i)"
proof -
  let ?g1 = "hitStopTick inp g"
  let ?dt = "gameDtOf inp g"
  let ?g11 = "beforeEnemies env inp ?dt ?g1"
  let ?g13 = "mageProjectiles env (enemyAI env ?dt ?g11)"
  define g' where "g' = playingUpdate env inp ?dt ?g1"
  have fr: "frame env inp g = Some g'"
    using playing by (simp add: frame_def Let_def g'_def)
  have en: "enemies ?g13 = enemies g'"
    by (simp add: g'_def)
  have out: "state g' = (if p_hp (player g') \<le> 0 then GAMEOVER else state ?g13)"
    "bossDefeated g' = bossDefeated ?g13" "length (coins g') = length (coins ?g13)"
    unfolding g'_def by (rule playingUpdate_outcome)+
  obtain new where n: "enemies ?g11 = enemies g @ new" "\<forall>e\<in>set new. freshEnemy env e"
    using beforeEnemies_enemies [of env inp ?dt ?g1] by auto
  have T: "tallies (enemies g @ new) (enemies g') ?g11 ?g13"
    using loops_tallies [of ?g11 env ?dt] by (simp only: n(1) en)
  then have K: "list_all2 sameKind (enemies g @ new) (enemies g')"
    by (simp add: tallies_def)
  have len: "length (enemies g') = length (enemies g) + length new"
    using list_all2_lengthD [OF K] by simp
  have D: "died ((enemies g @ new) ! i) (enemies g' ! i) \<longleftrightarrow> diedInFrame g g' i"
    if "i < length (enemies g')" for i
  proof (cases "i < length (enemies g)")
    case True
    with that show ?thesis by (auto simp: died_def diedInFrame_def nth_append)
  next
    case False
    with that len have "new ! (i - length (enemies g)) \<in> set new" by simp
    with n(2) have "e_alive (new ! (i - length (enemies g)))"
      by (auto simp: freshEnemy_def)
    with False that show ?thesis by (auto simp: died_def diedInFrame_def nth_append)
  qed
  have B: "bossFell (enemies g @ new) (enemies g')
      \<longleftrightarrow> (\<exists>i. diedInFrame g g' i \<and> e_type (enemies g' ! i) = BOSS)"
    unfolding bossFell_nth [OF K] using D by (auto simp: diedInFrame_def)
  have S: "drops (enemies g @ new) (enemies g')
      = (\<Sum>i<length (enemies g'). if diedInFrame g g' i
            then (case e_type (enemies g' ! i) of BOSS \<Rightarrow> 10 | TANK \<Rightarrow> 3 | _ \<Rightarrow> 1) else 0)"
    unfolding drops_sum [OF K]
    by (rule sum.cong) (simp_all add: D coinCount_cases)
  have st11: "state ?g11 = (if IsKeyPressed inp KEY_TAB then SHOP else PLAYING)"
    using playing by simp
  from T have c13: "length (coins ?g13) = length (coins g) + drops (enemies g @ new) (enemies g')"
    by (simp add: tallies_def)
  from T have s13: "if bossFell (enemies g @ new) (enemies g')
      then state ?g13 = VICTORY \<and> bossDefeated ?g13
      else state ?g13 = state ?g11 \<and> bossDefeated ?g13 = bossDefeated ?g11"
    by (simp add: tallies_def)
  have state': "state g' = (if p_hp (player g') \<le> 0 then GAMEOVER
       else if \<exists>i. diedInFrame g g' i \<and> e_type (enemies g' ! i) = BOSS then VICTORY
       else if IsKeyPressed inp KEY_TAB then SHOP else PLAYING)"
    using s13 by (cases "bossFell (enemies g @ new) (enemies g')")
      (simp_all add: out(1) B [symmetric] st11 playing)
  have boss': "(\<exists>i. diedInFrame g g' i \<and> e_type (enemies g' ! i) = BOSS) \<longrightarrow> bossDefeated g'"
    using s13 by (cases "bossFell (enemies g @ new) (enemies g')")
      (simp_all add: out(2) B [symmetric])
  have coins': "length (coins g') = length (coins g)
      + (\<Sum>i<length (enemies g'). if diedInFrame g g' i
            then (case e_type (enemies g' ! i) of BOSS \<Rightarrow> 10 | TANK \<Rightarrow> 3 | _ \<Rightarrow> 1) else 0)"
    by (simp only: out(3) c13 S)
  obtain new' where l: "list_all2 deathRule (enemies g @ new') (enemies g')"
    using playing_deathRule [of env ?g1 inp ?dt] unfolding g'_def by auto
  have dead': "\<forall>i. i < length (enemies g) \<and> e_alive (enemies g ! i) \<and> 0 < e_hp (enemies g ! i)
             \<and> i < length (enemies g') \<and> e_hp (enemies g' ! i) \<le> 0
           \<longrightarrow> diedInFrame g g' i"
  proof (intro allI impI)
    fix i
    assume h: "i < length (enemies g) \<and> e_alive (enemies g ! i) \<and> 0 < e_hp (enemies g ! i)
             \<and> i < length (enemies g') \<and> e_hp (enemies g' ! i) \<le> 0"
    then have "i < length (enemies g @ new')" by simp
    with l have "deathRule ((enemies g @ new') ! i) (enemies g' ! i)"
      by (rule list_all2_nthD)
    with h show "diedInFrame g g' i"
      by (auto simp: deathRule_def diedInFrame_def nth_append)
  qed
  from fr state' boss' coins' dead' show ?thesis by blast
qed

theorem boss_defeat_and_rewards_witness:
  "state bossKill = PLAYING
   \<and> e_type (hd (enemies bossKill)) = BOSS \<and> e_alive (hd (enemies bossKill))
   \<and> state (the (frame rlEnv (pressing [KEY_J]) bossKill)) = VICTORY
   \<and> bossDefeated (the (frame rlEnv (pressing [KEY_J]) bossKill))
   \<and> \<not> e_alive (hd (enemies (the (frame rlEnv (pressing [KEY_J]) bossKill))))
   \<and> length (coins (the (frame rlEnv (pressing [KEY_J]) bossKill))) = 10"
proof -
  have p: "state bossKill = PLAYING"
    by (simp add: bossKill_def bossDuel_def)
  obtain g' where "frame rlEnv (pressing [KEY_J]) bossKill = Some g'"
    using boss_defeat_and_rewards [OF p, of rlEnv "pressing [KEY_J]"] by blast
  moreover have "e_type (hd (enemies bossKill)) = BOSS \<and> e_alive (hd (enemies bossKill))
   \<and> state (the (frame rlEnv (pressing [KEY_J]) bossKill)) = VICTORY
   \<and> bossDefeated (the (frame rlEnv (pressing [KEY_J]) bossKill))
   \<and> \<not> e_alive (hd (enemies (the (frame rlEnv (pressing [KEY_J]) bossKill))))
   \<and> length (coins (the (frame rlEnv (pressing [KEY_J]) bossKill))) = 10"
    by (simp add: bossKill_def bossDuel_def eval_defs spawnCoins_numeral
        cong: let_weak_cong prod.case_cong_weak)
  ultimately show ?thesis using p by blast
qed

text \<open>
  The claim as stated fails when the boss and the player fall in the same frame: the
  boss strikes the knight's last 20 hit points, the knight's swing takes the boss from
  15 to -5, ten coins drop, and the frame ends in GAMEOVER, not VICTORY.
\<close>

theorem boss_dies_but_game_over:
  "state bossDuel = PLAYING
   \<and> e_type (hd (enemies bossDuel)) = BOSS \<and> e_alive (hd (enemies bossDuel))
   \<and> e_hp (hd (enemies (the (frame rlEnv (pressing [KEY_J]) bossDuel)))) = - 5
   \<and> \<not> e_alive (hd (enemies (the (frame rlEnv (pressing [KEY_J]) bossDuel))))
   \<and> length (coins (the (frame rlEnv (pressing [KEY_J]) bossDuel))) = 10
   \<and> state (the (frame rlEnv (pressing [KEY_J]) bossDuel)) = GAMEOVER"
  by (simp add: bossDuel_def eval_defs spawnCoins_numeral cong: let_weak_cong prod.case_cong_weak)

section \<open>One melee hit per attack instance\<close>

lemma meleeHit_hit:
  assumes "playerClass g \<noteq> MAGE" "p_attacking (player g)" "0 \<le> p_currentAttackId (player g)"
    "e_lastHitAttackId e \<noteq> p_currentAttackId (player g)"
    "RectOverlap env (p_attackHitbox (player g)) (MakeRect (e_pos e) (e_size e))"
  shows "e_hp (fst (meleeHit env e g)) = e_hp e - comboDamage (playerClass g) (player g)"
    "e_lastHitAttackId (fst (meleeHit env e g)) = p_currentAttackId (player g)"
  using assms by (cases "playerClass g"; simp add: meleeHit_def Let_def)+

lemma meleeHit_miss:
  assumes "e_lastHitAttackId e = p_currentAttackId (player g)"
  shows "meleeHit env e g = (e, g)"
  using assms by (simp add: meleeHit_def Let_def)

lemma meleeHit_meleeRule:
  "meleeRule (p_currentAttackId (player g)) (comboDamage (playerClass g) (player g)) e
     (fst (meleeHit env e g))"
  by (simp add: meleeRule_def meleeHit_def Let_def)

lemma enemyBody_meleeRule:
  "meleeRule (p_currentAttackId (player g)) (comboDamage (playerClass g) (player g)) e
     (fst (enemyBody env dt e g))"
proof (cases "e_alive e")
  case False
  then show ?thesis by (simp add: enemyBody_def meleeRule_def)
next
  case True
  let ?r = "enemyWindupResolve env dt
      (enemyWindupStart env (player g) (enemyCooldown dt (enemyMove dt (player g) e))) g"
  let ?e6 = "enemyAnimation env dt (enemyAttackAnim dt (fst ?r))"
  have b: "enemyBody env dt e g = meleeHit env ?e6 (snd ?r)"
    using True by (simp add: enemyBody_def Let_def split_beta)
  have lf: "loopFrame g (snd ?r)" by (rule enemyWindupResolve_frame)
  have c: "comboDamage (playerClass (snd ?r)) (player (snd ?r)) = comboDamage (playerClass g) (player g)"
    by (simp add: comboDamage_def loopFrame_fields(1) [OF lf] loopFrame_player [OF lf])
  from meleeHit_meleeRule [of "snd ?r" ?e6 env] show ?thesis
    by (simp add: b c loopFrame_player(1) [OF lf] meleeRule_def)
qed

lemma enemyLoop_meleeRule:
  "list_all2 (meleeRule (p_currentAttackId (player g)) (comboDamage (playerClass g) (player g)))
     es (fst (enemyLoop env dt es g))"
proof (rule enemyLoop_all2)
  fix e g1 assume lf: "loopFrame g g1"
  have c: "comboDamage (playerClass g1) (player g1) = comboDamage (playerClass g) (player g)"
    by (simp add: comboDamage_def loopFrame_fields(1) [OF lf] loopFrame_player [OF lf])
  from enemyBody_meleeRule [of g1 e env dt]
  show "meleeRule (p_currentAttackId (player g)) (comboDamage (playerClass g) (player g)) e
     (fst (enemyBody env dt e g1))"
    by (simp add: c loopFrame_player(1) [OF lf])
qed

lemma playing_meleeRule:
  assumes cls: "playerClass g \<noteq> MAGE" and i: "i < length (enemies g)"
  shows "i < length (enemies (playingUpdate env inp dt g))
    \<and> meleeRule (p_currentAttackId (player (playingUpdate env inp dt g)))
        (comboDamage (playerClass g) (player (playingUpdate env inp dt g)))
        (enemies g ! i) (enemies (playingUpdate env inp dt g) ! i)"
proof -
  let ?g11 = "beforeEnemies env inp dt g"
  define g' where "g' = playingUpdate env inp dt g"
  obtain new where n: "enemies ?g11 = enemies g @ new"
    using beforeEnemies_enemies [of env inp dt g] by auto
  have c12: "playerClass (enemyAI env dt ?g11) \<noteq> MAGE"
    using cls by (simp add: loopFrame_fields(1) [OF enemyAI_frame])
  have en: "enemies g' = fst (enemyLoop env dt (enemies g @ new) ?g11)"
    using c12 by (simp add: g'_def mageProjectiles_enemies enemyAI_enemies n)
  obtain h c where p: "player g' = (player ?g11)\<lparr>p_hp := h, p_coins := c\<rparr>"
    using playingUpdate_player [of env inp dt g] unfolding g'_def by blast
  have k: "p_currentAttackId (player g') = p_currentAttackId (player ?g11)"
    and d: "comboDamage (playerClass g) (player g') = comboDamage (playerClass ?g11) (player ?g11)"
    by (simp_all add: p comboDamage_def)
  have l: "list_all2 (meleeRule (p_currentAttackId (player g'))
      (comboDamage (playerClass g) (player g'))) (enemies g @ new) (enemies g')"
    unfolding en k d by (rule enemyLoop_meleeRule)
  from i have il: "i < length (enemies g @ new)" by simp
  from list_all2_nthD [OF l il] list_all2_lengthD [OF l] i
  show ?thesis unfolding g'_def [symmetric] by (simp add: nth_append)
qed

lemma frame_meleeRule:
  assumes fr: "frame env inp g = Some g'" and cls: "playerClass g \<noteq> MAGE"
    and k: "0 \<le> p_currentAttackId (player g')" and i: "i < length (enemies g)"
  shows "playerClass g' \<noteq> MAGE \<and> i < length (enemies g')
    \<and> meleeRule (p_currentAttackId (player g')) (comboDamage (playerClass g') (player g'))
         (enemies g ! i) (enemies g' ! i)"
proof (cases "state g = PLAYING")
  case True
  with fr have g': "g' = playingUpdate env inp (gameDtOf inp g) (hitStopTick inp g)"
    by (simp add: frame_def Let_def)
  have c: "playerClass g' = playerClass g" by (simp add: g')
  from playing_meleeRule [of "hitStopTick inp g" i env inp "gameDtOf inp g"] cls i
  show ?thesis unfolding c g' by simp
next
  case False
  show ?thesis
  proof (cases "state g = SHOP")
    case True
    with fr have "enemies g' = enemies g \<and> playerClass g' = playerClass g"
      by (auto simp: frame_def Let_def shopUpdate_def split: option.splits if_splits)
    with cls i show ?thesis by (simp add: meleeRule_def)
  next
    case notshop: False
    show ?thesis
    proof (cases "IsKeyPressed inp KEY_ENTER")
      case True
      with fr False notshop obtain g1 g2 where "ResetGame g1 = Some g2"
          "g' = g2\<lparr>state := PLAYING\<rparr>"
        by (cases "state g") (auto simp: frame_def Let_def menuUpdate_def restartUpdate_def)
      with ResetGame_ids(2) [of g1 g2] k show ?thesis by simp
    next
      case nokey: False
      with fr False notshop have "enemies g' = enemies g \<and> playerClass g' = playerClass g"
        by (cases "state g") (auto simp: frame_def Let_def menuUpdate_def restartUpdate_def)
      with cls i show ?thesis by (simp add: meleeRule_def)
    qed
  qed
qed

lemma frames_meleeRule:
  assumes "frames env inps g = Some gs"
    and "\<forall>g'\<in>set gs. p_currentAttackId (player g') = k"
    and "0 \<le> k" and "playerClass g \<noteq> MAGE" and "i < length (enemies g)"
  shows "\<forall>g'\<in>set gs. playerClass g' \<noteq> MAGE \<and> i < length (enemies g')
     \<and> ((e_hp (enemies g' ! i) = e_hp (enemies g ! i)
           \<and> e_lastHitAttackId (enemies g' ! i) = e_lastHitAttackId (enemies g ! i))
        \<or> (e_lastHitAttackId (enemies g ! i) \<noteq> k \<and> e_lastHitAttackId (enemies g' ! i) = k
           \<and> (\<exists>g''\<in>set gs. e_hp (enemies g' ! i)
                 = e_hp (enemies g ! i) - comboDamage (playerClass g'') (player g''))))"
  using assms
proof (induction inps arbitrary: g gs)
  case Nil
  then show ?case by simp
next
  case (Cons inp inps)
  from Cons.prems(1) obtain g1 gs1 where s: "frame env inp g = Some g1"
      "frames env inps g1 = Some gs1" "gs = g1 # gs1"
    by (auto split: option.splits)
  from Cons.prems(2) s(3) have k1: "p_currentAttackId (player g1) = k"
      and ks: "\<forall>g'\<in>set gs1. p_currentAttackId (player g') = k"
    by simp_all
  from frame_meleeRule [OF s(1) Cons.prems(4) _ Cons.prems(5)] k1 Cons.prems(3)
  have f: "playerClass g1 \<noteq> MAGE" "i < length (enemies g1)"
      "meleeRule k (comboDamage (playerClass g1) (player g1)) (enemies g ! i) (enemies g1 ! i)"
    by simp_all
  note ih = Cons.IH [OF s(2) ks Cons.prems(3) f(1) f(2)]
  show ?case
  proof
    fix g' assume "g' \<in> set gs"
    with s(3) have "g' = g1 \<or> g' \<in> set gs1" by simp
    then show "playerClass g' \<noteq> MAGE \<and> i < length (enemies g')
     \<and> ((e_hp (enemies g' ! i) = e_hp (enemies g ! i)
           \<and> e_lastHitAttackId (enemies g' ! i) = e_lastHitAttackId (enemies g ! i))
        \<or> (e_lastHitAttackId (enemies g ! i) \<noteq> k \<and> e_lastHitAttackId (enemies g' ! i) = k
           \<and> (\<exists>g''\<in>set gs. e_hp (enemies g' ! i)
                 = e_hp (enemies g ! i) - comboDamage (playerClass g'') (player g''))))"
    proof
      assume "g' = g1"
      with f s(3) show ?thesis by (auto simp: meleeRule_def)
    next
      assume m: "g' \<in> set gs1"
      from ih m have r: "playerClass g' \<noteq> MAGE \<and> i < length (enemies g')
        \<and> ((e_hp (enemies g' ! i) = e_hp (enemies g1 ! i)
             \<and> e_lastHitAttackId (enemies g' ! i) = e_lastHitAttackId (enemies g1 ! i))
          \<or> (e_lastHitAttackId (enemies g1 ! i) \<noteq> k \<and> e_lastHitAttackId (enemies g' ! i) = k
             \<and> (\<exists>g''\<in>set gs1. e_hp (enemies g' ! i)
                   = e_hp (enemies g1 ! i) - comboDamage (playerClass g'') (player g''))))"
        by blast
      from f(3) show ?thesis
        unfolding meleeRule_def
      proof
        assume "e_hp (enemies g1 ! i) = e_hp (enemies g ! i)
          \<and> e_lastHitAttackId (enemies g1 ! i) = e_lastHitAttackId (enemies g ! i)"
        with r s(3) show ?thesis by auto
      next
        assume "e_lastHitAttackId (enemies g ! i) \<noteq> k \<and> e_lastHitAttackId (enemies g1 ! i) = k
          \<and> e_hp (enemies g1 ! i) = e_hp (enemies g ! i) - comboDamage (playerClass g1) (player g1)"
        with r s(3) show ?thesis by auto
      qed
    qed
  qed
qed

text \<open>The frame-level rule: whether the swing lands decides the hit.\<close>

lemma swing_player:
  "swingLands env dt (p\<lparr>p_hp := h\<rparr>) e = swingLands env dt p e"
  "swingLands env dt (p\<lparr>p_hp := h, p_coins := c\<rparr>) e = swingLands env dt p e"
  "comboDamage pc (p\<lparr>p_hp := h\<rparr>) = comboDamage pc p"
  "comboDamage pc (p\<lparr>p_hp := h, p_coins := c\<rparr>) = comboDamage pc p"
  by (simp_all add: swingLands_def enemyMove_def comboDamage_def)

lemma swingRule_player:
  "swingRule env dt pc (p\<lparr>p_hp := h\<rparr>) e e' = swingRule env dt pc p e e'"
  "swingRule env dt pc (p\<lparr>p_hp := h, p_coins := c\<rparr>) e e' = swingRule env dt pc p e e'"
  by (simp_all add: swingRule_def swing_player)

lemma loopFrame_hp:
  assumes "loopFrame g g1"
  shows "player g1 = (player g)\<lparr>p_hp := p_hp (player g1)\<rparr>"
  using loopFrame_fields(10) [OF assms, where h = "p_hp (player g1)"] by simp

lemma meleeHit_swing:
  assumes "playerClass g \<noteq> MAGE"
  shows "if p_attacking (player g) \<and> 0 \<le> p_currentAttackId (player g)
            \<and> e_lastHitAttackId e \<noteq> p_currentAttackId (player g)
            \<and> RectOverlap env (p_attackHitbox (player g)) (MakeRect (e_pos e) (e_size e))
         then e_hp (fst (meleeHit env e g)) = e_hp e - comboDamage (playerClass g) (player g)
            \<and> e_lastHitAttackId (fst (meleeHit env e g)) = p_currentAttackId (player g)
         else e_hp (fst (meleeHit env e g)) = e_hp e
            \<and> e_lastHitAttackId (fst (meleeHit env e g)) = e_lastHitAttackId e"
  using assms by (cases "playerClass g") (simp_all add: meleeHit_def Let_def)

lemma enemyBody_swingRule:
  assumes cls: "playerClass g \<noteq> MAGE"
  shows "swingRule env dt (playerClass g) (player g) e (fst (enemyBody env dt e g))"
proof (cases "e_alive e")
  case False
  then show ?thesis by (simp add: enemyBody_def swingRule_def swingLands_def)
next
  case True
  let ?r = "enemyWindupResolve env dt
      (enemyWindupStart env (player g) (enemyCooldown dt (enemyMove dt (player g) e))) g"
  let ?e6 = "enemyAnimation env dt (enemyAttackAnim dt (fst ?r))"
  have b: "enemyBody env dt e g = meleeHit env ?e6 (snd ?r)"
    using True by (simp add: enemyBody_def Let_def split_beta)
  have lf: "loopFrame g (snd ?r)" by (rule enemyWindupResolve_frame)
  have c: "playerClass (snd ?r) = playerClass g" by (rule loopFrame_fields(1) [OF lf])
  note p = loopFrame_player [OF lf]
  have d: "comboDamage (playerClass g) (player (snd ?r)) = comboDamage (playerClass g) (player g)"
    by (simp add: comboDamage_def p)
  have e6: "e_pos ?e6 = e_pos (enemyMove dt (player g) e)" "e_size ?e6 = e_size e"
      "e_hp ?e6 = e_hp e" "e_lastHitAttackId ?e6 = e_lastHitAttackId e"
    by simp_all
  from cls c have "playerClass (snd ?r) \<noteq> MAGE" by simp
  from meleeHit_swing [OF this, of ?e6 env] True show ?thesis
    unfolding b swingRule_def swingLands_def c d e6 p by simp
qed

lemma enemyLoop_swingRule:
  assumes cls: "playerClass g \<noteq> MAGE"
  shows "list_all2 (swingRule env dt (playerClass g) (player g)) es (fst (enemyLoop env dt es g))"
proof (rule enemyLoop_all2)
  fix e g1 assume lf: "loopFrame g g1"
  have c: "playerClass g1 = playerClass g" by (rule loopFrame_fields(1) [OF lf])
  with cls have "playerClass g1 \<noteq> MAGE" by simp
  from enemyBody_swingRule [OF this, of env dt e]
  have "swingRule env dt (playerClass g) ((player g)\<lparr>p_hp := p_hp (player g1)\<rparr>) e
      (fst (enemyBody env dt e g1))"
    unfolding c loopFrame_hp [OF lf, symmetric] .
  then show "swingRule env dt (playerClass g) (player g) e (fst (enemyBody env dt e g1))"
    by (simp only: swingRule_player)
qed

lemma playing_swingRule:
  assumes cls: "playerClass g \<noteq> MAGE" and i: "i < length (enemies g)"
  shows "i < length (enemies (playingUpdate env inp dt g))
    \<and> swingRule env dt (playerClass g) (player (playingUpdate env inp dt g))
        (enemies g ! i) (enemies (playingUpdate env inp dt g) ! i)"
proof -
  let ?g11 = "beforeEnemies env inp dt g"
  define g' where "g' = playingUpdate env inp dt g"
  obtain new where n: "enemies ?g11 = enemies g @ new"
    using beforeEnemies_enemies [of env inp dt g] by auto
  have c11: "playerClass ?g11 \<noteq> MAGE" using cls by simp
  have c12: "playerClass (enemyAI env dt ?g11) \<noteq> MAGE"
    using cls by (simp add: loopFrame_fields(1) [OF enemyAI_frame])
  have en: "enemies g' = fst (enemyLoop env dt (enemies g @ new) ?g11)"
    using c12 by (simp add: g'_def mageProjectiles_enemies enemyAI_enemies n)
  obtain h c where p: "player g' = (player ?g11)\<lparr>p_hp := h, p_coins := c\<rparr>"
    using playingUpdate_player [of env inp dt g] unfolding g'_def by blast
  have "list_all2 (swingRule env dt (playerClass ?g11) (player ?g11)) (enemies g @ new)
      (enemies g')"
    unfolding en by (rule enemyLoop_swingRule [OF c11])
  then have l: "list_all2 (swingRule env dt (playerClass g) (player g')) (enemies g @ new)
      (enemies g')"
    by (simp add: p swingRule_player cong: list.rel_cong)
  from i have il: "i < length (enemies g @ new)" by simp
  from list_all2_nthD [OF l il] list_all2_lengthD [OF l] i
  show ?thesis unfolding g'_def [symmetric] by (simp add: nth_append)
qed

text \<open>\<^verbatim>\<open>std::round\<close> gives the nearest integer, and of two nearest the one away from zero.\<close>

lemma std_round_nearest:
  "2 * \<bar>real_of_int (std_round x) - x\<bar> \<le> 1"
  "2 * \<bar>real_of_int (std_round x) - x\<bar> = 1 \<Longrightarrow> \<bar>x\<bar> < \<bar>real_of_int (std_round x)\<bar>"
proof -
  have up: "2 * \<bar>r - x\<bar> \<le> 1 \<and> (2 * \<bar>r - x\<bar> = 1 \<longrightarrow> \<bar>x\<bar> < \<bar>r\<bar>)"
    if "r \<le> x + 1 / 2" "x + 1 / 2 < r + 1" "0 \<le> x" for r :: real
    using that by (auto simp: abs_if)
  have down: "2 * \<bar>r - x\<bar> \<le> 1 \<and> (2 * \<bar>r - x\<bar> = 1 \<longrightarrow> \<bar>x\<bar> < \<bar>r\<bar>)"
    if "r - 1 < x - 1 / 2" "x - 1 / 2 \<le> r" "x < 0" for r :: real
    using that by (auto simp: abs_if)
  have "2 * \<bar>real_of_int (std_round x) - x\<bar> \<le> 1
    \<and> (2 * \<bar>real_of_int (std_round x) - x\<bar> = 1 \<longrightarrow> \<bar>x\<bar> < \<bar>real_of_int (std_round x)\<bar>)"
  proof (cases "0 \<le> x")
    case True
    then have s: "std_round x = \<lfloor>x + 1 / 2\<rfloor>" by (simp add: std_round_def)
    have "real_of_int \<lfloor>x + 1 / 2\<rfloor> \<le> x + 1 / 2" "x + 1 / 2 < real_of_int \<lfloor>x + 1 / 2\<rfloor> + 1"
      by linarith+
    from up [OF this True] show ?thesis unfolding s .
  next
    case False
    then have s: "std_round x = \<lceil>x - 1 / 2\<rceil>" by (simp add: std_round_def)
    have "real_of_int \<lceil>x - 1 / 2\<rceil> - 1 < x - 1 / 2" "x - 1 / 2 \<le> real_of_int \<lceil>x - 1 / 2\<rceil>"
      by linarith+
    from down [OF this] False show ?thesis unfolding s by simp
  qed
  then show "2 * \<bar>real_of_int (std_round x) - x\<bar> \<le> 1"
    "2 * \<bar>real_of_int (std_round x) - x\<bar> = 1 \<Longrightarrow> \<bar>x\<bar> < \<bar>real_of_int (std_round x)\<bar>"
    by simp_all
qed

lemmas damage_defs = comboDamage_def GetComboMultiplier_def std_round_def f32_def ulp_def
  exponent_def rne_def ilog2.simps Let_def

lemma heavy_run:
  "frames rlEnv swingInputs heavySwing = Some (the (frames rlEnv swingInputs heavySwing))"
  by (simp add: swingInputs_def heavySwing_def eval_defs cong: let_weak_cong prod.case_cong_weak)

lemma frame_swingRule:
  assumes playing: "state g = PLAYING" and cls: "playerClass g \<noteq> MAGE"
    and i: "i < length (enemies g)"
  shows "\<exists>g'. frame env inp g = Some g' \<and> playerClass g' = playerClass g
     \<and> i < length (enemies g')
     \<and> swingRule env (gameDtOf inp g) (playerClass g') (player g') (enemies g ! i)
          (enemies g' ! i)"
proof -
  let ?g1 = "hitStopTick inp g"
  define g' where "g' = playingUpdate env inp (gameDtOf inp g) ?g1"
  have f: "frame env inp g = Some g'"
    using playing by (simp add: frame_def Let_def g'_def)
  have c: "playerClass g' = playerClass g" by (simp add: g'_def)
  from playing_swingRule [of ?g1 i env inp "gameDtOf inp g"] cls i
  have "i < length (enemies g')
    \<and> swingRule env (gameDtOf inp g) (playerClass g) (player g') (enemies g ! i)
         (enemies g' ! i)"
    unfolding g'_def by simp
  with f c show ?thesis by simp
qed

lemma damage_table:
  "GetComboMultiplier KNIGHT 1 = 1 \<and> GetComboMultiplier KNIGHT 2 = 5452595 / 4194304
       \<and> GetComboMultiplier KNIGHT 3 = 2 \<and> GetComboMultiplier ROGUE 1 = 11744051 / 16777216
       \<and> GetComboMultiplier ROGUE 2 = 7549747 / 8388608
       \<and> GetComboMultiplier ROGUE 3 = 9227469 / 8388608
       \<and> f32 (95 * (5452595 / 4194304)) = 16187391 / 131072
       \<and> comboDamage KNIGHT (q\<lparr>p_baseDamage := 20, p_comboStep := 1\<rparr>) = 20
       \<and> comboDamage KNIGHT (q\<lparr>p_baseDamage := 20, p_comboStep := 2\<rparr>) = 26
       \<and> comboDamage KNIGHT (q\<lparr>p_baseDamage := 20, p_comboStep := 3\<rparr>) = 40
       \<and> comboDamage KNIGHT (q\<lparr>p_baseDamage := 35, p_comboStep := 2\<rparr>) = 46
       \<and> comboDamage KNIGHT (q\<lparr>p_baseDamage := 65, p_comboStep := 2\<rparr>) = 85
       \<and> comboDamage KNIGHT (q\<lparr>p_baseDamage := 95, p_comboStep := 2\<rparr>) = 123
       \<and> comboDamage ROGUE (q\<lparr>p_baseDamage := 14, p_comboStep := 1\<rparr>) = 10
       \<and> comboDamage ROGUE (q\<lparr>p_baseDamage := 14, p_comboStep := 2\<rparr>) = 13
       \<and> comboDamage ROGUE (q\<lparr>p_baseDamage := 14, p_comboStep := 3\<rparr>) = 15
       \<and> comboDamage ROGUE (q\<lparr>p_baseDamage := 35, p_comboStep := 1\<rparr>) = 25
       \<and> comboDamage ROGUE (q\<lparr>p_baseDamage := 35, p_comboStep := 2\<rparr>) = 32"
  by (simp add: damage_defs)

text \<open>
  C1, as the code has it.  Take any run of frames of a melee class in which the
  player's attack-instance id is \<open>k\<close> after every frame (the swing with id \<open>k\<close> is
  issued in the first of them or was issued before; no later swing, no restart), and
  any enemy.  In every state of the run the enemy's hit points and stamp are either
  what they were at the start, or the enemy did not carry the stamp \<open>k\<close> at the start,
  carries it now, and has lost exactly one application of the damage, taken with the
  player's values in one state of the run: never two, however many frames the hitbox
  stays on it.

  Second, one PLAYING frame of a melee class, for any enemy of the list: the frame
  returns, and if the swing lands on the enemy (it is alive, the swing is on, its
  stamp differs from the current id and the hitbox overlaps it where this frame's
  movement has put it) the enemy loses exactly one application of the damage and
  carries the stamp after the frame; if not, its hit points and its stamp are what
  they were.  Third, the check itself, for any enemy and game: when the swing is on
  and its hitbox overlaps the enemy, the damage is applied and the stamp set if the
  enemy's stamp differs from the current id, and nothing at all happens if it is
  equal.

  The damage is \<^verbatim>\<open>(int)std::round(baseDamage * comboMul)\<close> in single precision: the
  base damage and the multiplier are binary32 numbers, their product is rounded to
  binary32, and \<^verbatim>\<open>std::round\<close> takes the nearest integer, of two nearest the one away
  from zero.  The multipliers are the binary32 numbers nearest to the decimals of the
  source, so \<^verbatim>\<open>1.3f\<close> is a little less than 1.3; the last part lists them and the
  damage for the starting base damage of both melee classes and for base damages
  where the exact product ends in one half: 35 and 65 times \<^verbatim>\<open>1.3f\<close> round to 45.5
  and 84.5 in binary32 and give 46 and 85, 95 times \<^verbatim>\<open>1.3f\<close> rounds to
  123.49999237060546875 and gives 123.
\<close>

theorem melee_one_hit_per_attack_instance:
  assumes run: "frames env inps g = Some gs"
    and same: "\<forall>g'\<in>set gs. p_currentAttackId (player g') = k"
    and k: "0 \<le> k" and cls: "playerClass g \<noteq> MAGE" and i: "i < length (enemies g)"
  shows "(\<forall>g'\<in>set gs. i < length (enemies g')
       \<and> ((e_hp (enemies g' ! i) = e_hp (enemies g ! i)
             \<and> e_lastHitAttackId (enemies g' ! i) = e_lastHitAttackId (enemies g ! i))
          \<or> (e_lastHitAttackId (enemies g ! i) \<noteq> k \<and> e_lastHitAttackId (enemies g' ! i) = k
             \<and> (\<exists>g''\<in>set gs. e_hp (enemies g' ! i)
                   = e_hp (enemies g ! i)
                     - std_round (f32 (f32 (real_of_int (p_baseDamage (player g'')))
                         * GetComboMultiplier (playerClass g'') (p_comboStep (player g''))))))))
    \<and> (\<forall>inp g0 j. state g0 = PLAYING \<and> playerClass g0 \<noteq> MAGE \<and> j < length (enemies g0)
         \<longrightarrow> (\<exists>g1. frame env inp g0 = Some g1 \<and> j < length (enemies g1)
               \<and> (if swingLands env (gameDtOf inp g0) (player g1) (enemies g0 ! j)
                  then e_hp (enemies g1 ! j)
                         = e_hp (enemies g0 ! j)
                           - std_round (f32 (f32 (real_of_int (p_baseDamage (player g1)))
                               * GetComboMultiplier (playerClass g1) (p_comboStep (player g1))))
                     \<and> e_lastHitAttackId (enemies g1 ! j) = p_currentAttackId (player g1)
                  else e_hp (enemies g1 ! j) = e_hp (enemies g0 ! j)
                     \<and> e_lastHitAttackId (enemies g1 ! j) = e_lastHitAttackId (enemies g0 ! j))))
    \<and> (\<forall>e g0. playerClass g0 \<noteq> MAGE \<and> p_attacking (player g0)
           \<and> 0 \<le> p_currentAttackId (player g0)
           \<and> RectOverlap env (p_attackHitbox (player g0)) (MakeRect (e_pos e) (e_size e))
         \<longrightarrow> (if e_lastHitAttackId e \<noteq> p_currentAttackId (player g0)
              then e_hp (fst (meleeHit env e g0))
                     = e_hp e - std_round (f32 (f32 (real_of_int (p_baseDamage (player g0)))
                         * GetComboMultiplier (playerClass g0) (p_comboStep (player g0))))
                 \<and> e_lastHitAttackId (fst (meleeHit env e g0)) = p_currentAttackId (player g0)
              else meleeHit env e g0 = (e, g0)))
    \<and> (\<forall>x. 2 * \<bar>real_of_int (std_round x) - x\<bar> \<le> 1
         \<and> (2 * \<bar>real_of_int (std_round x) - x\<bar> = 1 \<longrightarrow> \<bar>x\<bar> < \<bar>real_of_int (std_round x)\<bar>))
    \<and> (GetComboMultiplier KNIGHT 1 = 1 \<and> GetComboMultiplier KNIGHT 2 = 5452595 / 4194304
       \<and> GetComboMultiplier KNIGHT 3 = 2 \<and> GetComboMultiplier ROGUE 1 = 11744051 / 16777216
       \<and> GetComboMultiplier ROGUE 2 = 7549747 / 8388608
       \<and> GetComboMultiplier ROGUE 3 = 9227469 / 8388608
       \<and> f32 (95 * (5452595 / 4194304)) = 16187391 / 131072
       \<and> comboDamage KNIGHT (q\<lparr>p_baseDamage := 20, p_comboStep := 1\<rparr>) = 20
       \<and> comboDamage KNIGHT (q\<lparr>p_baseDamage := 20, p_comboStep := 2\<rparr>) = 26
       \<and> comboDamage KNIGHT (q\<lparr>p_baseDamage := 20, p_comboStep := 3\<rparr>) = 40
       \<and> comboDamage KNIGHT (q\<lparr>p_baseDamage := 35, p_comboStep := 2\<rparr>) = 46
       \<and> comboDamage KNIGHT (q\<lparr>p_baseDamage := 65, p_comboStep := 2\<rparr>) = 85
       \<and> comboDamage KNIGHT (q\<lparr>p_baseDamage := 95, p_comboStep := 2\<rparr>) = 123
       \<and> comboDamage ROGUE (q\<lparr>p_baseDamage := 14, p_comboStep := 1\<rparr>) = 10
       \<and> comboDamage ROGUE (q\<lparr>p_baseDamage := 14, p_comboStep := 2\<rparr>) = 13
       \<and> comboDamage ROGUE (q\<lparr>p_baseDamage := 14, p_comboStep := 3\<rparr>) = 15
       \<and> comboDamage ROGUE (q\<lparr>p_baseDamage := 35, p_comboStep := 1\<rparr>) = 25
       \<and> comboDamage ROGUE (q\<lparr>p_baseDamage := 35, p_comboStep := 2\<rparr>) = 32)"
    (is "?run \<and> ?frame \<and> ?check \<and> ?round \<and> ?table")
proof -
  from frames_meleeRule [OF run same k cls i]
  have r: ?run
    unfolding comboDamage_def by blast
  have f: ?frame
  proof (intro allI impI)
    fix inp and g0 :: Game and j
    assume h: "state g0 = PLAYING \<and> playerClass g0 \<noteq> MAGE \<and> j < length (enemies g0)"
    then obtain g1 where g1: "frame env inp g0 = Some g1" "j < length (enemies g1)"
        "swingRule env (gameDtOf inp g0) (playerClass g1) (player g1) (enemies g0 ! j)
           (enemies g1 ! j)"
      using frame_swingRule [of g0 j env inp] by blast
    from g1(3) have "if swingLands env (gameDtOf inp g0) (player g1) (enemies g0 ! j)
        then e_hp (enemies g1 ! j)
               = e_hp (enemies g0 ! j)
                 - std_round (f32 (f32 (real_of_int (p_baseDamage (player g1)))
                     * GetComboMultiplier (playerClass g1) (p_comboStep (player g1))))
           \<and> e_lastHitAttackId (enemies g1 ! j) = p_currentAttackId (player g1)
        else e_hp (enemies g1 ! j) = e_hp (enemies g0 ! j)
           \<and> e_lastHitAttackId (enemies g1 ! j) = e_lastHitAttackId (enemies g0 ! j)"
      unfolding swingRule_def comboDamage_def .
    with g1(1,2) show "\<exists>g1. frame env inp g0 = Some g1 \<and> j < length (enemies g1)
               \<and> (if swingLands env (gameDtOf inp g0) (player g1) (enemies g0 ! j)
                  then e_hp (enemies g1 ! j)
                         = e_hp (enemies g0 ! j)
                           - std_round (f32 (f32 (real_of_int (p_baseDamage (player g1)))
                               * GetComboMultiplier (playerClass g1) (p_comboStep (player g1))))
                     \<and> e_lastHitAttackId (enemies g1 ! j) = p_currentAttackId (player g1)
                  else e_hp (enemies g1 ! j) = e_hp (enemies g0 ! j)
                     \<and> e_lastHitAttackId (enemies g1 ! j) = e_lastHitAttackId (enemies g0 ! j))"
      by blast
  qed
  have c: ?check
    using meleeHit_hit meleeHit_miss unfolding comboDamage_def by auto
  have n: ?round
    using std_round_nearest by blast
  have t: ?table
    by (rule damage_table)
  show ?thesis
    by (rule conjI [OF r conjI [OF f conjI [OF c conjI [OF n t]]]])
qed

theorem melee_one_hit_per_attack_instance_witness:
  "frames rlEnv swingInputs heavySwing = Some (the (frames rlEnv swingInputs heavySwing))
   \<and> length (the (frames rlEnv swingInputs heavySwing)) = 3
   \<and> p_currentAttackId (player (the (frames rlEnv swingInputs heavySwing) ! 0)) = 1
   \<and> p_currentAttackId (player (the (frames rlEnv swingInputs heavySwing) ! 1)) = 1
   \<and> p_currentAttackId (player (the (frames rlEnv swingInputs heavySwing) ! 2)) = 1
   \<and> playerClass heavySwing = KNIGHT \<and> length (enemies heavySwing) = 1
   \<and> p_baseDamage (player heavySwing) = 95
   \<and> p_comboStep (player (the (frames rlEnv swingInputs heavySwing) ! 0)) = 2
   \<and> swingLands rlEnv (gameDtOf (pressing [KEY_J]) heavySwing)
        (player (the (frames rlEnv swingInputs heavySwing) ! 0)) (enemies heavySwing ! 0)
   \<and> e_hp (enemies heavySwing ! 0) = 150
   \<and> e_hp (enemies (the (frames rlEnv swingInputs heavySwing) ! 0) ! 0) = 27
   \<and> e_hp (enemies (the (frames rlEnv swingInputs heavySwing) ! 1) ! 0) = 27
   \<and> e_hp (enemies (the (frames rlEnv swingInputs heavySwing) ! 2) ! 0) = 27
   \<and> e_alive (enemies (the (frames rlEnv swingInputs heavySwing) ! 2) ! 0)
   \<and> p_attacking (player (the (frames rlEnv swingInputs heavySwing) ! 2))
   \<and> RectOverlap rlEnv (p_attackHitbox (player (the (frames rlEnv swingInputs heavySwing) ! 2)))
        (MakeRect (e_pos (enemies (the (frames rlEnv swingInputs heavySwing) ! 2) ! 0))
           (e_size (enemies (the (frames rlEnv swingInputs heavySwing) ! 2) ! 0)))"
proof -
  have v: "length (the (frames rlEnv swingInputs heavySwing)) = 3
   \<and> p_currentAttackId (player (the (frames rlEnv swingInputs heavySwing) ! 0)) = 1
   \<and> p_currentAttackId (player (the (frames rlEnv swingInputs heavySwing) ! 1)) = 1
   \<and> p_currentAttackId (player (the (frames rlEnv swingInputs heavySwing) ! 2)) = 1
   \<and> playerClass heavySwing = KNIGHT \<and> length (enemies heavySwing) = 1
   \<and> p_baseDamage (player heavySwing) = 95
   \<and> p_comboStep (player (the (frames rlEnv swingInputs heavySwing) ! 0)) = 2
   \<and> swingLands rlEnv (gameDtOf (pressing [KEY_J]) heavySwing)
        (player (the (frames rlEnv swingInputs heavySwing) ! 0)) (enemies heavySwing ! 0)
   \<and> e_hp (enemies heavySwing ! 0) = 150
   \<and> e_hp (enemies (the (frames rlEnv swingInputs heavySwing) ! 0) ! 0) = 27
   \<and> e_hp (enemies (the (frames rlEnv swingInputs heavySwing) ! 1) ! 0) = 27
   \<and> e_hp (enemies (the (frames rlEnv swingInputs heavySwing) ! 2) ! 0) = 27
   \<and> e_alive (enemies (the (frames rlEnv swingInputs heavySwing) ! 2) ! 0)
   \<and> p_attacking (player (the (frames rlEnv swingInputs heavySwing) ! 2))
   \<and> RectOverlap rlEnv (p_attackHitbox (player (the (frames rlEnv swingInputs heavySwing) ! 2)))
        (MakeRect (e_pos (enemies (the (frames rlEnv swingInputs heavySwing) ! 2) ! 0))
           (e_size (enemies (the (frames rlEnv swingInputs heavySwing) ! 2) ! 0)))"
    by (simp add: swingInputs_def heavySwing_def swingLands_def eval_defs
        cong: let_weak_cong prod.case_cong_weak)
  have same: "\<forall>g'\<in>set (the (frames rlEnv swingInputs heavySwing)).
      p_currentAttackId (player g') = 1"
    using v by (auto simp: in_set_conv_nth less_Suc_eq numeral_3_eq_3 numeral_2_eq_2)
  have k: "(0::int) \<le> 1" by simp
  have cls: "playerClass heavySwing \<noteq> MAGE" using v by simp
  have i: "0 < length (enemies heavySwing)" using v by simp
  from melee_one_hit_per_attack_instance [OF heavy_run same k cls i] heavy_run v
  show ?thesis by blast
qed

text \<open>
  The claim as stated gives the damage as the rounding of the product of the base
  damage and the multiplier.  For the knight of \<open>heavySwing\<close> that is the rounding of
  95 * 1.3 = 123.5, which is 124; the swing takes 123 from the tank, since \<^verbatim>\<open>1.3f\<close> is
  less than 1.3 and the product in single precision is below 123.5.
\<close>

theorem swing_damage_is_single_precision:
  "state heavySwing = PLAYING \<and> playerClass heavySwing = KNIGHT
   \<and> p_baseDamage (player heavySwing) = 95
   \<and> p_comboStep (player (the (frame rlEnv (pressing [KEY_J]) heavySwing))) = 2
   \<and> std_round (real_of_int (p_baseDamage (player heavySwing)) * 1.3) = 124
   \<and> e_hp (enemies heavySwing ! 0) = 150
   \<and> e_lastHitAttackId (enemies heavySwing ! 0) = - 1
   \<and> e_lastHitAttackId (enemies (the (frame rlEnv (pressing [KEY_J]) heavySwing)) ! 0) = 1
   \<and> e_hp (enemies (the (frame rlEnv (pressing [KEY_J]) heavySwing)) ! 0) = 150 - 123"
  by (simp add: heavySwing_def eval_defs cong: let_weak_cong prod.case_cong_weak)

section \<open>Projectiles\<close>

text \<open>
  C2 at a failing input.  An enemy stores one projectile id, the last that hit it
  (\<^verbatim>\<open>lastProjectileHitId\<close>), and a projectile damages every overlapping enemy whose
  stored id differs from its own.  With two projectiles on the same enemy the stored
  id alternates and each of them hits again: the boss carries the stamp of projectile
  1 and has 442 hit points; the frame of the second cast takes 10 (projectile 2, first
  hit) and leaves the stamp 2; the next frame takes 8 for projectile 1, which had
  already hit, and 10 for projectile 2 once more, leaving 414.  The hits move no enemy
  and start no hit-stop.
\<close>

theorem projectile_hits_same_enemy_again:
  "playerClass pierceGame = MAGE
   \<and> map pj_id (projectiles pierceGame) = [1]
   \<and> e_lastProjectileHitId (hd (enemies pierceGame)) = 1
   \<and> e_hp (hd (enemies pierceGame)) = 442
   \<and> map pj_id (projectiles pierceCast) = [1, 2]
   \<and> map pj_damage (projectiles pierceCast) = [8, 10]
   \<and> map pj_active (projectiles pierceNext) = [True, True]
   \<and> e_hp (hd (enemies pierceCast)) = 432
   \<and> e_lastProjectileHitId (hd (enemies pierceCast)) = 2
   \<and> e_hp (hd (enemies pierceNext)) = 414
   \<and> e_alive (hd (enemies pierceNext))
   \<and> gHitStopTimer pierceNext = 0
   \<and> e_pos (hd (enemies pierceNext)) = e_pos (hd (enemies pierceGame))"
  by (simp add: pierceNext_def pierceCast_def pierceGame_def mageStart_def eval_defs
      cong: let_weak_cong prod.case_cong_weak)

end
